(* ===== verification/Prelude.thy ===== *)
theory Prelude
  imports Main "HOL-Library.Word"
begin

text \<open>
  Shared vocabulary of the development: the fixed-width integer types of
  \<^verbatim>\<open>Include/KernelTypes.h\<close>, the reading of C truth values, the
  \<^verbatim>\<open>named_theorems\<close> collections the component proofs use, and the generic lemmas
  on masked word arithmetic and on lists indexed by words.
\<close>

unbundle bit_operations_syntax

type_synonym u8 = "8 word"
type_synonym u16 = "16 word"
type_synonym u32 = "32 word"

named_theorems c_unfold \<open>small C helpers that proofs unfold\<close>
named_theorems prog_simps \<open>evaluation of the machine monad on its primitives\<close>
named_theorems emits_intros \<open>compositional rules for the events a program may issue\<close>
named_theorems returns_intros \<open>compositional rules for programs that always return\<close>
named_theorems keeps_intros \<open>compositional rules for invariants kept by a program\<close>
named_theorems ends_intros \<open>compositional rules for termination\<close>

text \<open>A C condition as the \<^verbatim>\<open>uint32_t\<close> or \<^verbatim>\<open>int\<close> the code returns for it.\<close>

definition c_bool :: "bool \<Rightarrow> u32" where
  "c_bool b = (if b then 1 else 0)"

lemma c_bool_simps [simp]:
  "c_bool True = 1" "c_bool False = 0"
  "(c_bool b = 0) = (\<not> b)" "(c_bool b = 1) = b" "(c_bool b \<noteq> 0) = b"
  "(0 = c_bool b) = (\<not> b)" "(1 = c_bool b) = b"
  by (auto simp: c_bool_def)

section \<open>Masked arithmetic\<close>

lemma unat_take_bit: "unat (take_bit n (w :: 'a::len word)) = unat w mod 2 ^ n"
  by (simp only: unsigned_take_bit_eq) (simp add: take_bit_eq_mod)

lemma unat_and_mask: "unat ((w :: 'a::len word) AND mask n) = unat w mod 2 ^ n"
  by (simp add: unat_take_bit flip: take_bit_eq_mask)

lemma numeral_masks:
  "(3 :: 'a::len word) = mask 2" "(7 :: 'a word) = mask 3"
  "(15 :: 'a word) = mask 4" "(31 :: 'a word) = mask 5" "(63 :: 'a word) = mask 6"
  "(127 :: 'a word) = mask 7" "(255 :: 'a word) = mask 8" "(2047 :: 'a word) = mask 11"
  "(4095 :: 'a word) = mask 12" "(65535 :: 'a word) = mask 16"
  by (simp_all add: mask_eq_exp_minus_1)

lemma unat_and_numeral_mask:
  "unat ((w :: 'a::len word) AND 1) = unat w mod 2"
  "unat (w AND 3) = unat w mod 4" "unat (w AND 7) = unat w mod 8"
  "unat (w AND 15) = unat w mod 16" "unat (w AND 31) = unat w mod 32"
  "unat (w AND 63) = unat w mod 64" "unat (w AND 127) = unat w mod 128"
  "unat (w AND 255) = unat w mod 256" "unat (w AND 2047) = unat w mod 2048"
  "unat (w AND 4095) = unat w mod 4096" "unat (w AND 65535) = unat w mod 65536"
proof -
  have "(1 :: 'a word) = mask 1" by (simp add: mask_eq_exp_minus_1)
  then show "unat (w AND 1) = unat w mod 2" using unat_and_mask [of w 1] by simp
qed (unfold numeral_masks, simp_all add: unat_and_mask)

lemma unat_Suc_mod:
  assumes "n dvd 2 ^ LENGTH('a)"
  shows "unat ((w :: 'a::len word) + 1) mod n = Suc (unat w) mod n"
  using assms by (simp add: unat_word_ariths mod_mod_cancel)

text \<open>Advancing a ring index by one and masking it is addition modulo the ring size.\<close>

lemma unat_ring_next:
  "unat (((w :: u32) + 1) AND 255) = Suc (unat w) mod 256"
  "unat ((w + 1) AND 63) = Suc (unat w) mod 64"
  "unat ((w + 1) AND 31) = Suc (unat w) mod 32"
  by (simp_all add: unat_and_numeral_mask unat_Suc_mod)

lemma and_numeral_less:
  "((w :: u32) AND 255) < 256" "(w AND 127) < 128" "(w AND 63) < 64" "(w AND 31) < 32"
  "(w AND 15) < 16" "(w AND 7) < 8" "(w AND 3) < 4" "(w AND 2047) < 2048" "(w AND 4095) < 4096"
  by (simp_all add: word_less_nat_alt unat_and_numeral_mask)

lemma unat_less_numeral:
  "(w :: u32) < numeral k \<Longrightarrow> unat w < unat (numeral k :: u32)"
  by (simp add: word_less_nat_alt)

lemma ucast_u8_less: "ucast (b :: u8) < (256 :: u32)"
proof -
  have "unat b < 256" using unsigned_less [where w = b] by simp
  then show ?thesis by (simp add: word_less_nat_alt unsigned_ucast_eq take_bit_eq_mod)
qed

lemma unat_ucast_u8_u32 [simp]: "unat (ucast (b :: u8) :: u32) = unat b"
proof -
  have "unat b < 256" using unsigned_less [where w = b] by simp
  then show ?thesis by (simp add: unsigned_ucast_eq take_bit_eq_mod)
qed

lemma unat_ucast_u16_u32 [simp]: "unat (ucast (b :: u16) :: u32) = unat b"
proof -
  have "unat b < 65536" using unsigned_less [where w = b] by simp
  then show ?thesis by (simp add: unsigned_ucast_eq take_bit_eq_mod)
qed

section \<open>Bounds and sums of words\<close>

lemma unat_add_no_wrap:
  "unat x + unat y < 2 ^ LENGTH('a) \<Longrightarrow> unat ((x :: 'a::len word) + y) = unat x + unat y"
  by (simp add: unat_word_ariths)

lemma unat_sub_le: "(y :: 'a::len word) \<le> x \<Longrightarrow> unat (x - y) = unat x - unat y"
  by (rule unat_sub)

lemma unat_mult_no_wrap:
  "unat x * unat y < 2 ^ LENGTH('a) \<Longrightarrow> unat ((x :: 'a::len word) * y) = unat x * unat y"
  by (simp add: unat_word_ariths)

section \<open>Lists\<close>

lemma length_filter_update:
  assumes "i < length xs"
  shows "length (filter P (xs[i := v])) + (if P (xs ! i) then 1 else 0) =
         length (filter P xs) + (if P v then 1 else 0)"
  using assms
proof (induction xs arbitrary: i)
  case Nil
  then show ?case by simp
next
  case (Cons x xs)
  then show ?case by (cases i) auto
qed

lemma length_filter_pos:
  assumes "i < length xs" "P (xs ! i)"
  shows "0 < length (filter P xs)"
  using assms by (auto simp: filter_empty_conv)

lemma and_not_mask: "(w :: 'a::len word) AND NOT (mask n) = w - (w AND mask n)"
proof -
  have "(w AND NOT (mask n)) + (w AND mask n) = (w AND NOT (mask n)) OR (w AND mask n)"
    by (rule disjunctive_add) (simp add: bit_simps)
  also have "\<dots> = w" by (rule bit_word_eqI) (auto simp: bit_simps)
  finally have "(w AND NOT (mask n)) + (w AND mask n) = w" .
  then show ?thesis by (metis add_diff_cancel_right')
qed

lemma unat_and_not_mask: "unat ((w :: 'a::len word) AND NOT (mask n)) = unat w - unat w mod 2 ^ n"
proof -
  have "unat (w - (w AND mask n)) = unat w - unat (w AND mask n)"
    by (rule unat_sub_le) (simp add: word_le_nat_alt unat_and_mask)
  then show ?thesis by (simp add: and_not_mask unat_and_mask)
qed

text \<open>The page of an address.\<close>

lemma unat_page:
  "unat ((x :: u32) AND NOT 4095) = unat x div 4096 * 4096" "unat (x AND - 4096) = unat x div 4096 * 4096"
proof -
  have "unat (x AND NOT 4095) = unat x - unat x mod 4096"
    using unat_and_not_mask [of x 12] by (simp add: numeral_masks(9) [symmetric])
  then show "unat (x AND NOT 4095) = unat x div 4096 * 4096" by (simp add: minus_mod_eq_div_mult)
  then show "unat (x AND - 4096) = unat x div 4096 * 4096" by simp
qed

end
