(* ===== verification/Runtime.thy ===== *)
theory Runtime
  imports Prelude
begin

text \<open>
  The freestanding C runtime, \<^verbatim>\<open>Runtime/Memory.c\<close> and \<^verbatim>\<open>Runtime/String.c\<close>:
  memory is a function from 32-bit addresses to bytes, pointer arithmetic wraps at 32 bits
  as it does on the machine, and each loop is a recursion on the code's index variable.
  The loops over a NUL-terminated string can run forever on a memory with no NUL, so they
  are \<^verbatim>\<open>partial_function (option)\<close>, \<open>None\<close> being "does not return".
\<close>

type_synonym memory = "u32 \<Rightarrow> u8"

lemma loop_step_decreases:
  assumes "(i :: 'a::len word) < c"
  shows "unat (c - (i + 1)) < unat (c - i)"
proof -
  have "unat c < 2 ^ LENGTH('a)" by (rule unsigned_less)
  moreover have "unat i < unat c" using assms by (simp add: word_less_nat_alt)
  ultimately have "Suc (unat i) < 2 ^ LENGTH('a)" by linarith
  then have s: "unat (i + 1) = Suc (unat i)" by (simp add: unat_word_ariths)
  then have "i + 1 \<le> c" using assms by (simp add: word_less_nat_alt word_le_nat_alt)
  then have "unat (c - (i + 1)) = unat c - Suc (unat i)" using s by (simp add: unat_sub_le)
  moreover have "unat (c - i) = unat c - unat i" using assms by (simp add: unat_sub_le)
  ultimately show ?thesis using \<open>unat i < unat c\<close> by simp
qed

section \<open>Memory.c\<close>

function memset_loop :: "memory \<Rightarrow> u32 \<Rightarrow> u8 \<Rightarrow> u32 \<Rightarrow> u32 \<Rightarrow> memory" where
  "memset_loop m output byte index count =
     (if index < count then memset_loop (m(output + index := byte)) output byte (index + 1) count
      else m)"
  by pat_completeness auto
termination
  by (relation "measure (\<lambda>(m, output, byte, index, count). unat (count - index))")
     (auto simp: loop_step_decreases)

definition memset :: "memory \<Rightarrow> u32 \<Rightarrow> u32 \<Rightarrow> u32 \<Rightarrow> memory" where
  "memset m destination value count = memset_loop m destination (ucast value) 0 count"

function copy_forward :: "memory \<Rightarrow> u32 \<Rightarrow> u32 \<Rightarrow> u32 \<Rightarrow> u32 \<Rightarrow> memory" where
  "copy_forward m output input index count =
     (if index < count
      then copy_forward (m(output + index := m (input + index))) output input (index + 1) count
      else m)"
  by pat_completeness auto
termination
  by (relation "measure (\<lambda>(m, output, input, index, count). unat (count - index))")
     (auto simp: loop_step_decreases)

definition memcpy :: "memory \<Rightarrow> u32 \<Rightarrow> u32 \<Rightarrow> u32 \<Rightarrow> memory" where
  "memcpy m destination source count = copy_forward m destination source 0 count"

function copy_backward :: "memory \<Rightarrow> u32 \<Rightarrow> u32 \<Rightarrow> u32 \<Rightarrow> memory" where
  "copy_backward m output input index =
     (if index \<noteq> 0
      then copy_backward (m(output + (index - 1) := m (input + (index - 1)))) output input (index - 1)
      else m)"
  by pat_completeness auto
termination
  by (relation "measure (\<lambda>(m, output, input, index). unat index)") (auto simp: measure_unat)

definition memmove :: "memory \<Rightarrow> u32 \<Rightarrow> u32 \<Rightarrow> u32 \<Rightarrow> memory" where
  "memmove m destination source count =
     (if destination = source \<or> count = 0 then m
      else if destination < source then copy_forward m destination source 0 count
      else copy_backward m destination source count)"

function memcmp_loop :: "memory \<Rightarrow> u32 \<Rightarrow> u32 \<Rightarrow> u32 \<Rightarrow> u32 \<Rightarrow> int" where
  "memcmp_loop m left right index count =
     (if index < count then
        (if m (left + index) \<noteq> m (right + index)
         then uint (m (left + index)) - uint (m (right + index))
         else memcmp_loop m left right (index + 1) count)
      else 0)"
  by pat_completeness auto
termination
  by (relation "measure (\<lambda>(m, left, right, index, count). unat (count - index))")
     (auto simp: loop_step_decreases)

definition memcmp :: "memory \<Rightarrow> u32 \<Rightarrow> u32 \<Rightarrow> u32 \<Rightarrow> int" where
  "memcmp m left right count = memcmp_loop m left right 0 count"

section \<open>String.c\<close>

partial_function (option) strlen_loop :: "memory \<Rightarrow> u32 \<Rightarrow> u32 \<Rightarrow> u32 option" where
  "strlen_loop m text len =
     (if m (text + len) \<noteq> 0 then strlen_loop m text (len + 1) else Some len)"

definition strlen :: "memory \<Rightarrow> u32 \<Rightarrow> u32 option" where
  "strlen m text = strlen_loop m text 0"

partial_function (option) strcmp :: "memory \<Rightarrow> u32 \<Rightarrow> u32 \<Rightarrow> int option" where
  "strcmp m left right =
     (if m left \<noteq> 0 \<and> m left = m right then strcmp m (left + 1) (right + 1)
      else Some (uint (m left) - uint (m right)))"

function strncmp_loop :: "memory \<Rightarrow> u32 \<Rightarrow> u32 \<Rightarrow> u32 \<Rightarrow> u32 \<Rightarrow> int" where
  "strncmp_loop m left right index count =
     (if index < count then
        (if m (left + index) \<noteq> m (right + index)
         then uint (m (left + index)) - uint (m (right + index))
         else if m (left + index) = 0 then 0
         else strncmp_loop m left right (index + 1) count)
      else 0)"
  by pat_completeness auto
termination
  by (relation "measure (\<lambda>(m, left, right, index, count). unat (count - index))")
     (auto simp: loop_step_decreases)

definition strncmp :: "memory \<Rightarrow> u32 \<Rightarrow> u32 \<Rightarrow> u32 \<Rightarrow> int" where
  "strncmp m left right count = strncmp_loop m left right 0 count"

text \<open>The copy loop of \<^verbatim>\<open>kstrlcpy\<close> is the forward copy of \<^verbatim>\<open>memcpy\<close>.\<close>

definition kstrlcpy :: "memory \<Rightarrow> u32 \<Rightarrow> u32 \<Rightarrow> u32 \<Rightarrow> (memory \<times> u32) option" where
  "kstrlcpy m destination source capacity =
     (case strlen m source of
        None \<Rightarrow> None
      | Some source_length \<Rightarrow>
          if capacity = 0 then Some (m, source_length)
          else
            let copy_length = (if source_length \<ge> capacity then capacity - 1 else source_length);
                m' = copy_forward m destination source 0 copy_length
            in Some (m'(destination + copy_length := 0), source_length))"

declare memset_loop.simps [simp del] copy_forward.simps [simp del] copy_backward.simps [simp del]
  memcmp_loop.simps [simp del] strncmp_loop.simps [simp del]

section \<open>What the loops compute\<close>

lemma word_range_Suc:
  assumes "(i :: u32) < c"
  shows "(i + 1 \<le> x \<and> x < c) = (i \<le> x \<and> x < c \<and> x \<noteq> i)"
  using assms by unat_arith

lemma offset_eq: "((a :: u32) - d = i) = (a = d + i)"
  by (auto simp: algebra_simps)

lemma memset_loop_eq:
  "memset_loop m d b i c = (\<lambda>a. if i \<le> a - d \<and> a - d < c then b else m a)"
proof (induction m d b i c rule: memset_loop.induct)
  case (1 m d b i c)
  show ?case
  proof (cases "i < c")
    case True
    have "memset_loop m d b i c =
      (\<lambda>a. if i + 1 \<le> a - d \<and> a - d < c then b else (m(d + i := b)) a)"
      by (subst memset_loop.simps) (simp only: True "1.IH" if_True)
    also have "\<dots> = (\<lambda>a. if i \<le> a - d \<and> a - d < c then b else m a)"
      using True by (intro ext) (auto simp: word_range_Suc offset_eq)
    finally show ?thesis .
  next
    case False
    then show ?thesis by (subst memset_loop.simps) (auto intro!: ext)
  qed
qed

text \<open>The offsets two pointers are apart, read modulo the address space.\<close>

lemma alias_offset: "((d :: u32) + i = s + j) = (d - s = j - i)"
  by (simp add: diff_eq_eq) (simp add: algebra_simps eq_commute)

lemma copy_forward_eq:
  assumes "d = s \<or> c \<le> d - s"
  shows "copy_forward m d s i c = (\<lambda>a. if i \<le> a - d \<and> a - d < c then m (s + (a - d)) else m a)"
  using assms
proof (induction m d s i c rule: copy_forward.induct)
  case (1 m d s i c)
  show ?case
  proof (cases "i < c")
    case True
    let ?m = "m(d + i := m (s + i))"
    have clean: "?m (s + x) = m (s + x)" if "i + 1 \<le> x" "x < c" for x
    proof (cases "d = s")
      case False
      have "d - s \<noteq> x - i"
      proof
        assume "d - s = x - i"
        then have "c \<le> x - i" using "1.prems" False by simp
        then show False using that True by unat_arith
      qed
      then show ?thesis using alias_offset [of d i s x] by auto
    qed auto
    have "copy_forward m d s i c =
      (\<lambda>a. if i + 1 \<le> a - d \<and> a - d < c then ?m (s + (a - d)) else ?m a)"
      by (subst copy_forward.simps) (simp only: True "1.IH" "1.prems" if_True)
    also have "\<dots> = (\<lambda>a. if i + 1 \<le> a - d \<and> a - d < c then m (s + (a - d)) else ?m a)"
      by (intro ext if_cong refl clean) auto
    also have "\<dots> = (\<lambda>a. if i \<le> a - d \<and> a - d < c then m (s + (a - d)) else m a)"
      using True by (intro ext) (auto simp: word_range_Suc offset_eq)
    finally show ?thesis .
  next
    case False
    then show ?thesis by (subst copy_forward.simps) (auto intro!: ext)
  qed
qed

lemma word_below_pred:
  assumes "(i :: u32) \<noteq> 0"
  shows "(x < i - 1) = (x < i \<and> x \<noteq> i - 1)"
  using assms by unat_arith

lemma word_pred_less: "(i :: u32) \<noteq> 0 \<Longrightarrow> i - 1 < i"
  by unat_arith

lemma copy_backward_eq:
  assumes "i \<le> s - d"
  shows "copy_backward m d s i = (\<lambda>a. if a - d < i then m (s + (a - d)) else m a)"
  using assms
proof (induction m d s i rule: copy_backward.induct)
  case (1 m d s i)
  show ?case
  proof (cases "i = 0")
    case True
    then show ?thesis by (subst copy_backward.simps) simp
  next
    case False
    let ?m = "m(d + (i - 1) := m (s + (i - 1)))"
    have clean: "?m (s + x) = m (s + x)" if "x < i - 1" for x
    proof -
      have "s - d \<noteq> (i - 1) - x"
        using "1.prems" that False by unat_arith
      then have "s + x \<noteq> d + (i - 1)" using alias_offset [of s x d "i - 1"] by auto
      then show ?thesis by simp
    qed
    have "i - 1 \<le> s - d" using "1.prems" False by unat_arith
    then have "copy_backward m d s i =
      (\<lambda>a. if a - d < i - 1 then ?m (s + (a - d)) else ?m a)"
      by (subst copy_backward.simps) (simp only: False "1.IH" if_True not_False_eq_True)
    also have "\<dots> = (\<lambda>a. if a - d < i - 1 then m (s + (a - d)) else ?m a)"
      by (intro ext if_cong refl clean) auto
    also have "\<dots> = (\<lambda>a. if a - d < i then m (s + (a - d)) else m a)"
      using False by (intro ext) (auto simp: word_below_pred word_pred_less offset_eq)
    finally show ?thesis .
  qed
qed

lemma memset_eq: "memset m d v c = (\<lambda>a. if a - d < c then ucast v else m a)"
  by (simp add: memset_def memset_loop_eq)

lemma memcpy_eq:
  assumes "d = s \<or> c \<le> d - s"
  shows "memcpy m d s c = (\<lambda>a. if a - d < c then m (s + (a - d)) else m a)"
  using assms by (simp add: memcpy_def copy_forward_eq)

lemma wrap_distance:
  assumes "(x :: u32) < y" "unat y + unat c \<le> 2 ^ 32"
  shows "c \<le> x - y"
proof -
  have "unat (x - y) = 2 ^ 32 + unat x - unat y"
    using assms(1) by (simp add: unat_sub_if' word_less_nat_alt)
  then show ?thesis using assms by (simp add: word_le_nat_alt)
qed

lemma memmove_eq:
  assumes "unat d + unat c \<le> 2 ^ 32" "unat s + unat c \<le> 2 ^ 32"
  shows "memmove m d s c = (\<lambda>a. if a - d < c then m (s + (a - d)) else m a)"
proof -
  consider "d = s \<or> c = 0" | "d < s" "c \<noteq> 0" | "s < d" "c \<noteq> 0"
    by (metis less_linear)
  then show ?thesis
  proof cases
    case 1
    then show ?thesis by (auto simp: memmove_def)
  next
    case 2
    then have "c \<le> d - s" using assms wrap_distance by simp
    then show ?thesis using 2 by (auto simp: memmove_def copy_forward_eq)
  next
    case 3
    then have "c \<le> s - d" using assms wrap_distance by simp
    then show ?thesis using 3 by (auto simp: memmove_def copy_backward_eq)
  qed
qed

section \<open>Strings\<close>

text \<open>\<open>cstring m a s\<close>: the bytes \<open>s\<close>, none of them NUL, then a NUL, stand at address \<open>a\<close>.\<close>

definition cstring :: "memory \<Rightarrow> u32 \<Rightarrow> u8 list \<Rightarrow> bool" where
  "cstring m a s \<longleftrightarrow> (\<forall>i < length s. m (a + of_nat i) = s ! i \<and> s ! i \<noteq> 0) \<and>
     m (a + of_nat (length s)) = 0 \<and> length s < 2 ^ 32"

text \<open>The comparison of two byte sequences that the C library functions promise.\<close>

fun bytes_cmp :: "u8 list \<Rightarrow> u8 list \<Rightarrow> int" where
  "bytes_cmp [] [] = 0"
| "bytes_cmp [] (y # ys) = - uint y"
| "bytes_cmp (x # xs) [] = uint x"
| "bytes_cmp (x # xs) (y # ys) = (if x = y then bytes_cmp xs ys else uint x - uint y)"

lemma bytes_cmp_eq_0:
  "0 \<notin> set s \<Longrightarrow> 0 \<notin> set t \<Longrightarrow> bytes_cmp s t = 0 \<longleftrightarrow> s = t"
  by (induction s t rule: bytes_cmp.induct) (auto simp: uint_0_iff dest: unsigned_word_eqI)

lemma uint_le_neq: "uint (x :: 'a::len word) \<le> uint y \<Longrightarrow> x \<noteq> y \<Longrightarrow> uint x < uint y"
  by (metis order_le_imp_less_or_eq unsigned_word_eqI)

lemma bytes_cmp_less:
  "0 \<notin> set s \<Longrightarrow> 0 \<notin> set t \<Longrightarrow> bytes_cmp s t < 0 \<longleftrightarrow> ord_class.lexordp s t"
proof (induction s t rule: bytes_cmp.induct)
  case (2 y ys)
  have "uint y \<noteq> 0" using 2 by (auto simp: uint_0_iff)
  then have "0 < uint y" by (metis uint_ge_0 order_le_imp_less_or_eq)
  then show ?case by simp
qed (auto simp: word_less_alt not_less uint_le_neq)

lemma cstring_Nil: "cstring m a [] \<longleftrightarrow> m a = 0"
  by (simp add: cstring_def)

lemma cstring_Cons:
  "cstring m a (x # xs) \<Longrightarrow> m a = x \<and> x \<noteq> 0 \<and> cstring m (a + 1) xs"
  by (fastforce simp: cstring_def add.assoc dest: spec [where x = "Suc _"])

lemma cstring_no_NUL: "cstring m a s \<Longrightarrow> 0 \<notin> set s"
  by (metis cstring_def in_set_conv_nth)

lemma strlen_loop_cstring:
  assumes "cstring m a s" "k \<le> length s"
  shows "strlen_loop m a (of_nat k) = Some (of_nat (length s))"
  using assms(2)
proof (induction rule: inc_induct)
  case base
  then show ?case using assms(1) by (subst strlen_loop.simps) (simp add: cstring_def)
next
  case (step n)
  then have "m (a + of_nat n) \<noteq> 0" using assms(1) by (simp add: cstring_def)
  then show ?case using step.IH by (subst strlen_loop.simps) (simp add: add.commute)
qed

lemma strlen_cstring: "cstring m a s \<Longrightarrow> strlen m a = Some (of_nat (length s))"
  using strlen_loop_cstring [of m a s 0] by (simp add: strlen_def)

lemma strcmp_cstring:
  "cstring m l s \<Longrightarrow> cstring m r t \<Longrightarrow> strcmp m l r = Some (bytes_cmp s t)"
proof (induction s t arbitrary: l r rule: bytes_cmp.induct)
  case (4 x xs y ys)
  then show ?case
    by (subst strcmp.simps) (auto dest!: cstring_Cons)
qed (subst strcmp.simps; force dest!: cstring_Cons simp: cstring_Nil)+

lemma unat_sub_step:
  assumes "(i :: u32) < c"
  shows "unat (c - i) = Suc (unat (c - (i + 1)))"
  using assms by unat_arith

lemma strncmp_loop_cstring:
  assumes "cstring m (l + i) s" "cstring m (r + i) t" "i \<le> c"
  shows "strncmp_loop m l r i c =
         bytes_cmp (take (unat (c - i)) s) (take (unat (c - i)) t)"
  using assms
proof (induction m l r i c arbitrary: s t rule: strncmp_loop.induct)
  case (1 m l r i c)
  show ?case
  proof (cases "i < c")
    case False
    then show ?thesis using "1.prems"(3) by (subst strncmp_loop.simps) simp
  next
    case True
    have le: "i + 1 \<le> c" using True by unat_arith
    show ?thesis
    proof (cases s; cases t)
      fix x xs y ys
      assume st: "s = x # xs" "t = y # ys"
      have c: "m (l + i) = x" "x \<noteq> 0" "cstring m (l + (i + 1)) xs"
        "m (r + i) = y" "y \<noteq> 0" "cstring m (r + (i + 1)) ys"
        using "1.prems"(1,2) cstring_Cons unfolding st by (metis add.assoc)+
      show ?thesis
        using "1.IH" [OF True _ _ _ _ le] c True
        by (subst strncmp_loop.simps) (simp add: st unat_sub_step)
    qed (use "1.prems"(1,2) True in \<open>subst strncmp_loop.simps,
          force dest!: cstring_Cons simp: cstring_Nil unat_sub_step\<close>)+
  qed
qed

lemma strncmp_cstring:
  "cstring m l s \<Longrightarrow> cstring m r t \<Longrightarrow>
   strncmp m l r c = bytes_cmp (take (unat c) s) (take (unat c) t)"
  using strncmp_loop_cstring [of m l 0 s r t c] by (simp add: strncmp_def)

lemma memcmp_loop_eq:
  assumes "i \<le> c"
  shows "memcmp_loop m l r i c =
    bytes_cmp (map (\<lambda>k. m (l + of_nat k)) [unat i..<unat c]) (map (\<lambda>k. m (r + of_nat k)) [unat i..<unat c])"
  using assms
proof (induction m l r i c rule: memcmp_loop.induct)
  case (1 m l r i c)
  show ?case
  proof (cases "i < c")
    case False
    then show ?thesis using "1.prems" by (subst memcmp_loop.simps) simp
  next
    case True
    have s: "unat (i + 1) = Suc (unat i)" and le: "i + 1 \<le> c" and l: "unat i < unat c"
      using True by unat_arith+
    show ?thesis
      using "1.IH" [OF True _ le] True s
      by (subst memcmp_loop.simps) (simp add: upt_conv_Cons [OF l])
  qed
qed

lemma memcmp_eq:
  "memcmp m l r c = bytes_cmp (map (\<lambda>k. m (l + of_nat k)) [0..<unat c]) (map (\<lambda>k. m (r + of_nat k)) [0..<unat c])"
  using memcmp_loop_eq [of 0 c m l r] by (simp add: memcmp_def)

lemma bytes_cmp_same_length:
  "length s = length t \<Longrightarrow> (bytes_cmp s t = 0 \<longleftrightarrow> s = t) \<and> (bytes_cmp s t < 0 \<longleftrightarrow> ord_class.lexordp s t)"
  by (induction s t rule: list_induct2) (auto simp: word_less_alt not_less uint_le_neq dest: unsigned_word_eqI)

lemma kstrlcpy_cstring:
  assumes "cstring m src s" "capacity \<noteq> 0" "of_nat (length s) \<le> dst - src"
  shows "\<exists>m'. kstrlcpy m dst src capacity = Some (m', of_nat (length s)) \<and>
           cstring m' dst (take (unat capacity - 1) s) \<and>
           (\<forall>a. capacity \<le> a - dst \<longrightarrow> m' a = m a)"
proof -
  let ?n = "of_nat (length s) :: u32"
  have pos: "0 < unat capacity" using assms(2) by (simp add: unat_gt_0)
  have n: "unat ?n = length s" using assms(1) by (simp add: cstring_def unat_of_nat take_bit_eq_mod)
  define k where "k = (if ?n \<ge> capacity then capacity - 1 else ?n)"
  have k: "unat k = min (unat capacity - 1) (length s)" "k < capacity"
    using assms(2) n pos unfolding k_def by (auto simp: min_def word_le_nat_alt word_less_nat_alt unat_minus_one unat_gt_0)
  define m' where "m' = (copy_forward m dst src 0 k)(dst + k := 0)"
  have "k \<le> dst - src" using assms(3) k_def k(2) by (auto split: if_splits)
  then have cp: "m' a = (if a = dst + k then 0 else if a - dst < k then m (src + (a - dst)) else m a)" for a
    by (simp add: m'_def copy_forward_eq)
  have "cstring m' dst (take (unat capacity - 1) s)"
    unfolding cstring_def
  proof (intro conjI allI impI)
    fix i assume "i < length (take (unat capacity - 1) s)"
    then have i: "i < unat k" "i < length s" using k(1) by auto
    then have oi: "unat (of_nat i :: u32) = i" using n unsigned_less [of k] by (simp add: unat_of_nat take_bit_eq_mod)
    then have "of_nat i < k" "of_nat i \<noteq> k" using i by (auto simp: word_less_nat_alt)
    then show "m' (dst + of_nat i) = take (unat capacity - 1) s ! i"
      and "take (unat capacity - 1) s ! i \<noteq> 0"
      using assms(1) i k(1) by (auto simp: cp cstring_def)
  next
    have "length (take (unat capacity - 1) s) = unat k" using k(1) by simp
    then have "of_nat (length (take (unat capacity - 1) s)) = k" by simp
    then show "m' (dst + of_nat (length (take (unat capacity - 1) s))) = 0" by (simp add: cp)
  qed (use assms(1) in \<open>simp add: cstring_def min_less_iff_disj\<close>)
  moreover have "m' a = m a" if "capacity \<le> a - dst" for a
    using that k(2) by (auto simp: cp)
  moreover have "kstrlcpy m dst src capacity = Some (m', ?n)"
    using assms by (simp add: kstrlcpy_def strlen_cstring Let_def m'_def k_def)
  ultimately show ?thesis by blast
qed

section \<open>Properties\<close>

definition demo_memory :: memory where
  "demo_memory = (\<lambda>_. 0)(0x1000 := 0x61, 0x1001 := 0x62, 0x1002 := 0x63, 0x2000 := 0x61, 0x2001 := 0x7A)"

lemma demo_strings: "cstring demo_memory 0x1000 [0x61, 0x62, 0x63]" "cstring demo_memory 0x2000 [0x61, 0x7A]"
  by (simp_all add: cstring_def demo_memory_def All_less_Suc)

text \<open>
  C7: \<^verbatim>\<open>memmove\<close> moves. For blocks that do not run past the end of the address space, overlapping in
  any way, the destination holds the bytes the source held before the call and every other
  byte of memory is unchanged.
\<close>

theorem memmove_moves:
  assumes "unat d + unat c \<le> 2 ^ 32" "unat s + unat c \<le> 2 ^ 32"
  shows "memmove m d s c = (\<lambda>a. if a - d < c then m (s + (a - d)) else m a)"
  using assms by (rule memmove_eq)

theorem memmove_moves_witness:
  "memmove demo_memory 0x1001 0x1000 8 =
    (\<lambda>a. if a - 0x1001 < 8 then demo_memory (0x1000 + (a - 0x1001)) else demo_memory a)"
  by (rule memmove_moves) simp_all

text \<open>
  C8: string comparison. On two NUL-terminated strings \<^verbatim>\<open>strcmp\<close> returns, zero exactly
  for equal strings and negative exactly when the left one is lexicographically smaller as
  unsigned bytes; \<^verbatim>\<open>strncmp\<close> decides the same of their first \<open>c\<close> bytes.
\<close>

theorem string_comparison_orders:
  assumes "cstring m l s" "cstring m r t"
  shows "(\<exists>d. strcmp m l r = Some d \<and> (d = 0 \<longleftrightarrow> s = t) \<and> (d < 0 \<longleftrightarrow> ord_class.lexordp s t)) \<and>
    (strncmp m l r c = 0 \<longleftrightarrow> take (unat c) s = take (unat c) t) \<and>
    (strncmp m l r c < 0 \<longleftrightarrow> ord_class.lexordp (take (unat c) s) (take (unat c) t))"
proof -
  have n: "0 \<notin> set s" "0 \<notin> set t" using assms cstring_no_NUL by auto
  then have "0 \<notin> set (take (unat c) s)" "0 \<notin> set (take (unat c) t)" by (auto dest: in_set_takeD)
  then show ?thesis
    using strcmp_cstring [OF assms] strncmp_cstring [OF assms] n by (simp add: bytes_cmp_eq_0 bytes_cmp_less)
qed

text \<open>
  C9: \<^verbatim>\<open>kstrlcpy\<close>. On a NUL-terminated source with room, it returns the full
  source length, leaves a NUL-terminated string in the destination (the source cut to
  capacity - 1 bytes) and writes nothing at or beyond the capacity.
\<close>

theorem kstrlcpy_terminates_string:
  assumes "cstring m src s" "capacity \<noteq> 0" "of_nat (length s) \<le> dst - src"
  shows "\<exists>m'. kstrlcpy m dst src capacity = Some (m', of_nat (length s)) \<and>
           cstring m' dst (take (unat capacity - 1) s) \<and>
           (\<forall>a. capacity \<le> a - dst \<longrightarrow> m' a = m a)"
  using assms by (rule kstrlcpy_cstring)

theorem string_comparison_orders_witness:
  "(\<exists>d. strcmp demo_memory 0x1000 0x2000 = Some d \<and> (d = 0 \<longleftrightarrow> [0x61, 0x62, 0x63 :: u8] = [0x61, 0x7A]) \<and>
      (d < 0 \<longleftrightarrow> ord_class.lexordp [0x61, 0x62, 0x63 :: u8] [0x61, 0x7A])) \<and>
    (strncmp demo_memory 0x1000 0x2000 1 = 0 \<longleftrightarrow> take (unat (1 :: u32)) [0x61, 0x62, 0x63 :: u8] = take (unat (1 :: u32)) [0x61, 0x7A]) \<and>
    (strncmp demo_memory 0x1000 0x2000 1 < 0 \<longleftrightarrow>
      ord_class.lexordp (take (unat (1 :: u32)) [0x61, 0x62, 0x63 :: u8]) (take (unat (1 :: u32)) [0x61, 0x7A]))"
  by (rule string_comparison_orders [OF demo_strings])

theorem kstrlcpy_terminates_string_witness:
  "\<exists>m'. kstrlcpy demo_memory 0x3000 0x1000 3 = Some (m', of_nat (length [0x61, 0x62, 0x63 :: u8])) \<and>
     cstring m' 0x3000 (take (unat (3 :: u32) - 1) [0x61, 0x62, 0x63]) \<and>
     (\<forall>a. 3 \<le> a - 0x3000 \<longrightarrow> m' a = demo_memory a)"
  by (rule kstrlcpy_terminates_string [OF demo_strings(1)]) simp_all

end
