(* ===== verification/Ring_Buffer.thy ===== *)
theory Ring_Buffer
  imports Prelude
begin

text \<open>
  Single-producer, single-consumer rings. Every event queue of the kernel (scan codes,
  mouse packets, cursor motions, UHCI reports) is an array of slots with a producer index
  and a consumer index. This theory gives the list a ring stands for, the laws of storing
  and removing at its ends, and the contract \<^verbatim>\<open>spsc_queue\<close> that the queues of the
  components are interpretations of, with the conservation theorem of its clients.
\<close>

section \<open>The list a ring stands for\<close>

definition ring_count :: "nat \<Rightarrow> nat \<Rightarrow> nat \<Rightarrow> nat" where
  "ring_count n tail head = (head + n - tail) mod n"

definition ring_list :: "nat \<Rightarrow> (nat \<Rightarrow> 'a) \<Rightarrow> nat \<Rightarrow> nat \<Rightarrow> 'a list" where
  "ring_list n slot tail head = map (\<lambda>i. slot ((tail + i) mod n)) [0..<ring_count n tail head]"

lemma length_ring_list [simp]: "length (ring_list n slot t h) = ring_count n t h"
  by (simp add: ring_list_def)

lemma ring_count_less: "0 < n \<Longrightarrow> ring_count n t h < n"
  by (simp add: ring_count_def)

lemma ring_count_cases:
  assumes "t < n" "h < n"
  shows "ring_count n t h = (if t \<le> h then h - t else h + n - t)"
  using assms by (auto simp: ring_count_def mod_if)

lemma ring_count_0_iff: "t < n \<Longrightarrow> h < n \<Longrightarrow> ring_count n t h = 0 \<longleftrightarrow> t = h"
  by (auto simp: ring_count_cases)

lemma ring_list_Nil_iff: "t < n \<Longrightarrow> h < n \<Longrightarrow> ring_list n slot t h = [] \<longleftrightarrow> t = h"
  by (metis length_0_conv length_ring_list ring_count_0_iff)

lemma ring_list_self [simp]: "ring_list n slot t t = []"
  by (simp add: ring_list_def ring_count_def)

lemma ring_full_iff:
  assumes "t < n" "h < n"
  shows "Suc h mod n = t \<longleftrightarrow> ring_count n t h = n - 1"
  using assms by (auto simp: ring_count_cases mod_Suc)

lemma ring_count_put:
  assumes "t < n" "h < n" "Suc h mod n \<noteq> t"
  shows "ring_count n t (Suc h mod n) = Suc (ring_count n t h)"
  using assms by (auto simp: ring_count_cases mod_Suc)

lemma ring_index_head:
  assumes "t < n" "h < n"
  shows "(t + ring_count n t h) mod n = h"
  using assms by (auto simp: ring_count_cases)

lemma ring_index_inj:
  assumes "i < n" "j < n" "(t + i) mod n = (t + j) mod n"
  shows "i = (j :: nat)"
proof -
  have "int (t + i) mod int n = int (t + j) mod int n"
    using assms(3) by (metis of_nat_mod)
  then have "(int t + int i) mod int n = (int t + int j) mod int n" by simp
  then have "int i mod int n = int j mod int n"
    by (metis add_diff_cancel_left' mod_diff_left_eq)
  then show ?thesis using assms(1,2) by simp
qed

theorem ring_list_put:
  assumes "t < n" "h < n" "Suc h mod n \<noteq> t"
  shows "ring_list n (slot(h := x)) t (Suc h mod n) = ring_list n slot t h @ [x]"
proof -
  have n: "0 < n" using assms(1) by simp
  have free: "(t + i) mod n \<noteq> h" if "i < ring_count n t h" for i
  proof
    assume "(t + i) mod n = h"
    then have "(t + i) mod n = (t + ring_count n t h) mod n"
      using assms by (simp add: ring_index_head)
    moreover have "i < n" using that ring_count_less [OF n, of t h] by simp
    ultimately show False
      using ring_index_inj ring_count_less [OF n, of t h] that by blast
  qed
  show ?thesis
    using assms free by (simp add: ring_list_def ring_count_put ring_index_head)
qed

theorem ring_list_get:
  assumes "t < n" "h < n" "t \<noteq> h"
  shows "ring_list n slot t h = slot t # ring_list n slot (Suc t mod n) h"
proof -
  have c: "ring_count n t h = Suc (ring_count n (Suc t mod n) h)"
    using assms by (auto simp: ring_count_cases mod_Suc)
  have shift: "Suc (t + i) mod n = (Suc t mod n + i) mod n" for i
    by (metis add_Suc mod_add_left_eq)
  show ?thesis
    using assms by (simp add: ring_list_def c upt_conv_Cons map_Suc_upt [symmetric] shift
        del: upt_Suc)
qed

lemma ring_list_other_slot:
  assumes "t < n" "h < n" "\<And>i. i < ring_count n t h \<Longrightarrow> (t + i) mod n \<noteq> k"
  shows "ring_list n (slot(k := x)) t h = ring_list n slot t h"
  using assms by (simp add: ring_list_def)

lemma ring_list_cong:
  assumes "\<And>i. i < n \<Longrightarrow> slot i = slot' i" "0 < n"
  shows "ring_list n slot t h = ring_list n slot' t h"
  using assms by (simp add: ring_list_def)

section \<open>The queue contract and its client\<close>

text \<open>
  \<^verbatim>\<open>put\<close> is the producer's half (an interrupt handler), which keeps a full queue
  unchanged and counts the loss elsewhere; \<^verbatim>\<open>front\<close> and \<^verbatim>\<open>advance\<close> are the
  consumer's half. \<^verbatim>\<open>ok\<close> are the items the producer's guards let through.
\<close>

locale spsc_queue =
  fixes cap :: nat
    and content :: "'q \<Rightarrow> 'a list"
    and invar :: "'q \<Rightarrow> bool"
    and ok :: "'a \<Rightarrow> bool"
    and put :: "'a \<Rightarrow> 'q \<Rightarrow> 'q"
    and front :: "'q \<Rightarrow> 'a"
    and advance :: "'q \<Rightarrow> 'q"
  assumes content_bound: "invar q \<Longrightarrow> length (content q) \<le> cap"
    and content_put: "invar q \<Longrightarrow> ok x \<Longrightarrow>
          content (put x q) = (if length (content q) < cap then content q @ [x] else content q)"
    and content_get: "invar q \<Longrightarrow> content q \<noteq> [] \<Longrightarrow> content q = front q # content (advance q)"
    and invar_put: "invar q \<Longrightarrow> ok x \<Longrightarrow> invar (put x q)"
    and invar_advance: "invar q \<Longrightarrow> content q \<noteq> [] \<Longrightarrow> invar (advance q)"
begin

text \<open>
  The consumer may be interrupted while it reads the front item: the producer does not touch it.
\<close>

lemma front_stable:
  assumes "invar q" "ok x" "content q \<noteq> []"
  shows "content (put x q) \<noteq> []" "front (put x q) = front q"
proof -
  obtain y ys where y: "content q = y # ys" using assms(3) by (cases "content q") auto
  then obtain zs where z: "content (put x q) = y # zs" using content_put [OF assms(1,2)] by (cases "length (content q) < cap") auto
  then show "content (put x q) \<noteq> []" by simp
  show "front (put x q) = front q"
    using content_get [OF assms(1,3)] content_get [OF invar_put [OF assms(1,2)]] y z by simp
qed

text \<open>
  A schedule interleaves the producer (\<open>Some x\<close>) and the consumer (\<open>None\<close>)
  arbitrarily; the run records what was accepted and what was delivered.
\<close>

fun run :: "'q \<Rightarrow> 'a option list \<Rightarrow> 'q \<times> 'a list \<times> 'a list" where
  "run q [] = (q, [], [])"
| "run q (Some x # ops) =
     (let (q', accepted, delivered) = run (put x q) ops
      in (q', (if length (content q) < cap then x # accepted else accepted), delivered))"
| "run q (None # ops) =
     (if content q = [] then run q ops
      else let (q', accepted, delivered) = run (advance q) ops
           in (q', accepted, front q # delivered))"

lemma run_conserves:
  assumes "invar q" "\<And>x. Some x \<in> set ops \<Longrightarrow> ok x" "run q ops = (q', accepted, delivered)"
  shows "invar q' \<and> content q @ accepted = delivered @ content q'"
  using assms
proof (induction q ops arbitrary: q' accepted delivered rule: run.induct)
  case (1 q)
  then show ?case by simp
next
  case (2 q x ops)
  obtain acc where r: "run (put x q) ops = (q', acc, delivered)"
    and acc: "accepted = (if length (content q) < cap then x # acc else acc)"
    using "2.prems"(3) by (auto split: prod.splits)
  have "invar q' \<and> content (put x q) @ acc = delivered @ content q'"
    using "2.IH" "2.prems"(1,2) r invar_put by simp
  then show ?case
    using acc content_put "2.prems"(1,2) by (auto split: if_splits)
next
  case (3 q ops)
  show ?case
  proof (cases "content q = []")
    case True
    then show ?thesis using 3 by simp
  next
    case False
    then obtain del where r: "run (advance q) ops = (q', accepted, del)"
      and del: "delivered = front q # del"
      using "3.prems"(3) by (auto split: prod.splits)
    have "invar q' \<and> content (advance q) @ accepted = del @ content q'"
      using "3.IH"(2) "3.prems"(1,2) r False invar_advance by simp
    then show ?thesis
      using del content_get [OF "3.prems"(1) False] by (metis append_Cons)
  qed
qed

text \<open>
  Delivery: whatever the interleaving, the consumer receives a prefix of the accepted
  items, in the order they arrived, and the rest is still queued.
\<close>

lemma run_fifo:
  assumes "invar q" "content q = []" "\<And>x. Some x \<in> set ops \<Longrightarrow> ok x"
    "run q ops = (q', accepted, delivered)"
  shows "accepted = delivered @ content q'" and "length (content q') \<le> cap"
  using run_conserves [OF assms(1,3,4)] assms(2) content_bound by auto

end

section \<open>Rings with masked indices\<close>

text \<open>
  The layout most queues of the kernel have: two index fields advanced by
  \<^verbatim>\<open>(i + 1) & mask\<close>, an array with one slot left free, and a producer that refuses when
  the next index is the consumer's. The contract of a queue follows from what the operations
  do to the fields.
\<close>

locale masked_ring =
  fixes slots :: nat
    and ring_mask :: u32
    and hd_of :: "'q \<Rightarrow> u32"
    and tl_of :: "'q \<Rightarrow> u32"
    and slot :: "'q \<Rightarrow> nat \<Rightarrow> 'a"
    and ring_ok :: "'q \<Rightarrow> bool"
    and item_ok :: "'a \<Rightarrow> bool"
    and store :: "'a \<Rightarrow> 'q \<Rightarrow> 'q"
    and step_tail :: "'q \<Rightarrow> 'q"
  assumes slots_pos: "0 < slots"
    and mask_next: "unat ((i + 1) AND ring_mask) = Suc (unat i) mod slots"
    and index_bounds: "ring_ok q \<Longrightarrow> unat (hd_of q) < slots \<and> unat (tl_of q) < slots"
    and store_full: "ring_ok q \<Longrightarrow> item_ok x \<Longrightarrow> (hd_of q + 1) AND ring_mask = tl_of q \<Longrightarrow>
          hd_of (store x q) = hd_of q \<and> tl_of (store x q) = tl_of q \<and> slot (store x q) = slot q"
    and store_room: "ring_ok q \<Longrightarrow> item_ok x \<Longrightarrow> (hd_of q + 1) AND ring_mask \<noteq> tl_of q \<Longrightarrow>
          hd_of (store x q) = (hd_of q + 1) AND ring_mask \<and> tl_of (store x q) = tl_of q \<and>
          slot (store x q) = (slot q)(unat (hd_of q) := x)"
    and store_ok: "ring_ok q \<Longrightarrow> item_ok x \<Longrightarrow> ring_ok (store x q)"
    and step_effect: "hd_of (step_tail q) = hd_of q \<and> tl_of (step_tail q) = (tl_of q + 1) AND ring_mask \<and>
          slot (step_tail q) = slot q"
    and step_ok: "ring_ok q \<Longrightarrow> ring_ok (step_tail q)"
begin

definition pending :: "'q \<Rightarrow> 'a list" where
  "pending q = ring_list slots (slot q) (unat (tl_of q)) (unat (hd_of q))"

lemma next_eq: "((i + 1) AND ring_mask = t) = (Suc (unat i) mod slots = unat t)"
  by (metis mask_next word_unat_eq_iff)

lemma pending_bound: "length (pending q) \<le> slots - 1"
  using ring_count_less [OF slots_pos, of "unat (tl_of q)" "unat (hd_of q)"] by (simp add: pending_def)

lemma pending_Nil: "ring_ok q \<Longrightarrow> pending q = [] \<longleftrightarrow> tl_of q = hd_of q"
  by (metis index_bounds pending_def ring_list_Nil_iff word_unat_eq_iff)

lemma pending_full_iff:
  "ring_ok q \<Longrightarrow> (hd_of q + 1) AND ring_mask = tl_of q \<longleftrightarrow> length (pending q) = slots - 1"
  using index_bounds [of q] ring_full_iff [of "unat (tl_of q)" slots "unat (hd_of q)"]
  by (simp add: next_eq pending_def)

lemma pending_store:
  assumes "ring_ok q" "item_ok x"
  shows "pending (store x q) = (if length (pending q) < slots - 1 then pending q @ [x] else pending q)"
proof (cases "(hd_of q + 1) AND ring_mask = tl_of q")
  case True
  then show ?thesis
    using store_full [OF assms True] pending_full_iff [OF assms(1)] by (simp add: pending_def)
next
  case False
  then have "length (pending q) < slots - 1"
    using pending_full_iff [OF assms(1)] pending_bound [of q] by simp
  then show ?thesis
    using False store_room [OF assms False] index_bounds [OF assms(1)]
      ring_list_put [of "unat (tl_of q)" slots "unat (hd_of q)" "slot q" x]
    by (simp add: pending_def mask_next next_eq)
qed

lemma pending_step:
  assumes "ring_ok q" "pending q \<noteq> []"
  shows "pending q = slot q (unat (tl_of q)) # pending (step_tail q)"
proof -
  have "unat (tl_of q) \<noteq> unat (hd_of q)" using assms pending_Nil by (metis word_unat_eq_iff)
  then show ?thesis
    using ring_list_get [of "unat (tl_of q)" slots "unat (hd_of q)" "slot q"] index_bounds [OF assms(1)]
      step_effect [of q]
    by (simp add: pending_def mask_next)
qed

end

sublocale masked_ring \<subseteq> spsc: spsc_queue "slots - 1" pending ring_ok item_ok store
    "\<lambda>q. slot q (unat (tl_of q))" step_tail
  by unfold_locales
     (rule pending_bound pending_store pending_step store_ok step_ok; assumption)+

end
