(* ===== verification/Keyboard.thy ===== *)
theory Keyboard
  imports Ring_Buffer
begin

text \<open>
  The ring-2 keyboard driver: \<^verbatim>\<open>Drivers/Keyboard/KeyboardShared.h\<close> (the state
  shared with the interrupt handler) and \<^verbatim>\<open>Drivers/Keyboard/KeyboardDriver.c\<close>
  (the set-1 scan-code decoder, the queue consumer and the request service).
\<close>

section \<open>State\<close>

record keyboard_shared =
  lock :: u32
  head :: u32
  tail :: u32
  dropped :: u32
  last_cpl :: u32
  calls :: u32
  observed_dropped :: u32
  extended :: u32
  pause_remaining :: u32
  down_count :: u32
  down :: "u8 list"
  bytes :: "u8 list"

section \<open>Operations\<close>

text \<open>\<^verbatim>\<open>keyboard_decode_byte\<close>: every return of the source is a branch.\<close>

definition keyboard_decode_byte :: "keyboard_shared \<Rightarrow> u8 \<Rightarrow> keyboard_shared" where
  "keyboard_decode_byte s byte =
     (if pause_remaining s \<noteq> 0 then s\<lparr>pause_remaining := pause_remaining s - 1\<rparr>
      else if byte = 0xE1 then s\<lparr>pause_remaining := 5, extended := 0\<rparr>
      else if byte = 0xE0 then s\<lparr>extended := 1\<rparr>
      else
        let base = ucast byte AND 0x7F :: u32;
            pressed = (byte AND 0x80 = 0);
            was_extended = (extended s \<noteq> 0);
            s1 = (if was_extended then s\<lparr>extended := 0\<rparr> else s)
        in if was_extended \<and> (base = 0x2A \<or> base = 0x36) then s1
           else
             let key = (if was_extended then base + 128 else base)
             in if key = 0 \<or> key = 0x7F then s1
                else if pressed \<and> down s1 ! unat key = 0
                then s1\<lparr>down := (down s1)[unat key := 1], down_count := down_count s1 + 1\<rparr>
                else if \<not> pressed \<and> down s1 ! unat key \<noteq> 0
                then s1\<lparr>down := (down s1)[unat key := 0], down_count := down_count s1 - 1\<rparr>
                else s1)"

text \<open>The reset a noticed overflow causes at the start of \<^verbatim>\<open>keyboard_process_queue\<close>.\<close>

definition keyboard_resync :: "keyboard_shared \<Rightarrow> keyboard_shared" where
  "keyboard_resync s =
     (if observed_dropped s \<noteq> dropped s
      then s\<lparr>observed_dropped := dropped s, down := replicate 256 0, down_count := 0,
             extended := 0, pause_remaining := 0, tail := head s\<rparr>
      else s)"

definition keyboard_front :: "keyboard_shared \<Rightarrow> u8" where
  "keyboard_front s = bytes s ! unat (tail s)"

definition keyboard_advance :: "keyboard_shared \<Rightarrow> keyboard_shared" where
  "keyboard_advance s = s\<lparr>tail := (tail s + 1) AND 255\<rparr>"

fun keyboard_drain :: "nat \<Rightarrow> keyboard_shared \<Rightarrow> keyboard_shared" where
  "keyboard_drain 0 s = s"
| "keyboard_drain (Suc remaining) s =
     (if tail s \<noteq> head s
      then keyboard_drain remaining
             (keyboard_decode_byte (keyboard_advance s) (keyboard_front s))
      else s)"

definition keyboard_process_queue :: "keyboard_shared \<Rightarrow> keyboard_shared" where
  "keyboard_process_queue s = keyboard_drain 256 (keyboard_resync s)"

abbreviation (input) KEYBOARD_QUERY_KEY :: u32 where "KEYBOARD_QUERY_KEY \<equiv> 0"
abbreviation (input) KEYBOARD_QUERY_ANY :: u32 where "KEYBOARD_QUERY_ANY \<equiv> 1"
abbreviation (input) KEYBOARD_PROCESS_INPUT :: u32 where "KEYBOARD_PROCESS_INPUT \<equiv> 2"

text \<open>
  \<^verbatim>\<open>keyboard_driver_service\<close>. The \<^verbatim>\<open>xchg\<close> spins while another caller holds the
  lock: with the lock taken the call does not return, \<open>None\<close> here; it returns once the
  owner has stored zero.
\<close>

definition keyboard_driver_service ::
  "u16 \<Rightarrow> u32 \<Rightarrow> u32 \<Rightarrow> keyboard_shared \<Rightarrow> (u32 \<times> keyboard_shared) option" where
  "keyboard_driver_service cs operation key s =
     (if lock s \<noteq> 0 then None
      else
        let s1 = s\<lparr>lock := 1\<rparr>;
            s2 = s1\<lparr>last_cpl := ucast cs AND 3, calls := calls s1 + 1\<rparr>;
            s3 = keyboard_process_queue s2;
            result = (if operation = KEYBOARD_QUERY_KEY \<and> key < 256 then ucast (down s3 ! unat key)
                      else if operation = KEYBOARD_QUERY_ANY then c_bool (down_count s3 \<noteq> 0)
                      else if operation = KEYBOARD_PROCESS_INPUT then 0
                      else 0xFFFFFFFF)
        in Some (result, s3\<lparr>lock := 0\<rparr>))"

text \<open>
  The producer's half, the end of \<^verbatim>\<open>ps2_keyboard_interrupt\<close> in
  \<^verbatim>\<open>Drivers/Keyboard/Ps2Keyboard.c\<close>: a full queue counts a loss instead.
\<close>

definition keyboard_enqueue :: "u8 \<Rightarrow> keyboard_shared \<Rightarrow> keyboard_shared" where
  "keyboard_enqueue scancode s =
     (let next_head = (head s + 1) AND 255
      in if next_head = tail s then s\<lparr>dropped := dropped s + 1\<rparr>
         else s\<lparr>bytes := (bytes s)[unat (head s) := scancode], head := next_head\<rparr>)"

section \<open>Invariant\<close>

definition queue_ok :: "keyboard_shared \<Rightarrow> bool" where
  "queue_ok s \<longleftrightarrow> head s < 256 \<and> tail s < 256 \<and> length (bytes s) = 256"

definition keys_ok :: "keyboard_shared \<Rightarrow> bool" where
  "keys_ok s \<longleftrightarrow> length (down s) = 256 \<and> set (down s) \<subseteq> {0, 1} \<and>
     unat (down_count s) = length (filter (\<lambda>b. b \<noteq> 0) (down s)) \<and> pause_remaining s \<le> 5"

definition keyboard_ok :: "keyboard_shared \<Rightarrow> bool" where
  "keyboard_ok s \<longleftrightarrow> queue_ok s \<and> keys_ok s"

definition keyboard_pending :: "keyboard_shared \<Rightarrow> u8 list" where
  "keyboard_pending s = ring_list 256 ((!) (bytes s)) (unat (tail s)) (unat (head s))"

section \<open>The queue\<close>

lemma queue_ok_unat: "queue_ok s \<Longrightarrow> unat (head s) < 256 \<and> unat (tail s) < 256"
  by (simp add: queue_ok_def word_less_nat_alt)

lemma ring_eq_unat: "((h + 1) AND 255 = (t :: u32)) = (Suc (unat h) mod 256 = unat t)"
  by (metis unat_ring_next(1) word_unat_eq_iff)

lemma pending_length: "queue_ok s \<Longrightarrow> length (keyboard_pending s) \<le> 255"
  using ring_count_less [of 256 "unat (tail s)" "unat (head s)"]
  by (simp add: keyboard_pending_def)

lemma pending_empty: "queue_ok s \<Longrightarrow> keyboard_pending s = [] \<longleftrightarrow> tail s = head s"
  by (metis keyboard_pending_def queue_ok_unat ring_list_Nil_iff word_unat_eq_iff)

lemma pending_enqueue:
  assumes "queue_ok s"
  shows "keyboard_pending (keyboard_enqueue b s) =
    (if length (keyboard_pending s) < 255 then keyboard_pending s @ [b] else keyboard_pending s)"
proof (cases "Suc (unat (head s)) mod 256 = unat (tail s)")
  case True
  then have "length (keyboard_pending s) = 255"
    using queue_ok_unat [OF assms] ring_full_iff [of "unat (tail s)" 256 "unat (head s)"]
    by (simp add: keyboard_pending_def)
  then show ?thesis
    using True by (simp add: keyboard_enqueue_def Let_def ring_eq_unat) (simp add: keyboard_pending_def)
next
  case False
  let ?t = "unat (tail s)" and ?h = "unat (head s)"
  have b: "?h < 256" "?t < 256" "?h < length (bytes s)"
    using queue_ok_unat [OF assms] assms by (auto simp: queue_ok_def)
  have "length (keyboard_pending s) \<noteq> 255"
    using False b ring_full_iff [of ?t 256 ?h] by (simp add: keyboard_pending_def)
  then have "length (keyboard_pending s) < 255"
    using pending_length [OF assms] by simp
  moreover have "(!) ((bytes s)[?h := b]) = ((!) (bytes s))(?h := b)"
    using b by (auto simp: fun_eq_iff nth_list_update)
  ultimately show ?thesis
    using False b ring_list_put [of ?t 256 ?h "(!) (bytes s)" b]
    by (simp add: keyboard_enqueue_def keyboard_pending_def Let_def ring_eq_unat unat_ring_next)
qed

lemma pending_advance:
  assumes "queue_ok s" "keyboard_pending s \<noteq> []"
  shows "keyboard_pending s = keyboard_front s # keyboard_pending (keyboard_advance s)"
proof -
  have "unat (tail s) \<noteq> unat (head s)"
    using assms pending_empty by (metis word_unat_eq_iff)
  then show ?thesis
    using ring_list_get [of "unat (tail s)" 256 "unat (head s)"] queue_ok_unat [OF assms(1)]
    by (simp add: keyboard_pending_def keyboard_front_def keyboard_advance_def unat_ring_next)
qed

lemma queue_ok_enqueue: "queue_ok s \<Longrightarrow> queue_ok (keyboard_enqueue b s)"
  by (simp add: queue_ok_def keyboard_enqueue_def Let_def and_numeral_less)

lemma queue_ok_advance: "queue_ok s \<Longrightarrow> queue_ok (keyboard_advance s)"
  by (simp add: queue_ok_def keyboard_advance_def and_numeral_less)

interpretation scan_queue: spsc_queue 255 keyboard_pending queue_ok "\<lambda>_. True"
  keyboard_enqueue keyboard_front keyboard_advance
  by unfold_locales
     (rule pending_length pending_enqueue pending_advance queue_ok_enqueue queue_ok_advance; assumption)+

section \<open>The decoder\<close>

lemma decode_frame:
  "head (keyboard_decode_byte s b) = head s" "tail (keyboard_decode_byte s b) = tail s"
  "bytes (keyboard_decode_byte s b) = bytes s" "dropped (keyboard_decode_byte s b) = dropped s"
  "observed_dropped (keyboard_decode_byte s b) = observed_dropped s"
  "lock (keyboard_decode_byte s b) = lock s" "last_cpl (keyboard_decode_byte s b) = last_cpl s"
  "calls (keyboard_decode_byte s b) = calls s"
  by (simp_all add: keyboard_decode_byte_def Let_def)

lemma decode_tail_update:
  "keyboard_decode_byte (s\<lparr>tail := t\<rparr>) b = (keyboard_decode_byte s b)\<lparr>tail := t\<rparr>"
  by (simp add: keyboard_decode_byte_def Let_def)

lemma extended_key_less:
  fixes byte :: u8
  shows "unat ((ucast byte AND 0x7F :: u32) + 128) < 256"
    and "unat (ucast byte AND 0x7F :: u32) < 128"
  by (simp_all add: unat_word_ariths unat_and_numeral_mask)

lemma keys_ok_press:
  assumes "keys_ok s" "k < 256" "down s ! k = 0"
  shows "keys_ok (s\<lparr>down := (down s)[k := 1], down_count := down_count s + 1\<rparr>)"
proof -
  have len: "k < length (down s)" using assms by (simp add: keys_ok_def)
  have upd: "length (filter (\<lambda>b. b \<noteq> 0) ((down s)[k := 1])) = Suc (unat (down_count s))"
    using length_filter_update [OF len, of "\<lambda>b. b \<noteq> 0" 1] assms by (simp add: keys_ok_def)
  have "length (filter (\<lambda>b. b \<noteq> 0) ((down s)[k := 1])) \<le> 256"
    using assms(1) length_filter_le [of _ "(down s)[k := 1]"] by (simp add: keys_ok_def)
  then have "unat (down_count s + 1) = Suc (unat (down_count s))"
    using upd by (simp add: unat_word_ariths)
  then show ?thesis
    using assms(1) upd set_update_subset_insert [of "down s" k 1] by (auto simp: keys_ok_def)
qed

lemma keys_ok_release:
  assumes "keys_ok s" "k < 256" "down s ! k \<noteq> 0"
  shows "keys_ok (s\<lparr>down := (down s)[k := 0], down_count := down_count s - 1\<rparr>)"
proof -
  have len: "k < length (down s)" using assms by (simp add: keys_ok_def)
  have upd: "Suc (length (filter (\<lambda>b. b \<noteq> 0) ((down s)[k := 0]))) = unat (down_count s)"
    using length_filter_update [OF len, of "\<lambda>b. b \<noteq> 0" 0] assms by (simp add: keys_ok_def)
  then have "down_count s \<noteq> 0" by auto
  then have "unat (down_count s - 1) = length (filter (\<lambda>b. b \<noteq> 0) ((down s)[k := 0]))"
    using upd by (simp add: unat_minus_one)
  then show ?thesis
    using assms(1) set_update_subset_insert [of "down s" k 0] by (auto simp: keys_ok_def)
qed

lemma keys_ok_simps [simp]:
  "keys_ok (s\<lparr>extended := x\<rparr>) = keys_ok s" "keys_ok (s\<lparr>tail := t\<rparr>) = keys_ok s"
  "keys_ok (s\<lparr>lock := l\<rparr>) = keys_ok s" "keys_ok (s\<lparr>last_cpl := c, calls := n\<rparr>) = keys_ok s"
  "keys_ok (s\<lparr>dropped := d\<rparr>) = keys_ok s"
  "keys_ok (s\<lparr>bytes := bs, head := h\<rparr>) = keys_ok s"
  by (simp_all add: keys_ok_def)

lemma keys_ok_decode:
  assumes "keys_ok s"
  shows "keys_ok (keyboard_decode_byte s b)"
proof -
  have p: "keys_ok (s\<lparr>pause_remaining := pause_remaining s - 1\<rparr>)" if "pause_remaining s \<noteq> 0"
    using assms that by (simp add: keys_ok_def) unat_arith
  have q: "keys_ok (s\<lparr>pause_remaining := 5, extended := 0\<rparr>)"
    using assms by (simp add: keys_ok_def)
  have r: "keys_ok (s\<lparr>extended := x\<rparr>)" for x using assms by simp
  have small: "unat (ucast b AND 0x7F :: u32) < 256"
    using extended_key_less(2) [of b] by simp
  show ?thesis
    unfolding keyboard_decode_byte_def Let_def
    using p q r assms extended_key_less(1) [of b] small
      keys_ok_press [OF assms] keys_ok_release [OF assms]
      keys_ok_press [OF r [of 0]] keys_ok_release [OF r [of 0]]
    by (auto simp del: keys_ok_simps split: if_splits)
qed

lemma queue_ok_decode: "queue_ok (keyboard_decode_byte s b) = queue_ok s"
  by (simp add: queue_ok_def decode_frame)

lemma pending_decode: "keyboard_pending (keyboard_decode_byte s b) = keyboard_pending s"
  by (simp add: keyboard_pending_def decode_frame)

section \<open>Draining the queue\<close>

definition decode_all :: "u8 list \<Rightarrow> keyboard_shared \<Rightarrow> keyboard_shared" where
  "decode_all bs s = fold (\<lambda>b s. keyboard_decode_byte s b) bs s"

lemma decode_all_simps [simp]:
  "decode_all [] s = s" "decode_all (b # bs) s = decode_all bs (keyboard_decode_byte s b)"
  "decode_all (bs @ cs) s = decode_all cs (decode_all bs s)"
  by (simp_all add: decode_all_def)

lemma decode_all_tail: "decode_all bs (s\<lparr>tail := t\<rparr>) = (decode_all bs s)\<lparr>tail := t\<rparr>"
  by (induction bs arbitrary: s) (simp_all add: decode_tail_update)

lemma decode_all_frame:
  "head (decode_all bs s) = head s" "tail (decode_all bs s) = tail s"
  "bytes (decode_all bs s) = bytes s" "dropped (decode_all bs s) = dropped s"
  "observed_dropped (decode_all bs s) = observed_dropped s" "lock (decode_all bs s) = lock s"
  by (induction bs arbitrary: s) (simp_all add: decode_frame)

lemma keys_ok_decode_all: "keys_ok s \<Longrightarrow> keys_ok (decode_all bs s)"
  by (induction bs arbitrary: s) (simp_all add: keys_ok_decode)

text \<open>The bounded loop decodes exactly the pending bytes, oldest first.\<close>

lemma drain_eq_decode_all:
  assumes "queue_ok s" "length (keyboard_pending s) \<le> n"
  shows "keyboard_drain n s = (decode_all (keyboard_pending s) s)\<lparr>tail := head s\<rparr>"
  using assms
proof (induction n arbitrary: s)
  case 0
  then have "tail s = head s" "keyboard_pending s = []" using pending_empty by auto
  then show ?case by simp
next
  case (Suc n)
  show ?case
  proof (cases "tail s = head s")
    case True
    then have "keyboard_pending s = []" using Suc.prems pending_empty by simp
    then show ?thesis using True by simp
  next
    case False
    let ?a = "keyboard_advance s" and ?b = "keyboard_front s"
    let ?s = "keyboard_decode_byte ?a ?b"
    have ne: "keyboard_pending s \<noteq> []" using False Suc.prems pending_empty by blast
    have ps: "keyboard_pending s = ?b # keyboard_pending ?a"
      by (rule pending_advance [OF Suc.prems(1) ne])
    have pn: "keyboard_pending ?s = keyboard_pending ?a" by (simp add: pending_decode)
    have "keyboard_drain n ?s = (decode_all (keyboard_pending ?a) ?s)\<lparr>tail := head ?s\<rparr>"
    proof (subst Suc.IH)
      show "queue_ok ?s" using Suc.prems(1) by (simp add: queue_ok_decode queue_ok_advance)
      show "length (keyboard_pending ?s) \<le> n" using Suc.prems(2) ps pn by simp
    qed (simp add: pn)
    also have "\<dots> = (decode_all (keyboard_pending s) s)\<lparr>tail := head s\<rparr>"
      by (simp add: ps keyboard_advance_def decode_tail_update decode_all_tail decode_frame)
    finally show ?thesis using False by simp
  qed
qed

lemma resync_ok: "keyboard_ok s \<Longrightarrow> keyboard_ok (keyboard_resync s)"
  by (auto simp: keyboard_ok_def queue_ok_def keys_ok_def keyboard_resync_def)

lemma process_queue_eq:
  assumes "queue_ok s"
  shows "keyboard_process_queue s =
    (let r = keyboard_resync s in (decode_all (keyboard_pending r) r)\<lparr>tail := head r\<rparr>)"
proof -
  have "queue_ok (keyboard_resync s)" using assms by (simp add: queue_ok_def keyboard_resync_def)
  then show ?thesis
    using drain_eq_decode_all [of "keyboard_resync s" 256] pending_length
    by (fastforce simp: keyboard_process_queue_def Let_def)
qed

lemma process_queue_ok:
  assumes "keyboard_ok s"
  shows "keyboard_ok (keyboard_process_queue s)"
    and "keyboard_pending (keyboard_process_queue s) = []"
proof -
  have r: "keyboard_ok (keyboard_resync s)" using assms by (rule resync_ok)
  let ?p = "keyboard_process_queue s"
  have eq: "?p = (decode_all (keyboard_pending (keyboard_resync s)) (keyboard_resync s))
      \<lparr>tail := head (keyboard_resync s)\<rparr>"
    using process_queue_eq assms by (simp add: keyboard_ok_def Let_def)
  show ok: "keyboard_ok ?p"
    using r unfolding eq keyboard_ok_def
    by (simp add: keys_ok_decode_all queue_ok_def decode_all_frame)
  show "keyboard_pending ?p = []"
    by (simp add: eq keyboard_pending_def decode_all_frame)
qed

section \<open>Set-1 key events\<close>

text \<open>
  What a set-1 keyboard sends for one physical event. The break code of a key sets bit 7 of
  its make code, extended keys carry the prefix E0, Print Screen brackets its code with fake
  extended shifts, and Pause is six bytes with no release. Base codes 60h and 61h cannot
  occur: their break codes would be the prefixes E0 and E1.
\<close>

datatype key_event = Plain bool u8 | Ext bool u8 | Fake_shift bool bool | Pause

definition break_bit :: "bool \<Rightarrow> u8 \<Rightarrow> u8" where
  "break_bit pressed c = (if pressed then c else c OR 0x80)"

fun key_bytes :: "key_event \<Rightarrow> u8 list" where
  "key_bytes (Plain pressed c) = [break_bit pressed c]"
| "key_bytes (Ext pressed c) = [0xE0, break_bit pressed c]"
| "key_bytes (Fake_shift pressed right) = [0xE0, break_bit pressed (if right then 0x36 else 0x2A)]"
| "key_bytes Pause = [0xE1, 0x1D, 0x45, 0xE1, 0x9D, 0xC5]"

fun key_event_ok :: "key_event \<Rightarrow> bool" where
  "key_event_ok (Plain pressed c) = (0 < c \<and> c < 0x7F \<and> c \<noteq> 0x60 \<and> c \<noteq> 0x61)"
| "key_event_ok (Ext pressed c) = (c < 0x80 \<and> c \<noteq> 0x2A \<and> c \<noteq> 0x36 \<and> c \<noteq> 0x60 \<and> c \<noteq> 0x61)"
| "key_event_ok (Fake_shift pressed right) = True"
| "key_event_ok Pause = True"

text \<open>The effect of an event on the set of held keys; Pause leaves no key held.\<close>

fun key_effect :: "key_event \<Rightarrow> nat set \<Rightarrow> nat set" where
  "key_effect (Plain pressed c) K = (if pressed then insert (unat c) K else K - {unat c})"
| "key_effect (Ext pressed c) K = (if pressed then insert (unat c + 128) K else K - {unat c + 128})"
| "key_effect (Fake_shift pressed right) K = K"
| "key_effect Pause K = K"

definition keys_down :: "keyboard_shared \<Rightarrow> nat set" where
  "keys_down s = {k. k < 256 \<and> down s ! k \<noteq> 0}"

definition between_keys :: "keyboard_shared \<Rightarrow> bool" where
  "between_keys s \<longleftrightarrow> extended s = 0 \<and> pause_remaining s = 0"

lemma bit_low7: "(c :: u8) < 0x80 \<Longrightarrow> bit c n \<Longrightarrow> n < 7"
proof -
  assume c: "c < 0x80" and b: "bit c n"
  have "take_bit 7 c = c"
    using c by (simp add: take_bit_eq_mod word_unat_eq_iff unat_mod word_less_nat_alt)
  then show "n < 7" using b by (metis bit_take_bit_iff)
qed

lemma break_bit_key:
  assumes "c < 0x80"
  shows "(ucast (break_bit p c) AND 0x7F :: u32) = ucast c"
  unfolding break_bit_def numeral_masks
proof (rule bit_word_eqI)
  fix n
  have m: "(0x80 :: u8) = push_bit 7 1" by simp
  show "bit (ucast (if p then c else c OR 0x80) AND mask 7 :: u32) n = bit (ucast c :: u32) n"
    using bit_low7 [OF assms, of n]
    by (auto simp: m bit_simps simp del: push_bit_of_1 push_bit_numeral)
qed

lemma break_bit_pressed:
  assumes "c < 0x80"
  shows "(break_bit p c AND 0x80 = 0) = p"
proof -
  have m: "(0x80 :: u8) = push_bit 7 1" by simp
  have "\<not> bit c n" if "7 \<le> n" for n using bit_low7 [OF assms, of n] that by auto
  then have "c AND 0x80 = 0"
    unfolding m by (intro bit_word_eqI) (auto simp: bit_simps simp del: push_bit_of_1)
  then show ?thesis by (auto simp: break_bit_def)
qed

lemma break_bit_not_prefix:
  assumes "c < 0x80" "c \<noteq> 0x60" "c \<noteq> 0x61"
  shows "break_bit p c \<noteq> 0xE0" "break_bit p c \<noteq> 0xE1"
proof -
  have "(ucast (0xE0 :: u8) AND 0x7F :: u32) = 0x60" "(ucast (0xE1 :: u8) AND 0x7F :: u32) = 0x61"
    by simp_all
  moreover have "ucast c \<noteq> (0x60 :: u32)" "ucast c \<noteq> (0x61 :: u32)"
    using assms by (auto simp: word_unat_eq_iff)
  ultimately show "break_bit p c \<noteq> 0xE0" "break_bit p c \<noteq> 0xE1"
    using break_bit_key [OF assms(1), of p] by force+
qed

text \<open>One byte that completes a key, in the plain and in the extended state.\<close>

lemma keys_down_update:
  assumes "length (down s) = 256" "k < 256" "down t = (down s)[k := v]"
  shows "keys_down t = (if v \<noteq> 0 then insert k (keys_down s) else keys_down s - {k})"
  using assms by (auto simp: keys_down_def nth_list_update)

lemma key_number:
  assumes "c < (0x80 :: u8)"
  shows "unat (ucast c + 128 :: u32) = unat c + 128" "unat c < 128"
  using assms by (simp_all add: unat_word_ariths word_less_nat_alt)

lemma decode_plain:
  assumes "keys_ok s" "between_keys s" "key_event_ok (Plain p c)"
  shows "keys_down (keyboard_decode_byte s (break_bit p c)) = key_effect (Plain p c) (keys_down s)"
    and "between_keys (keyboard_decode_byte s (break_bit p c))"
proof -
  have c: "c < 0x80" using assms(3) by (auto simp: word_less_nat_alt)
  have nz: "(ucast c :: u32) \<noteq> 0" "(ucast c :: u32) \<noteq> 0x7F"
    using assms(3) by (auto simp: word_unat_eq_iff word_less_nat_alt)
  have k: "unat c < 256" "length (down s) = 256"
    using key_number(2) [OF c] assms(1) by (simp_all add: keys_ok_def)
  have d: "keyboard_decode_byte s (break_bit p c) =
      (if p \<and> down s ! unat c = 0 then s\<lparr>down := (down s)[unat c := 1], down_count := down_count s + 1\<rparr>
       else if \<not> p \<and> down s ! unat c \<noteq> 0
       then s\<lparr>down := (down s)[unat c := 0], down_count := down_count s - 1\<rparr> else s)"
    using assms nz break_bit_not_prefix [OF c, of p]
    by (simp add: keyboard_decode_byte_def between_keys_def Let_def break_bit_key [OF c]
        break_bit_pressed [OF c])
  show "between_keys (keyboard_decode_byte s (break_bit p c))"
    using assms(2) by (simp add: d between_keys_def)
  show "keys_down (keyboard_decode_byte s (break_bit p c)) = key_effect (Plain p c) (keys_down s)"
    using k keys_down_update [OF k(2,1)] by (auto simp: d) (auto simp: keys_down_def)
qed

lemma decode_extended:
  assumes "keys_ok s" "between_keys s" "c < 0x80" "c \<noteq> 0x60" "c \<noteq> 0x61"
  shows "keys_down (decode_all [0xE0, break_bit p c] s) =
           (if c = 0x2A \<or> c = 0x36 then keys_down s else key_effect (Ext p c) (keys_down s))"
    and "between_keys (decode_all [0xE0, break_bit p c] s)"
proof -
  let ?k = "unat c + 128" and ?s = "s\<lparr>extended := 0\<rparr>"
  have k: "?k < 256" "length (down ?s) = 256"
    using key_number(2) [OF assms(3)] assms(1) by (simp_all add: keys_ok_def)
  have n: "unat (ucast c + 128 :: u32) = ?k" by (rule key_number(1) [OF assms(3)])
  have nz: "(ucast c + 128 :: u32) \<noteq> 0" "(ucast c + 128 :: u32) \<noteq> 0x7F"
    using n by (auto simp: word_unat_eq_iff)
  have sh: "(ucast c = (0x2A :: u32)) = (c = 0x2A)" "(ucast c = (0x36 :: u32)) = (c = 0x36)"
    by (auto simp: word_unat_eq_iff)
  have d: "decode_all [0xE0, break_bit p c] s =
      (if c = 0x2A \<or> c = 0x36 then ?s
       else if p \<and> down s ! ?k = 0 then ?s\<lparr>down := (down s)[?k := 1], down_count := down_count s + 1\<rparr>
       else if \<not> p \<and> down s ! ?k \<noteq> 0
       then ?s\<lparr>down := (down s)[?k := 0], down_count := down_count s - 1\<rparr> else ?s)"
    using assms(2) nz break_bit_not_prefix [OF assms(3-5), of p]
    by (simp add: keyboard_decode_byte_def between_keys_def Let_def break_bit_key [OF assms(3)]
        break_bit_pressed [OF assms(3)] n sh)
  show "between_keys (decode_all [0xE0, break_bit p c] s)"
    using assms(2) unfolding d by (simp add: between_keys_def)
  have same: "keys_down ?s = keys_down s" by (simp add: keys_down_def)
  show "keys_down (decode_all [0xE0, break_bit p c] s) =
      (if c = 0x2A \<or> c = 0x36 then keys_down s else key_effect (Ext p c) (keys_down s))"
    unfolding d using k keys_down_update [OF k(2,1)] same
    by auto (auto simp: keys_down_def)
qed

lemma decode_pause:
  assumes "between_keys s"
  shows "keys_down (decode_all (key_bytes Pause) s) = keys_down s"
    and "between_keys (decode_all (key_bytes Pause) s)"
  using assms by (simp_all add: keyboard_decode_byte_def between_keys_def keys_down_def)

lemma decode_key_event:
  assumes "keys_ok s" "between_keys s" "key_event_ok ev"
  shows "keys_down (decode_all (key_bytes ev) s) = key_effect ev (keys_down s)"
    and "between_keys (decode_all (key_bytes ev) s)"
  using assms decode_pause decode_plain [OF assms(1,2)] decode_extended [OF assms(1,2)]
  by (cases ev; simp)+

lemma decode_key_events:
  assumes "keys_ok s" "between_keys s" "list_all key_event_ok evs"
  shows "keys_down (decode_all (concat (map key_bytes evs)) s) = fold key_effect evs (keys_down s)"
    and "between_keys (decode_all (concat (map key_bytes evs)) s)"
  using assms
proof (induction evs arbitrary: s)
  case (Cons ev evs)
  {
    case 1
    then show ?case using Cons.IH(1) decode_key_event keys_ok_decode_all by simp
  next
    case 2
    then show ?case using Cons.IH(2) decode_key_event keys_ok_decode_all by simp
  }
qed simp_all

section \<open>The driver's answers\<close>

text \<open>A state with nothing held and nothing queued, as \<^verbatim>\<open>keyboard_driver_initialize\<close> leaves it.\<close>

definition keyboard_fresh :: keyboard_shared where
  "keyboard_fresh = \<lparr>lock = 0, head = 0, tail = 0, dropped = 0, last_cpl = 0, calls = 0,
     observed_dropped = 0, extended = 0, pause_remaining = 0, down_count = 0,
     down = replicate 256 0, bytes = replicate 256 0\<rparr>"

lemma keyboard_fresh_ok:
  "keyboard_ok keyboard_fresh" "keyboard_pending keyboard_fresh = []" "between_keys keyboard_fresh"
  "keys_down keyboard_fresh = {}"
  by (simp_all add: keyboard_fresh_def keyboard_ok_def queue_ok_def keys_ok_def between_keys_def
      keys_down_def pending_empty set_replicate_conv_if)

lemma down_as_bool:
  assumes "keys_ok s" "k < 256"
  shows "ucast (down s ! k) = c_bool (k \<in> keys_down s)"
proof -
  have "down s ! k \<in> {0, 1}" using assms nth_mem [of k "down s"] unfolding keys_ok_def by fastforce
  then show ?thesis using assms(2) by (auto simp: keys_down_def)
qed

lemma down_count_as_bool:
  assumes "keys_ok s"
  shows "down_count s \<noteq> 0 \<longleftrightarrow> keys_down s \<noteq> {}"
proof -
  have "down_count s = 0 \<longleftrightarrow> unat (down_count s) = 0" by (rule unat_eq_zero [symmetric])
  also have "\<dots> \<longleftrightarrow> (\<forall>b \<in> set (down s). b = 0)"
    using assms by (simp add: keys_ok_def filter_empty_conv del: unat_eq_zero)
  also have "\<dots> \<longleftrightarrow> keys_down s = {}"
    using assms by (auto simp: keys_ok_def keys_down_def all_set_conv_all_nth)
  finally show ?thesis by blast
qed

text \<open>The state a call works on once it owns the lock.\<close>

definition service_entry :: "u16 \<Rightarrow> keyboard_shared \<Rightarrow> keyboard_shared" where
  "service_entry cs s = s\<lparr>lock := 1, last_cpl := ucast cs AND 3, calls := calls s + 1\<rparr>"

lemma service_eq:
  assumes "lock s = 0"
  shows "keyboard_driver_service cs op key s =
    (let s3 = keyboard_process_queue (service_entry cs s)
     in Some (if op = 0 \<and> key < 256 then ucast (down s3 ! unat key)
              else if op = 1 then c_bool (down_count s3 \<noteq> 0)
              else if op = 2 then 0 else 0xFFFFFFFF, s3\<lparr>lock := 0\<rparr>))"
  using assms by (simp add: keyboard_driver_service_def service_entry_def Let_def)

lemma service_entry_frame:
  "keyboard_ok (service_entry cs s) = keyboard_ok s"
  "keyboard_pending (service_entry cs s) = keyboard_pending s"
  "keys_down (service_entry cs s) = keys_down s" "between_keys (service_entry cs s) = between_keys s"
  by (simp_all add: service_entry_def keyboard_ok_def queue_ok_def keys_ok_def keyboard_pending_def
      keys_down_def between_keys_def)

lemma lock_update_frame:
  "keyboard_ok (s\<lparr>lock := x\<rparr>) = keyboard_ok s" "keyboard_pending (s\<lparr>lock := x\<rparr>) = keyboard_pending s"
  "keys_down (s\<lparr>lock := x\<rparr>) = keys_down s" "between_keys (s\<lparr>lock := x\<rparr>) = between_keys s"
  by (simp_all add: keyboard_ok_def queue_ok_def keys_ok_def keyboard_pending_def keys_down_def
      between_keys_def)

lemma pending_enqueue_list:
  assumes "keyboard_ok s" "length (keyboard_pending s) + length bs \<le> 255"
  shows "keyboard_ok (fold keyboard_enqueue bs s)
    \<and> keyboard_pending (fold keyboard_enqueue bs s) = keyboard_pending s @ bs
    \<and> down (fold keyboard_enqueue bs s) = down s \<and> lock (fold keyboard_enqueue bs s) = lock s
    \<and> dropped (fold keyboard_enqueue bs s) = dropped s
    \<and> observed_dropped (fold keyboard_enqueue bs s) = observed_dropped s
    \<and> extended (fold keyboard_enqueue bs s) = extended s
    \<and> pause_remaining (fold keyboard_enqueue bs s) = pause_remaining s"
  using assms
proof (induction bs arbitrary: s)
  case (Cons b bs)
  let ?s = "keyboard_enqueue b s"
  have q: "queue_ok s" using Cons.prems by (simp add: keyboard_ok_def)
  have room: "length (keyboard_pending s) < 255" using Cons.prems by simp
  have nf: "(head s + 1) AND 255 \<noteq> tail s"
    using room queue_ok_unat [OF q] ring_full_iff [of "unat (tail s)" 256 "unat (head s)"]
    by (auto simp: ring_eq_unat keyboard_pending_def)
  have ok: "keyboard_ok ?s"
    using Cons.prems queue_ok_enqueue [OF q, of b]
    by (simp add: keyboard_ok_def keyboard_enqueue_def Let_def)
  have p: "keyboard_pending ?s = keyboard_pending s @ [b]"
    using pending_enqueue [OF q, of b] room by simp
  show ?case
    using Cons.IH [OF ok] Cons.prems p nf by (simp add: keyboard_enqueue_def Let_def)
qed simp

lemma process_queue_no_loss:
  assumes "keyboard_ok s" "observed_dropped s = dropped s"
  shows "keyboard_process_queue s = (decode_all (keyboard_pending s) s)\<lparr>tail := head s\<rparr>"
  using assms by (simp add: process_queue_eq keyboard_ok_def keyboard_resync_def Let_def)

section \<open>Properties\<close>

text \<open>What a service call makes of the bytes of a sequence of key events.\<close>

lemma key_events_decoded:
  assumes "keyboard_ok s" "lock s = 0" "between_keys s" "keyboard_pending s = []"
    and "observed_dropped s = dropped s" "list_all key_event_ok evs"
    and "length (concat (map key_bytes evs)) \<le> 255" "key < 256"
  shows "\<exists>s'. keyboard_driver_service cs 0 key (fold keyboard_enqueue (concat (map key_bytes evs)) s)
      = Some (c_bool (unat key \<in> fold key_effect evs (keys_down s)), s')
    \<and> keys_down s' = fold key_effect evs (keys_down s) \<and> keyboard_pending s' = [] \<and> keyboard_ok s'"
proof -
  let ?bs = "concat (map key_bytes evs)"
  let ?q = "fold keyboard_enqueue ?bs s"
  let ?e = "service_entry cs ?q"
  let ?r = "keyboard_process_queue ?e"
  have q: "keyboard_ok ?q" "keyboard_pending ?q = ?bs" "lock ?q = 0" "down ?q = down s"
    "observed_dropped ?q = dropped ?q" "between_keys ?q"
    using pending_enqueue_list [OF assms(1), of ?bs] assms by (simp_all add: between_keys_def)
  have e: "keyboard_ok ?e" "keyboard_pending ?e = ?bs" "between_keys ?e" "keys_down ?e = keys_down s"
    using q by (simp_all add: service_entry_frame) (simp add: keys_down_def)
  have seen: "observed_dropped ?e = dropped ?e" using q(5) by (simp add: service_entry_def)
  have r: "?r = (decode_all ?bs ?e)\<lparr>tail := head ?e\<rparr>"
    using process_queue_no_loss [OF e(1) seen] e(2) by simp
  have keys: "keys_down ?r = fold key_effect evs (keys_down s)"
    using decode_key_events(1) [of ?e evs] e assms(6) by (simp add: r keys_down_def keyboard_ok_def)
  have "keys_ok ?r" using process_queue_ok(1) [OF e(1)] by (simp add: keyboard_ok_def)
  then have "ucast (down ?r ! unat key) = c_bool (unat key \<in> keys_down ?r)"
    by (rule down_as_bool) (use assms(8) in \<open>simp add: word_less_nat_alt\<close>)
  then show ?thesis
    using process_queue_ok [OF e(1)] keys assms(8)
    by (simp add: service_eq [OF q(3)] lock_update_frame)
qed

text \<open>
  C3: every call to the driver. With the lock free, \<^verbatim>\<open>keyboard_driver_service\<close> returns,
  keeps the invariant of the shared page (indices in range, the count equal to the number of
  held keys), empties the queue, releases the lock, and answers: whether a key is held,
  whether any key is held, 0 for the input request, all ones for anything else.
\<close>

theorem keyboard_service_answers:
  assumes "keyboard_ok s" "lock s = 0"
  shows "\<exists>result s'. keyboard_driver_service cs op key s = Some (result, s') \<and>
    keyboard_ok s' \<and> lock s' = 0 \<and> keyboard_pending s' = [] \<and>
    result = (if op = 0 \<and> key < 256 then c_bool (unat key \<in> keys_down s')
              else if op = 1 then c_bool (keys_down s' \<noteq> {})
              else if op = 2 then 0 else 0xFFFFFFFF)"
proof -
  let ?r = "keyboard_process_queue (service_entry cs s)"
  have r: "keyboard_ok ?r" "keyboard_pending ?r = []"
    using process_queue_ok [of "service_entry cs s"] assms(1) by (simp_all add: service_entry_frame)
  then have k: "keys_ok ?r" by (simp add: keyboard_ok_def)
  have "ucast (down ?r ! unat key) = c_bool (unat key \<in> keys_down ?r)" if "key < 256"
    by (rule down_as_bool [OF k]) (use that in \<open>simp add: word_less_nat_alt\<close>)
  then show ?thesis
    using r down_count_as_bool [OF k] by (auto simp: service_eq [OF assms(2)] Let_def lock_update_frame)
qed

theorem keyboard_service_answers_witness:
  "\<exists>result s'. keyboard_driver_service 0x1A 1 0 keyboard_fresh = Some (result, s') \<and>
    keyboard_ok s' \<and> lock s' = 0 \<and> keyboard_pending s' = [] \<and>
    result = (if (1 :: u32) = 0 \<and> (0 :: u32) < 256 then c_bool (unat (0 :: u32) \<in> keys_down s')
              else if (1 :: u32) = 1 then c_bool (keys_down s' \<noteq> {})
              else if (1 :: u32) = 2 then 0 else 0xFFFFFFFF)"
  by (rule keyboard_service_answers) (simp_all add: keyboard_fresh_ok, simp add: keyboard_fresh_def)

text \<open>
  C4: recovery from loss. When the interrupt handler has counted a loss the driver has not
  seen, the next call forgets every held key, every half-received prefix and every queued
  byte, so that a lost release cannot leave a key stuck, and marks the loss as seen.
\<close>

theorem keyboard_loss_releases_keys:
  assumes "keyboard_ok s" "lock s = 0" "observed_dropped s \<noteq> dropped s"
  shows "\<exists>result s'. keyboard_driver_service cs op key s = Some (result, s') \<and>
    keys_down s' = {} \<and> down_count s' = 0 \<and> between_keys s' \<and> keyboard_pending s' = [] \<and>
    observed_dropped s' = dropped s \<and> dropped s' = dropped s"
proof -
  let ?e = "service_entry cs s"
  let ?r = "keyboard_resync ?e"
  have e: "queue_ok ?e" using assms(1) by (simp add: keyboard_ok_def queue_ok_def service_entry_def)
  have n: "observed_dropped ?e \<noteq> dropped ?e" using assms(3) by (simp add: service_entry_def)
  have "keyboard_pending ?r = []"
    using e n by (simp add: keyboard_resync_def pending_empty queue_ok_def)
  then have "keyboard_process_queue ?e = ?r"
    using process_queue_eq [OF e] n by (simp add: Let_def keyboard_resync_def)
  then show ?thesis
    using n e by (simp add: service_eq [OF assms(2)] Let_def lock_update_frame keyboard_resync_def
        keys_down_def between_keys_def pending_empty queue_ok_def) (simp add: service_entry_def)
qed

theorem keyboard_loss_releases_keys_witness:
  "\<exists>result s'. keyboard_driver_service 0x1A 1 0 (keyboard_fresh\<lparr>dropped := 1\<rparr>) = Some (result, s') \<and>
    keys_down s' = {} \<and> down_count s' = 0 \<and> between_keys s' \<and> keyboard_pending s' = [] \<and>
    observed_dropped s' = dropped (keyboard_fresh\<lparr>dropped := 1\<rparr>) \<and> dropped s' = dropped (keyboard_fresh\<lparr>dropped := 1\<rparr>)"
proof (rule keyboard_loss_releases_keys)
  show "keyboard_ok (keyboard_fresh\<lparr>dropped := 1\<rparr>)"
    using keyboard_fresh_ok(1) by (simp add: keyboard_ok_def queue_ok_def)
qed (simp_all add: keyboard_fresh_def)

end
