(* ===== verification/Keyboard_Concurrency.thy ===== *)
theory Keyboard_Concurrency
  imports Keyboard
begin

text \<open>
  The scan-code queue under interrupts. A ring-2 call runs with interrupts enabled, so the
  handler of \<^verbatim>\<open>Ps2Keyboard.c\<close> can run between any two accesses of
  \<^verbatim>\<open>keyboard_process_queue\<close> to the shared state; only the handler writes
  \<^verbatim>\<open>head\<close>, \<^verbatim>\<open>dropped\<close> and \<^verbatim>\<open>bytes\<close>, only the consumer writes \<^verbatim>\<open>tail\<close>
  and the key state, and no lock is shared. The step relation below has one rule per
  shared access of the consumer, and one per way the handler ends.
\<close>

section \<open>Steps\<close>

text \<open>
  Where the consumer is inside \<^verbatim>\<open>keyboard_process_queue\<close>: before the test for a loss, after it, before the read
  of \<^verbatim>\<open>head\<close>, holding the value it will store in \<^verbatim>\<open>tail\<close>, at the loop test, holding
  \<^verbatim>\<open>tail\<close>, holding \<^verbatim>\<open>tail\<close> and the byte, holding the byte only.
\<close>

datatype kb_pc =
    At_start | Resync | Resync_head | Resync_tail u32 | At_loop | Loaded u32 | Fetched u32 u8 | Advanced u8

text \<open>
  History variables: \<open>accepted\<close> are the bytes the handler stored, \<open>settled\<close> what the consumer has done (decoded
  a byte, discarded one, released all keys), and \<open>losses\<close> counts the bytes the handler did not store.
\<close>

datatype kb_event = Decoded u8 | Discarded u8 | Cleared

record kb_sys =
  shared :: keyboard_shared
  kb_pc :: kb_pc
  accepted :: "u8 list"
  settled :: "kb_event list"
  losses :: nat

inductive kb_step :: "kb_sys \<Rightarrow> kb_sys \<Rightarrow> bool" where
  irq_byte: "(head (shared y) + 1) AND 255 \<noteq> tail (shared y) \<Longrightarrow>
     kb_step y (y\<lparr>shared := keyboard_enqueue b (shared y), accepted := accepted y @ [b]\<rparr>)"
| irq_full: "(head (shared y) + 1) AND 255 = tail (shared y) \<Longrightarrow>
     kb_step y (y\<lparr>shared := keyboard_enqueue b (shared y), losses := losses y + 1\<rparr>)"
| irq_error: "kb_step y (y\<lparr>shared := (shared y)\<lparr>dropped := dropped (shared y) + 1\<rparr>, losses := losses y + 1\<rparr>)"
| no_loss: "kb_pc y = At_start \<Longrightarrow> observed_dropped (shared y) = dropped (shared y) \<Longrightarrow>
     kb_step y (y\<lparr>kb_pc := At_loop\<rparr>)"
| loss: "kb_pc y = At_start \<Longrightarrow> observed_dropped (shared y) \<noteq> dropped (shared y) \<Longrightarrow>
     kb_step y (y\<lparr>kb_pc := Resync\<rparr>)"
| resync_state: "kb_pc y = Resync \<Longrightarrow>
     kb_step y (y\<lparr>shared := (shared y)\<lparr>observed_dropped := dropped (shared y),
         down := replicate 256 0, down_count := 0, extended := 0, pause_remaining := 0\<rparr>,
       kb_pc := Resync_head, settled := settled y @ [Cleared]\<rparr>)"
| resync_head: "kb_pc y = Resync_head \<Longrightarrow> kb_step y (y\<lparr>kb_pc := Resync_tail (head (shared y))\<rparr>)"
| resync_tail: "kb_pc y = Resync_tail h \<Longrightarrow>
     kb_step y (y\<lparr>shared := (shared y)\<lparr>tail := h\<rparr>, kb_pc := At_loop,
       settled := settled y @ map Discarded
         (ring_list 256 ((!) (bytes (shared y))) (unat (tail (shared y))) (unat h))\<rparr>)"
| load: "kb_pc y = At_loop \<Longrightarrow> tail (shared y) \<noteq> head (shared y) \<Longrightarrow>
     kb_step y (y\<lparr>kb_pc := Loaded (tail (shared y))\<rparr>)"
| fetch: "kb_pc y = Loaded t \<Longrightarrow>
     kb_step y (y\<lparr>kb_pc := Fetched t (bytes (shared y) ! unat t)\<rparr>)"
| advance: "kb_pc y = Fetched t b \<Longrightarrow>
     kb_step y (y\<lparr>shared := (shared y)\<lparr>tail := (t + 1) AND 255\<rparr>, kb_pc := Advanced b\<rparr>)"
| decode: "kb_pc y = Advanced b \<Longrightarrow>
     kb_step y (y\<lparr>shared := keyboard_decode_byte (shared y) b, kb_pc := At_loop,
       settled := settled y @ [Decoded b]\<rparr>)"
| leave: "kb_pc y = At_loop \<Longrightarrow> kb_step y (y\<lparr>kb_pc := At_start\<rparr>)"

definition kb_start :: "keyboard_shared \<Rightarrow> kb_sys" where
  "kb_start s = \<lparr>shared = s, kb_pc = At_start, accepted = keyboard_pending s, settled = [], losses = 0\<rparr>"

inductive kb_reachable :: "keyboard_shared \<Rightarrow> kb_sys \<Rightarrow> bool" for s where
  start: "kb_reachable s (kb_start s)"
| step: "kb_reachable s y \<Longrightarrow> kb_step y z \<Longrightarrow> kb_reachable s z"

section \<open>Invariant\<close>

fun in_flight :: "kb_pc \<Rightarrow> u8 list" where
  "in_flight (Advanced b) = [b]"
| "in_flight _ = []"

fun event_bytes :: "kb_event \<Rightarrow> u8 list" where
  "event_bytes (Decoded b) = [b]"
| "event_bytes (Discarded b) = [b]"
| "event_bytes Cleared = []"

lemma discarded_bytes [simp]: "concat (map (event_bytes \<circ> Discarded) bs) = bs"
  by (induction bs) simp_all

definition kb_conserved :: "kb_sys \<Rightarrow> bool" where
  "kb_conserved y \<longleftrightarrow>
     accepted y = concat (map event_bytes (settled y)) @ in_flight (kb_pc y) @ keyboard_pending (shared y)"

fun pc_ok :: "kb_pc \<Rightarrow> keyboard_shared \<Rightarrow> bool" where
  "pc_ok (Loaded t) s = (t = tail s \<and> tail s \<noteq> head s)"
| "pc_ok (Fetched t b) s = (t = tail s \<and> tail s \<noteq> head s \<and> b = keyboard_front s)"
| "pc_ok (Resync_tail h) s = (h < 256 \<and>
     keyboard_pending s = ring_list 256 ((!) (bytes s)) (unat (tail s)) (unat h)
       @ ring_list 256 ((!) (bytes s)) (unat h) (unat (head s)))"
| "pc_ok _ s = True"

definition kb_inv :: "kb_sys \<Rightarrow> bool" where
  "kb_inv y \<longleftrightarrow> keyboard_ok (shared y) \<and> pc_ok (kb_pc y) (shared y) \<and> kb_conserved y"

subsection \<open>What the handler leaves alone\<close>

lemma enqueue_frame:
  "tail (keyboard_enqueue b s) = tail s" "down (keyboard_enqueue b s) = down s"
  "down_count (keyboard_enqueue b s) = down_count s"
  "pause_remaining (keyboard_enqueue b s) = pause_remaining s"
  by (simp_all add: keyboard_enqueue_def Let_def)

lemma keyboard_ok_enqueue: "keyboard_ok s \<Longrightarrow> keyboard_ok (keyboard_enqueue b s)"
  by (auto simp: keyboard_ok_def queue_ok_enqueue keys_ok_def enqueue_frame)

lemma enqueue_nonempty:
  assumes "queue_ok s" "tail s \<noteq> head s"
  shows "tail (keyboard_enqueue b s) \<noteq> head (keyboard_enqueue b s)"
    and "keyboard_front (keyboard_enqueue b s) = keyboard_front s"
proof -
  have q: "queue_ok (keyboard_enqueue b s)" using assms(1) by (rule queue_ok_enqueue)
  obtain x xs where p: "keyboard_pending s = x # xs"
    using assms pending_empty by (metis neq_Nil_conv)
  then obtain ys where p': "keyboard_pending (keyboard_enqueue b s) = x # ys"
    using pending_enqueue [OF assms(1), of b]
    by (cases "length (keyboard_pending s) < 255") auto
  show "tail (keyboard_enqueue b s) \<noteq> head (keyboard_enqueue b s)"
    using p' pending_empty [OF q] by auto
  show "keyboard_front (keyboard_enqueue b s) = keyboard_front s"
    using pending_advance [OF assms(1)] pending_advance [OF q] p p' by auto
qed

lemma pending_full:
  assumes "queue_ok s"
  shows "((head s + 1) AND 255 = tail s) = (length (keyboard_pending s) = 255)"
  using queue_ok_unat [OF assms] ring_full_iff [of "unat (tail s)" 256 "unat (head s)"]
  by (simp add: ring_eq_unat keyboard_pending_def)

lemma split_enqueue:
  assumes q: "queue_ok s" and h: "h < 256"
    and split: "keyboard_pending s = ring_list 256 ((!) (bytes s)) (unat (tail s)) (unat h)
       @ ring_list 256 ((!) (bytes s)) (unat h) (unat (head s))"
  shows "pc_ok (Resync_tail h) (keyboard_enqueue b s)"
proof (cases "(head s + 1) AND 255 = tail s")
  case True
  then show ?thesis using h split by (simp add: keyboard_enqueue_def keyboard_pending_def)
next
  case False
  let ?t = "unat (tail s)" and ?d = "unat (head s)" and ?h = "unat h"
  let ?slot = "(!) (bytes s)" and ?slot' = "(!) ((bytes s)[?d := b])"
  have b: "?t < 256" "?d < 256" "?h < 256" "?d < length (bytes s)"
    using queue_ok_unat [OF q] q h by (auto simp: queue_ok_def word_less_nat_alt)
  have upd: "?slot' = ?slot(?d := b)" using b by (auto simp: fun_eq_iff nth_list_update)
  have count: "ring_count 256 ?t ?d = ring_count 256 ?t ?h + ring_count 256 ?h ?d"
    using arg_cong [OF split, of length] by (simp add: keyboard_pending_def)
  have nt: "Suc ?d mod 256 \<noteq> ?t" using False ring_eq_unat [of "head s" "tail s"] by simp
  have nh: "Suc ?d mod 256 \<noteq> ?h"
    using nt count b ring_full_iff [of ?h 256 ?d] ring_full_iff [of ?t 256 ?d]
      ring_count_less [of 256 ?t ?d] ring_count_0_iff [of ?t 256 ?h] by auto
  have free: "(?t + i) mod 256 \<noteq> ?d" if "i < ring_count 256 ?t ?h" for i
  proof
    assume "(?t + i) mod 256 = ?d"
    then have "i = ring_count 256 ?t ?d"
      using ring_index_head [OF b(1,2)] ring_index_inj [of i 256 "ring_count 256 ?t ?d" ?t] that
        ring_count_less [of 256 ?t ?h] ring_count_less [of 256 ?t ?d] by simp
    then show False using that count by simp
  qed
  have "keyboard_pending (keyboard_enqueue b s) = keyboard_pending s @ [b]"
    using pending_enqueue [OF q] pending_full [OF q] False pending_length [OF q] by auto
  moreover have "ring_list 256 ?slot' ?t ?h = ring_list 256 ?slot ?t ?h"
    unfolding upd by (rule ring_list_other_slot [OF b(1,3) free])
  moreover have "ring_list 256 ?slot' ?h (Suc ?d mod 256) = ring_list 256 ?slot ?h ?d @ [b]"
    unfolding upd by (rule ring_list_put [OF b(3,2) nh])
  ultimately show ?thesis
    using False h split by (simp add: keyboard_enqueue_def Let_def unat_ring_next)
qed

lemma pc_ok_enqueue:
  assumes "queue_ok s" "pc_ok p s"
  shows "pc_ok p (keyboard_enqueue b s)"
  using assms enqueue_nonempty [OF assms(1), of b] split_enqueue [OF assms(1), of _ b]
  by (cases p) (auto simp: enqueue_frame)

lemma kb_inv_irq:
  assumes "kb_inv y"
  shows "(head (shared y) + 1) AND 255 \<noteq> tail (shared y) \<Longrightarrow>
      kb_inv (y\<lparr>shared := keyboard_enqueue b (shared y), accepted := accepted y @ [b]\<rparr>)"
    and "(head (shared y) + 1) AND 255 = tail (shared y) \<Longrightarrow>
      kb_inv (y\<lparr>shared := keyboard_enqueue b (shared y), losses := losses y + 1\<rparr>)"
proof -
  have q: "queue_ok (shared y)" using assms by (simp add: kb_inv_def keyboard_ok_def)
  note facts = q assms pending_enqueue [OF q, of b] pending_full [OF q] pending_length [OF q]
  show "kb_inv (y\<lparr>shared := keyboard_enqueue b (shared y), accepted := accepted y @ [b]\<rparr>)"
    if "(head (shared y) + 1) AND 255 \<noteq> tail (shared y)"
    using facts that by (auto simp: kb_inv_def kb_conserved_def keyboard_ok_enqueue pc_ok_enqueue)
  show "kb_inv (y\<lparr>shared := keyboard_enqueue b (shared y), losses := losses y + 1\<rparr>)"
    if "(head (shared y) + 1) AND 255 = tail (shared y)"
    using facts that by (auto simp: kb_inv_def kb_conserved_def keyboard_ok_enqueue pc_ok_enqueue)
qed

subsection \<open>The consumer's steps\<close>

lemma pending_cong:
  "head s' = head s \<Longrightarrow> tail s' = tail s \<Longrightarrow> bytes s' = bytes s \<Longrightarrow>
   keyboard_pending s' = keyboard_pending s"
  by (simp add: keyboard_pending_def)

lemma kb_inv_resync_tail:
  assumes "kb_inv y" "kb_pc y = Resync_tail h"
  shows "kb_inv (y\<lparr>shared := (shared y)\<lparr>tail := h\<rparr>, kb_pc := At_loop,
       settled := settled y @ map Discarded
         (ring_list 256 ((!) (bytes (shared y))) (unat (tail (shared y))) (unat h))\<rparr>)"
  using assms
  by (auto simp: kb_inv_def kb_conserved_def keyboard_ok_def queue_ok_def comp_def)
     (simp add: keyboard_pending_def)

lemma kb_inv_advance:
  assumes "kb_inv y" "kb_pc y = Fetched t b"
  shows "kb_inv (y\<lparr>shared := (shared y)\<lparr>tail := (t + 1) AND 255\<rparr>, kb_pc := Advanced b\<rparr>)"
proof -
  let ?s = "shared y"
  have q: "queue_ok ?s" and t: "t = tail ?s" "tail ?s \<noteq> head ?s" "b = keyboard_front ?s"
    using assms by (auto simp: kb_inv_def keyboard_ok_def)
  have adv: "?s\<lparr>tail := (t + 1) AND 255\<rparr> = keyboard_advance ?s"
    by (simp add: keyboard_advance_def t)
  have "keyboard_pending ?s = b # keyboard_pending (keyboard_advance ?s)"
    using pending_advance [OF q] pending_empty [OF q] t by simp
  then show ?thesis
    using assms queue_ok_advance [OF q] unfolding adv kb_inv_def kb_conserved_def keyboard_ok_def
    by (simp add: keyboard_advance_def)
qed

lemma kb_inv_step: "kb_step y z \<Longrightarrow> kb_inv y \<Longrightarrow> kb_inv z"
proof (induction rule: kb_step.induct)
  case (irq_byte y b)
  then show ?case by (rule kb_inv_irq(1) [rotated])
next
  case (irq_full y b)
  then show ?case by (rule kb_inv_irq(2) [rotated])
next
  case (irq_error y)
  have p: "keyboard_pending (shared y\<lparr>dropped := d\<rparr>) = keyboard_pending (shared y)" for d
    by (rule pending_cong) simp_all
  have "pc_ok p (shared y\<lparr>dropped := d\<rparr>) = pc_ok p (shared y)" for p d
    by (cases p) (simp_all add: keyboard_front_def p)
  then show ?case
    using irq_error by (simp add: kb_inv_def keyboard_ok_def queue_ok_def kb_conserved_def p)
next
  case (resync_tail y h)
  then show ?case by (simp add: kb_inv_resync_tail)
next
  case (advance y t b)
  then show ?case by (simp add: kb_inv_advance)
next
  case (resync_state y)
  then show ?case
    by (auto simp: kb_inv_def keyboard_ok_def queue_ok_def keys_ok_def kb_conserved_def
        keyboard_pending_def)
next
  case (resync_head y)
  then show ?case by (simp add: kb_inv_def kb_conserved_def keyboard_pending_def keyboard_ok_def queue_ok_def)
next
  case (fetch y t)
  then show ?case by (simp add: kb_inv_def kb_conserved_def keyboard_front_def)
next
  case (decode y b)
  then show ?case
    by (simp add: kb_inv_def kb_conserved_def keyboard_ok_def queue_ok_decode keys_ok_decode
        pending_decode)
qed (simp_all add: kb_inv_def kb_conserved_def)

lemma kb_reachable_inv: "kb_reachable s y \<Longrightarrow> keyboard_ok s \<Longrightarrow> kb_inv y"
proof (induction rule: kb_reachable.induct)
  case start
  then show ?case by (simp add: kb_inv_def kb_conserved_def kb_start_def)
next
  case (step y z)
  then show ?case by (blast intro: kb_inv_step)
qed

section \<open>The key state is a replay\<close>

text \<open>The fields that only the consumer uses.\<close>

definition key_state :: "keyboard_shared \<Rightarrow> u8 list \<times> u32 \<times> u32 \<times> u32" where
  "key_state s = (down s, down_count s, extended s, pause_remaining s)"

fun replay :: "kb_event \<Rightarrow> keyboard_shared \<Rightarrow> keyboard_shared" where
  "replay (Decoded b) s = keyboard_decode_byte s b"
| "replay (Discarded b) s = s"
| "replay Cleared s = s\<lparr>down := replicate 256 0, down_count := 0, extended := 0, pause_remaining := 0\<rparr>"

lemma key_state_decode: "key_state s = key_state t \<Longrightarrow> key_state (keyboard_decode_byte s b) = key_state (keyboard_decode_byte t b)"
  by (simp add: key_state_def keyboard_decode_byte_def Let_def)

lemma replay_discarded [simp]: "fold (replay \<circ> Discarded) bs s = s"
  by (induction bs) simp_all

lemma key_state_frame [simp]:
  "key_state (keyboard_enqueue b s) = key_state s" "key_state (s\<lparr>tail := t\<rparr>) = key_state s" "key_state (s\<lparr>dropped := d\<rparr>) = key_state s"
  by (simp_all add: key_state_def keyboard_enqueue_def Let_def)

definition kb_replayed :: "keyboard_shared \<Rightarrow> kb_sys \<Rightarrow> bool" where
  "kb_replayed s y \<longleftrightarrow> key_state (shared y) = key_state (fold replay (settled y) s)"

lemma kb_replayed_step: "kb_step y z \<Longrightarrow> kb_replayed s y \<Longrightarrow> kb_replayed s z"
proof (induction rule: kb_step.induct)
  case (decode y b)
  then have "key_state (shared y) = key_state (fold replay (settled y) s)" by (simp add: kb_replayed_def)
  then have "key_state (keyboard_decode_byte (shared y) b) = key_state (keyboard_decode_byte (fold replay (settled y) s) b)"
    by (rule key_state_decode)
  then show ?case by (simp add: kb_replayed_def)
next
  case (resync_state y)
  then show ?case by (simp add: kb_replayed_def key_state_def)
qed (simp_all add: kb_replayed_def fold_map)

text \<open>Losses are counted, and as long as there is none the consumer only decodes.\<close>

definition kb_lossless :: "keyboard_shared \<Rightarrow> kb_sys \<Rightarrow> bool" where
  "kb_lossless s y \<longleftrightarrow> dropped (shared y) = dropped s + of_nat (losses y) \<and>
     (losses y = 0 \<longrightarrow> observed_dropped s = dropped s \<longrightarrow> observed_dropped (shared y) = dropped (shared y) \<and>
        kb_pc y \<noteq> Resync \<and> kb_pc y \<noteq> Resync_head \<and> (\<forall>h. kb_pc y \<noteq> Resync_tail h) \<and> (\<forall>ev \<in> set (settled y). \<exists>b. ev = Decoded b))"

lemma enqueue_dropped:
  "dropped (keyboard_enqueue b s) = (if (head s + 1) AND 255 = tail s then dropped s + 1 else dropped s)"
  "observed_dropped (keyboard_enqueue b s) = observed_dropped s"
  by (simp_all add: keyboard_enqueue_def Let_def)

lemma kb_lossless_step: "kb_step y z \<Longrightarrow> kb_lossless s y \<Longrightarrow> kb_lossless s z"
proof (induction rule: kb_step.induct)
  case (decode y b)
  then show ?case by (simp add: kb_lossless_def decode_frame)
next
  case (loss y)
  then show ?case by (auto simp: kb_lossless_def)
next
  case (resync_tail y h)
  then show ?case by (auto simp: kb_lossless_def)
qed (simp_all add: kb_lossless_def enqueue_dropped)

lemma kb_reachable_history: "kb_reachable s y \<Longrightarrow> kb_replayed s y \<and> kb_lossless s y"
proof (induction rule: kb_reachable.induct)
  case start
  show ?case by (simp add: kb_replayed_def kb_lossless_def kb_start_def)
next
  case (step y z)
  then show ?case using kb_replayed_step kb_lossless_step by blast
qed

section \<open>A call without interrupts\<close>

lemma drain_steps:
  assumes "kb_reachable s y" "kb_pc y = At_loop"
  shows "\<exists>z. kb_reachable s z \<and> kb_pc z = At_loop \<and> shared z = keyboard_drain n (shared y)"
  using assms
proof (induction n arbitrary: y)
  case 0
  then show ?case by auto
next
  case (Suc n)
  show ?case
  proof (cases "tail (shared y) = head (shared y)")
    case True
    then show ?thesis using Suc.prems by auto
  next
    case False
    let ?t = "tail (shared y)" and ?b = "bytes (shared y) ! unat (tail (shared y))"
    let ?y1 = "y\<lparr>kb_pc := Loaded ?t\<rparr>" and ?y2 = "y\<lparr>kb_pc := Fetched ?t ?b\<rparr>"
    let ?y3 = "y\<lparr>shared := (shared y)\<lparr>tail := (?t + 1) AND 255\<rparr>, kb_pc := Advanced ?b\<rparr>"
    let ?y4 = "?y3\<lparr>shared := keyboard_decode_byte (shared ?y3) ?b, kb_pc := At_loop, settled := settled ?y3 @ [Decoded ?b]\<rparr>"
    have "kb_step y ?y1" using kb_step.load [of y] Suc.prems(2) False by simp
    moreover have "kb_step ?y1 ?y2" using kb_step.fetch [of ?y1 ?t] by simp
    moreover have "kb_step ?y2 ?y3" using kb_step.advance [of ?y2 ?t ?b] by simp
    moreover have "kb_step ?y3 ?y4" by (rule kb_step.decode) simp
    ultimately have "kb_reachable s ?y4" using Suc.prems(1) by (meson kb_reachable.step)
    then obtain z where "kb_reachable s z" "kb_pc z = At_loop" "shared z = keyboard_drain n (shared ?y4)"
      using Suc.IH [of ?y4] by auto
    then show ?thesis using False by (auto simp: keyboard_advance_def keyboard_front_def)
  qed
qed

lemma resync_steps: "\<exists>y. kb_reachable s y \<and> kb_pc y = At_loop \<and> shared y = keyboard_resync s"
proof (cases "observed_dropped s = dropped s")
  case True
  then have "kb_step (kb_start s) ((kb_start s)\<lparr>kb_pc := At_loop\<rparr>)" by (intro kb_step.no_loss) (simp_all add: kb_start_def)
  then show ?thesis using True kb_reachable.start [of s] kb_reachable.step by (fastforce simp: kb_start_def keyboard_resync_def)
next
  case False
  let ?y = "kb_start s"
  let ?y1 = "?y\<lparr>kb_pc := Resync\<rparr>"
  let ?y2 = "?y\<lparr>shared := s\<lparr>observed_dropped := dropped s, down := replicate 256 0, down_count := 0, extended := 0, pause_remaining := 0\<rparr>,
    kb_pc := Resync_head, settled := [Cleared]\<rparr>"
  let ?y3 = "?y2\<lparr>kb_pc := Resync_tail (head s)\<rparr>"
  let ?y4 = "?y3\<lparr>shared := (shared ?y3)\<lparr>tail := head s\<rparr>, kb_pc := At_loop, settled := settled ?y3 @ map Discarded
    (ring_list 256 ((!) (bytes (shared ?y3))) (unat (tail (shared ?y3))) (unat (head s)))\<rparr>"
  have "kb_step ?y ?y1" using False by (intro kb_step.loss) (simp_all add: kb_start_def)
  moreover have "kb_step ?y1 ?y2" using kb_step.resync_state [of ?y1] by (simp add: kb_start_def)
  moreover have "kb_step ?y2 ?y3" using kb_step.resync_head [of ?y2] by simp
  moreover have "kb_step ?y3 ?y4" by (rule kb_step.resync_tail) simp
  ultimately have "kb_reachable s ?y4" using kb_reachable.start [of s] by (meson kb_reachable.step)
  moreover have "shared ?y4 = keyboard_resync s" using False by (simp add: keyboard_resync_def)
  ultimately show ?thesis by (intro exI [of _ ?y4]) simp
qed

lemma process_queue_steps: "\<exists>y. kb_reachable s y \<and> kb_pc y = At_start \<and> shared y = keyboard_process_queue s"
proof -
  obtain y where "kb_reachable s y" "kb_pc y = At_loop" "shared y = keyboard_resync s" using resync_steps by blast
  then obtain z where z: "kb_reachable s z" "kb_pc z = At_loop" "shared z = keyboard_process_queue s"
    using drain_steps [of s y 256] by (auto simp: keyboard_process_queue_def)
  have "kb_step z (z\<lparr>kb_pc := At_start\<rparr>)" using z(2) by (rule kb_step.leave)
  then show ?thesis using z by (intro exI [of _ "z\<lparr>kb_pc := At_start\<rparr>"]) (auto intro: kb_reachable.step)
qed

section \<open>Properties\<close>

text \<open>
  C2: lock-free hand-over. However the interrupt handler interleaves with the consumer's
  single accesses, the shared page keeps its invariant; every byte the handler accepted
  is, in order and exactly once, either already removed by the consumer, or the one byte it
  holds, or still queued; the held keys and the prefix state are those of decoding the removed bytes one after the
  other, with a release of all keys where the consumer resynchronised; every byte not accepted is counted,
  and as long as there is none the consumer decodes every byte it removes. An uninterrupted run of the steps does what
  \<^verbatim>\<open>keyboard_process_queue\<close> does.
\<close>

theorem keyboard_interleaving_conserves:
  assumes "kb_reachable s y" "keyboard_ok s"
  shows "keyboard_ok (shared y) \<and>
    accepted y = concat (map event_bytes (settled y)) @ in_flight (kb_pc y) @ keyboard_pending (shared y) \<and>
    key_state (shared y) = key_state (fold replay (settled y) s) \<and>
    dropped (shared y) = dropped s + of_nat (losses y) \<and>
    (losses y = 0 \<longrightarrow> observed_dropped s = dropped s \<longrightarrow> (\<forall>ev \<in> set (settled y). \<exists>b. ev = Decoded b)) \<and>
    (\<exists>z. kb_reachable s z \<and> kb_pc z = At_start \<and> shared z = keyboard_process_queue s)"
  using kb_reachable_inv [OF assms] kb_reachable_history [OF assms(1)] process_queue_steps [of s]
  unfolding kb_inv_def kb_conserved_def kb_replayed_def kb_lossless_def by blast

theorem keyboard_interleaving_conserves_witness:
  "\<exists>y :: kb_sys. kb_pc y = Advanced 0 \<and> keyboard_ok (shared y) \<and>
    accepted y = concat (map event_bytes (settled y)) @ in_flight (kb_pc y) @ keyboard_pending (shared y)"
proof -
  let ?y1 = "(kb_start keyboard_fresh)\<lparr>shared := keyboard_enqueue 0 keyboard_fresh, accepted := [0]\<rparr>"
  let ?y2 = "?y1\<lparr>kb_pc := At_loop\<rparr>" and ?y3 = "?y1\<lparr>kb_pc := Loaded 0\<rparr>" and ?y4 = "?y1\<lparr>kb_pc := Fetched 0 0\<rparr>"
  let ?y5 = "?y4\<lparr>shared := (shared ?y4)\<lparr>tail := (0 + 1) AND 255\<rparr>, kb_pc := Advanced 0\<rparr>"
  have 1: "kb_step (kb_start keyboard_fresh) ?y1"
    using kb_step.irq_byte [of "kb_start keyboard_fresh" 0] keyboard_fresh_ok(2)
    by (simp add: kb_start_def keyboard_fresh_def)
  have 2: "kb_step ?y1 ?y2"
    by (rule kb_step.no_loss) (simp_all add: kb_start_def keyboard_fresh_def keyboard_enqueue_def)
  have 3: "kb_step ?y2 ?y3"
    using kb_step.load [of ?y2] by (simp add: kb_start_def keyboard_fresh_def keyboard_enqueue_def)
  have 4: "kb_step ?y3 ?y4"
    using kb_step.fetch [of ?y3 0] by (simp add: kb_start_def keyboard_fresh_def keyboard_enqueue_def nth_list_update)
  have 5: "kb_step ?y4 ?y5" by (rule kb_step.advance) simp
  have r: "kb_reachable keyboard_fresh ?y5"
    using 1 2 3 4 5 by (meson kb_reachable.intros)
  have pc: "kb_pc ?y5 = Advanced 0" by simp
  obtain y where "kb_reachable keyboard_fresh y" "kb_pc y = Advanced 0"
    by (rule that [OF r pc])
  then show ?thesis using keyboard_interleaving_conserves [OF _ keyboard_fresh_ok(1)] by blast
qed

end
