(* ===== verification/Machine.thy ===== *)
theory Machine
  imports Prelude
begin

text \<open>
  The machine the kernel's C code runs on, and the monad its hardware-facing functions are
  written in. Devices, the firmware and the assembly half of the kernel are not C code of
  this repository's drivers; they appear as an environment \<^verbatim>\<open>env\<close>, a parameter of
  every program: the answer to a port read, a memory-mapped register read, a time-stamp
  read or a call through the kernel API table is an arbitrary function of the whole
  history of events so far. A theorem over all environments is a theorem over all device
  behaviours. The history is kept newest first in the field \<^verbatim>\<open>io\<close> of the world.
\<close>

section \<open>Events, environment, world\<close>

text \<open>Entries of \<^verbatim>\<open>struct kernel_api\<close> (\<^verbatim>\<open>Include/KernelApi.h\<close>) that the C code calls.\<close>

datatype api_fn =
    Map_page | Get_physical_address | Pmm_alloc_page | Pmm_free_page | Pmm_mark_range_used
  | Gdt_alloc_selector | Gdt_write_raw_descriptor | Gdt_create_code_descriptor
  | Gdt_create_data_descriptor | Process_create | Process_prepare_test_task | Process_destroy
  | Heap_alloc | Heap_free | Heap_validate

datatype io_req =
    Req_in8 u16 | Req_in16 u16 | Req_in32 u16
  | Req_mmio u32
  | Req_tsc
  | Req_call api_fn "u32 list"

datatype io_event =
    In8 u16 u8 | Out8 u16 u8 | In16 u16 u16 | Out16 u16 u16 | In32 u16 u32 | Out32 u16 u32
  | Mmio_read u32 u32 | Mmio_write u32 u32
  | Tsc u32
  | Fence
  | Sync
  | Call api_fn "u32 list" u32

text \<open>
  \<^verbatim>\<open>env_dma\<close> are the bytes a bus-mastering device has written to memory by a point
  of the history; \<^verbatim>\<open>env_fuel\<close> bounds the iterations of each busy-wait loop whose only
  exit is a clock or a device.
\<close>

record env =
  env_in :: "io_event list \<Rightarrow> io_req \<Rightarrow> u32"
  env_dma :: "io_event list \<Rightarrow> u32 \<Rightarrow> u8 option"
  env_fuel :: nat

record cpu =
  cpu_if :: bool
  cpu_cs :: u16
  cpu_cr3 :: u32
  cpu_tr :: u16
  cpu_ldtr :: u16

record 's world =
  io :: "io_event list"
  mem :: "u32 \<Rightarrow> u8"
  cpu_regs :: cpu
  vars :: 's

section \<open>Programs\<close>

text \<open>
  A run returns, panics (\<^verbatim>\<open>KPANIC\<close> halts the machine for good), or is still in a
  busy-wait loop when the fuel is spent. All three carry the world, so safety properties
  also speak about runs that never return.
\<close>

datatype ('s, 'a) outcome =
    Done 'a "'s world"
  | Panicked string "'s world"
  | Unfinished "'s world"

type_synonym ('s, 'a) prog = "env \<Rightarrow> 's world \<Rightarrow> ('s, 'a) outcome"

primrec final :: "('s, 'a) outcome \<Rightarrow> 's world" where
  "final (Done x w) = w"
| "final (Panicked msg w) = w"
| "final (Unfinished w) = w"

definition ret :: "'a \<Rightarrow> ('s, 'a) prog" where
  "ret x = (\<lambda>e w. Done x w)"

definition bind :: "('s, 'a) prog \<Rightarrow> ('a \<Rightarrow> ('s, 'b) prog) \<Rightarrow> ('s, 'b) prog" where
  "bind m f = (\<lambda>e w. case m e w of
      Done x w' \<Rightarrow> f x e w'
    | Panicked msg w' \<Rightarrow> Panicked msg w'
    | Unfinished w' \<Rightarrow> Unfinished w')"

definition andthen :: "('s, 'a) prog \<Rightarrow> ('s, 'b) prog \<Rightarrow> ('s, 'b) prog" where
  "andthen m n = bind m (\<lambda>_. n)"

definition panic :: "string \<Rightarrow> ('s, 'a) prog" where
  "panic msg = (\<lambda>e w. Panicked msg w)"

definition gets :: "('s \<Rightarrow> 'a) \<Rightarrow> ('s, 'a) prog" where
  "gets f = (\<lambda>e w. Done (f (vars w)) w)"

definition modify :: "('s \<Rightarrow> 's) \<Rightarrow> ('s, unit) prog" where
  "modify f = (\<lambda>e w. Done () (w\<lparr>vars := f (vars w)\<rparr>))"

definition cond :: "bool \<Rightarrow> ('s, unit) prog \<Rightarrow> ('s, unit) prog" where
  "cond b m = (if b then m else ret ())"

text \<open>\<^verbatim>\<open>KASSERT_MSG\<close> of \<^verbatim>\<open>Include/KernelRuntime.h\<close>.\<close>

definition kassert_msg :: "bool \<Rightarrow> string \<Rightarrow> ('s, unit) prog" where
  "kassert_msg b msg = (if b then ret () else panic msg)"

section \<open>Primitives\<close>

definition ask :: "(io_event list \<Rightarrow> io_req) \<Rightarrow> (u32 \<Rightarrow> io_event) \<Rightarrow> ('s, u32) prog" where
  "ask req ev = (\<lambda>e w. let v = env_in e (io w) (req (io w)) in Done v (w\<lparr>io := ev v # io w\<rparr>))"

definition emit :: "io_event \<Rightarrow> ('s, unit) prog" where
  "emit ev = (\<lambda>e w. Done () (w\<lparr>io := ev # io w\<rparr>))"

definition in8 :: "u16 \<Rightarrow> ('s, u8) prog" where
  "in8 p = bind (ask (\<lambda>_. Req_in8 p) (\<lambda>v. In8 p (ucast v))) (\<lambda>v. ret (ucast v))"

definition out8 :: "u16 \<Rightarrow> u8 \<Rightarrow> ('s, unit) prog" where
  "out8 p v = emit (Out8 p v)"

definition in16 :: "u16 \<Rightarrow> ('s, u16) prog" where
  "in16 p = bind (ask (\<lambda>_. Req_in16 p) (\<lambda>v. In16 p (ucast v))) (\<lambda>v. ret (ucast v))"

definition out16 :: "u16 \<Rightarrow> u16 \<Rightarrow> ('s, unit) prog" where
  "out16 p v = emit (Out16 p v)"

definition in32 :: "u16 \<Rightarrow> ('s, u32) prog" where
  "in32 p = ask (\<lambda>_. Req_in32 p) (In32 p)"

definition out32 :: "u16 \<Rightarrow> u32 \<Rightarrow> ('s, unit) prog" where
  "out32 p v = emit (Out32 p v)"

definition mmio_read :: "u32 \<Rightarrow> ('s, u32) prog" where
  "mmio_read a = ask (\<lambda>_. Req_mmio a) (Mmio_read a)"

definition mmio_write :: "u32 \<Rightarrow> u32 \<Rightarrow> ('s, unit) prog" where
  "mmio_write a v = emit (Mmio_write a v)"

definition tsc :: "('s, u32) prog" where
  "tsc = ask (\<lambda>_. Req_tsc) Tsc"

definition fence :: "('s, unit) prog" where
  "fence = emit Fence"

definition kernel_call :: "api_fn \<Rightarrow> u32 list \<Rightarrow> ('s, u32) prog" where
  "kernel_call f args = ask (\<lambda>_. Req_call f args) (Call f args)"

definition get_cpu :: "(cpu \<Rightarrow> 'a) \<Rightarrow> ('s, 'a) prog" where
  "get_cpu f = (\<lambda>e w. Done (f (cpu_regs w)) w)"

text \<open>
  \<^verbatim>\<open>pushfl; popl; cli\<close> and the restore that sets IF only if it was set before.
\<close>

definition irq_save :: "('s, bool) prog" where
  "irq_save = (\<lambda>e w. Done (cpu_if (cpu_regs w)) (w\<lparr>cpu_regs := (cpu_regs w)\<lparr>cpu_if := False\<rparr>\<rparr>))"

definition irq_restore :: "bool \<Rightarrow> ('s, unit) prog" where
  "irq_restore flag = (\<lambda>e w.
     Done () (if flag then w\<lparr>cpu_regs := (cpu_regs w)\<lparr>cpu_if := True\<rparr>\<rparr> else w))"

subsection \<open>Memory\<close>

definition mem_load8 :: "(u32 \<Rightarrow> u8) \<Rightarrow> u32 \<Rightarrow> u8" where
  "mem_load8 m a = m a"

definition mem_load32 :: "(u32 \<Rightarrow> u8) \<Rightarrow> u32 \<Rightarrow> u32" where
  "mem_load32 m a = ucast (m a) OR push_bit 8 (ucast (m (a + 1)))
     OR push_bit 16 (ucast (m (a + 2))) OR push_bit 24 (ucast (m (a + 3)))"

definition mem_store32 :: "u32 \<Rightarrow> u32 \<Rightarrow> (u32 \<Rightarrow> u8) \<Rightarrow> (u32 \<Rightarrow> u8)" where
  "mem_store32 a v m = m(a := ucast v, a + 1 := ucast (drop_bit 8 v),
     a + 2 := ucast (drop_bit 16 v), a + 3 := ucast (drop_bit 24 v))"

text \<open>Writing a run of bytes, and reading one.\<close>

fun mem_store_list :: "u32 \<Rightarrow> u8 list \<Rightarrow> (u32 \<Rightarrow> u8) \<Rightarrow> (u32 \<Rightarrow> u8)" where
  "mem_store_list a [] m = m"
| "mem_store_list a (b # bs) m = mem_store_list (a + 1) bs (m(a := b))"

definition mem_load_list :: "(u32 \<Rightarrow> u8) \<Rightarrow> u32 \<Rightarrow> nat \<Rightarrow> u8 list" where
  "mem_load_list m a n = map (\<lambda>i. m (a + of_nat i)) [0..<n]"

definition load8 :: "u32 \<Rightarrow> ('s, u8) prog" where
  "load8 a = (\<lambda>e w. Done (mem w a) w)"

definition load32 :: "u32 \<Rightarrow> ('s, u32) prog" where
  "load32 a = (\<lambda>e w. Done (mem_load32 (mem w) a) w)"

definition load_list :: "u32 \<Rightarrow> nat \<Rightarrow> ('s, u8 list) prog" where
  "load_list a n = (\<lambda>e w. Done (mem_load_list (mem w) a n) w)"

definition store8 :: "u32 \<Rightarrow> u8 \<Rightarrow> ('s, unit) prog" where
  "store8 a v = (\<lambda>e w. Done () (w\<lparr>mem := (mem w)(a := v)\<rparr>))"

definition store32 :: "u32 \<Rightarrow> u32 \<Rightarrow> ('s, unit) prog" where
  "store32 a v = (\<lambda>e w. Done () (w\<lparr>mem := mem_store32 a v (mem w)\<rparr>))"

definition store_list :: "u32 \<Rightarrow> u8 list \<Rightarrow> ('s, unit) prog" where
  "store_list a bs = (\<lambda>e w. Done () (w\<lparr>mem := mem_store_list a bs (mem w)\<rparr>))"

definition mem_apply :: "((u32 \<Rightarrow> u8) \<Rightarrow> (u32 \<Rightarrow> u8)) \<Rightarrow> ('s, unit) prog" where
  "mem_apply f = (\<lambda>e w. Done () (w\<lparr>mem := f (mem w)\<rparr>))"

text \<open>
  What a bus-mastering device has written becomes visible: the point at which the code
  reads memory the device may have changed. It is an event of the history, so that two such
  reads in a row may see different bytes.
\<close>

definition dma_sync :: "('s, unit) prog" where
  "dma_sync = (\<lambda>e w. Done () (w\<lparr>io := Sync # io w, mem := (\<lambda>a. case env_dma e (io w) a of
      None \<Rightarrow> mem w a | Some b \<Rightarrow> b)\<rparr>))"

definition dma_load32 :: "u32 \<Rightarrow> ('s, u32) prog" where
  "dma_load32 a = andthen dma_sync (load32 a)"

text \<open>16-bit cells, low byte first.\<close>

definition store16 :: "u32 \<Rightarrow> u16 \<Rightarrow> ('s, unit) prog" where
  "store16 a v = store_list a [ucast v, ucast (drop_bit 8 v)]"

definition load16 :: "u32 \<Rightarrow> ('s, u16) prog" where
  "load16 a = (\<lambda>e w. Done (ucast (mem w a) OR push_bit 8 (ucast (mem w (a + 1)))) w)"

section \<open>Loops\<close>

text \<open>
  \<^verbatim>\<open>for (i = start; ...; ++i)\<close> with a known number of iterations; the body returns
  \<open>Some r\<close> where the source returns or breaks out of the loop with \<open>r\<close>.
\<close>

fun for_until :: "nat \<Rightarrow> nat \<Rightarrow> (nat \<Rightarrow> ('s, 'r option) prog) \<Rightarrow> ('s, 'r option) prog" where
  "for_until i 0 body = ret None"
| "for_until i (Suc n) body =
     bind (body i) (\<lambda>r. case r of Some x \<Rightarrow> ret (Some x) | None \<Rightarrow> for_until (Suc i) n body)"

fun for_each :: "nat \<Rightarrow> nat \<Rightarrow> (nat \<Rightarrow> ('s, unit) prog) \<Rightarrow> ('s, unit) prog" where
  "for_each i 0 body = ret ()"
| "for_each i (Suc n) body = andthen (body i) (for_each (Suc i) n body)"

text \<open>A busy-wait loop: repeats its body until it returns \<open>Some\<close>.\<close>

fun poll_fuel :: "nat \<Rightarrow> ('s, 'r option) prog \<Rightarrow> ('s, 'r) prog" where
  "poll_fuel 0 body = (\<lambda>e w. Unfinished w)"
| "poll_fuel (Suc n) body = bind body (\<lambda>r. case r of Some x \<Rightarrow> ret x | None \<Rightarrow> poll_fuel n body)"

definition poll :: "('s, 'r option) prog \<Rightarrow> ('s, 'r) prog" where
  "poll body = (\<lambda>e w. poll_fuel (env_fuel e) body e w)"

section \<open>Running a component inside a larger state\<close>

definition zoom :: "('t \<Rightarrow> 's) \<Rightarrow> ('s \<Rightarrow> 't \<Rightarrow> 't) \<Rightarrow> ('s, 'a) prog \<Rightarrow> ('t, 'a) prog" where
  "zoom get upd m = (\<lambda>e w.
     let back = (\<lambda>w'. \<lparr>io = io w', mem = mem w', cpu_regs = cpu_regs w', vars = upd (vars w') (vars w)\<rparr>)
     in case m e \<lparr>io = io w, mem = mem w, cpu_regs = cpu_regs w, vars = get (vars w)\<rparr> of
          Done x w' \<Rightarrow> Done x (back w')
        | Panicked msg w' \<Rightarrow> Panicked msg (back w')
        | Unfinished w' \<Rightarrow> Unfinished (back w'))"

section \<open>Monad laws and evaluation\<close>

lemma bind_ret [simp]: "bind (ret x) f = f x"
  by (simp add: bind_def ret_def)

lemma bind_ret_right [simp]: "bind m ret = m"
  by (rule ext, rule ext) (simp add: bind_def ret_def split: outcome.split)

lemma bind_assoc: "bind (bind m f) g = bind m (\<lambda>x. bind (f x) g)"
  by (rule ext, rule ext) (simp add: bind_def split: outcome.split)

lemma bind_panic [simp]: "bind (panic msg) f = panic msg"
  by (simp add: bind_def panic_def)

lemma run_bind: "bind m f e w = (case m e w of
      Done x w' \<Rightarrow> f x e w' | Panicked msg w' \<Rightarrow> Panicked msg w' | Unfinished w' \<Rightarrow> Unfinished w')"
  by (simp add: bind_def)

lemma run_andthen: "andthen m n e w = (case m e w of
      Done x w' \<Rightarrow> n e w' | Panicked msg w' \<Rightarrow> Panicked msg w' | Unfinished w' \<Rightarrow> Unfinished w')"
  by (simp add: andthen_def bind_def)

lemma run_ret: "ret x e w = Done x w"
  by (simp add: ret_def)

lemma run_panic: "panic msg e w = Panicked msg w"
  by (simp add: panic_def)

lemma run_gets: "gets f e w = Done (f (vars w)) w"
  by (simp add: gets_def)

lemma run_modify: "modify f e w = Done () (w\<lparr>vars := f (vars w)\<rparr>)"
  by (simp add: modify_def)

lemma run_in8: "in8 p e w = Done (ucast (env_in e (io w) (Req_in8 p)))
    (w\<lparr>io := In8 p (ucast (env_in e (io w) (Req_in8 p))) # io w\<rparr>)"
  by (simp add: in8_def ask_def bind_def ret_def Let_def)

lemma run_in16: "in16 p e w = Done (ucast (env_in e (io w) (Req_in16 p)))
    (w\<lparr>io := In16 p (ucast (env_in e (io w) (Req_in16 p))) # io w\<rparr>)"
  by (simp add: in16_def ask_def bind_def ret_def Let_def)

lemma run_in32: "in32 p e w = Done (env_in e (io w) (Req_in32 p))
    (w\<lparr>io := In32 p (env_in e (io w) (Req_in32 p)) # io w\<rparr>)"
  by (simp add: in32_def ask_def Let_def)

lemma run_mmio_read: "mmio_read a e w = Done (env_in e (io w) (Req_mmio a))
    (w\<lparr>io := Mmio_read a (env_in e (io w) (Req_mmio a)) # io w\<rparr>)"
  by (simp add: mmio_read_def ask_def Let_def)

lemma run_tsc: "tsc e w = Done (env_in e (io w) Req_tsc)
    (w\<lparr>io := Tsc (env_in e (io w) Req_tsc) # io w\<rparr>)"
  by (simp add: tsc_def ask_def Let_def)

lemma run_kernel_call: "kernel_call f args e w = Done (env_in e (io w) (Req_call f args))
    (w\<lparr>io := Call f args (env_in e (io w) (Req_call f args)) # io w\<rparr>)"
  by (simp add: kernel_call_def ask_def Let_def)

lemma run_emit: "emit ev e w = Done () (w\<lparr>io := ev # io w\<rparr>)"
  by (simp add: emit_def)

lemma run_cond: "cond b m e w = (if b then m e w else Done () w)"
  by (simp add: cond_def ret_def)

lemma run_kassert_msg: "kassert_msg b msg e w = (if b then Done () w else Panicked msg w)"
  by (simp add: kassert_msg_def ret_def panic_def)

lemmas run_prims [prog_simps] =
  run_bind run_andthen run_ret run_panic run_gets run_modify run_in8 run_in16 run_in32
  run_mmio_read run_tsc run_kernel_call run_emit run_cond run_kassert_msg
  out8_def out16_def out32_def mmio_write_def fence_def
  irq_save_def irq_restore_def get_cpu_def
  load8_def load32_def load_list_def store8_def store32_def store_list_def dma_sync_def mem_apply_def
  dma_load32_def load16_def store16_def

section \<open>Safety: invariants kept by every run\<close>

text \<open>
  \<^verbatim>\<open>keeps e I K J m\<close>: in the environment \<open>e\<close>, from a world with \<open>I\<close>, a run that returns does so
  in a world with \<open>I\<close>, one that panics in a world with \<open>K\<close>, and one that is left waiting in a world
  with \<open>J\<close>. With all three the same this is an invariant of every run; with \<open>J\<close> false it says in
  addition that no run is left waiting.
\<close>

definition keeps :: "env \<Rightarrow> ('s world \<Rightarrow> bool) \<Rightarrow> ('s world \<Rightarrow> bool) \<Rightarrow> ('s world \<Rightarrow> bool) \<Rightarrow> ('s, 'a) prog \<Rightarrow> bool" where
  "keeps e I K J m \<longleftrightarrow> (\<forall>w. I w \<longrightarrow> (case m e w of
      Done x w' \<Rightarrow> I w' | Panicked msg w' \<Rightarrow> K w' | Unfinished w' \<Rightarrow> J w'))"

lemma keepsI: "(\<And>w. I w \<Longrightarrow> I (final (m e w))) \<Longrightarrow> keeps e I I I m"
  unfolding keeps_def by (metis final.simps outcome.case outcome.exhaust)

lemma keepsD: "keeps e I I I m \<Longrightarrow> I w \<Longrightarrow> I (final (m e w))"
  by (cases "m e w") (auto simp: keeps_def dest!: spec [of _ w])

lemma keeps_Done: "keeps e I K J m \<Longrightarrow> I w \<Longrightarrow> m e w = Done x w' \<Longrightarrow> I w'"
  by (auto simp: keeps_def dest!: spec [of _ w])

lemma keeps_finishes: "keeps e I K (\<lambda>_. False) m \<Longrightarrow> I w \<Longrightarrow> m e w \<noteq> Unfinished w'"
  by (auto simp: keeps_def dest!: spec [of _ w])

lemma keeps_ret [keeps_intros]: "keeps e I K J (ret x)"
  by (simp add: keeps_def ret_def)

lemma keeps_panic: "(\<And>w. I w \<Longrightarrow> K w) \<Longrightarrow> keeps e I K J (panic msg)"
  by (simp add: keeps_def panic_def)

lemma keeps_gets [keeps_intros]: "keeps e I K J (gets g)"
  by (simp add: keeps_def gets_def)

lemma keeps_loads [keeps_intros]:
  "keeps e I K J (load8 a)" "keeps e I K J (load16 a)" "keeps e I K J (load32 a)" "keeps e I K J (load_list a n)"
  "keeps e I K J (get_cpu h)"
  by (simp_all add: keeps_def load8_def load16_def load32_def load_list_def get_cpu_def)

lemma keeps_bind [keeps_intros]:
  assumes "keeps e I K J m" "\<And>x. keeps e I K J (f x)"
  shows "keeps e I K J (bind m f)"
  unfolding keeps_def
proof (intro allI impI)
  fix w
  assume "I w"
  then have m: "case m e w of Done x w' \<Rightarrow> I w' | Panicked msg w' \<Rightarrow> K w' | Unfinished w' \<Rightarrow> J w'"
    using assms(1) by (simp add: keeps_def)
  show "case bind m f e w of Done x w' \<Rightarrow> I w' | Panicked msg w' \<Rightarrow> K w' | Unfinished w' \<Rightarrow> J w'"
  proof (cases "m e w")
    case (Done x v)
    then show ?thesis using m assms(2) [of x] by (simp add: bind_def keeps_def)
  qed (use m in \<open>simp_all add: bind_def\<close>)
qed

lemma keeps_andthen [keeps_intros]: "keeps e I K J m \<Longrightarrow> keeps e I K J n \<Longrightarrow> keeps e I K J (andthen m n)"
  by (simp add: andthen_def keeps_bind)

lemma keeps_bind_gets:
  "(\<And>w. I w \<Longrightarrow> keeps e I K J (f (g (vars w)))) \<Longrightarrow> keeps e I K J (bind (gets g) f)"
  by (simp add: keeps_def bind_def gets_def)

lemma keeps_if [keeps_intros]:
  "(b \<Longrightarrow> keeps e I K J m) \<Longrightarrow> (\<not> b \<Longrightarrow> keeps e I K J n) \<Longrightarrow> keeps e I K J (if b then m else n)"
  by simp

lemma keeps_cond [keeps_intros]: "(b \<Longrightarrow> keeps e I K J m) \<Longrightarrow> keeps e I K J (cond b m)"
  by (simp add: cond_def keeps_ret)

lemma keeps_kassert: "(\<And>w. I w \<Longrightarrow> K w) \<Longrightarrow> keeps e I K J (kassert_msg b msg)"
  by (simp add: kassert_msg_def keeps_ret keeps_panic)

lemma keeps_case_option [keeps_intros]:
  "(x = None \<Longrightarrow> keeps e I K J m) \<Longrightarrow> (\<And>y. x = Some y \<Longrightarrow> keeps e I K J (f y)) \<Longrightarrow>
   keeps e I K J (case x of None \<Rightarrow> m | Some y \<Rightarrow> f y)"
  by (simp split: option.split)

lemma keeps_for_until [keeps_intros]:
  assumes "\<And>j. i \<le> j \<Longrightarrow> j < i + n \<Longrightarrow> keeps e I K J (body j)"
  shows "keeps e I K J (for_until i n body)"
  using assms
proof (induction n arbitrary: i)
  case (Suc n)
  have "keeps e I K J (for_until (Suc i) n body)" by (rule Suc.IH) (auto intro: Suc.prems)
  moreover have "keeps e I K J (body i)" by (rule Suc.prems) simp_all
  ultimately show ?case by (auto intro!: keeps_bind keeps_case_option keeps_ret)
qed (simp add: keeps_ret)

lemma keeps_for_each [keeps_intros]:
  assumes "\<And>j. i \<le> j \<Longrightarrow> j < i + n \<Longrightarrow> keeps e I K J (body j)"
  shows "keeps e I K J (for_each i n body)"
  using assms
proof (induction n arbitrary: i)
  case (Suc n)
  have "keeps e I K J (for_each (Suc i) n body)" by (rule Suc.IH) (auto intro: Suc.prems)
  moreover have "keeps e I K J (body i)" by (rule Suc.prems) simp_all
  ultimately show ?case by (auto intro!: keeps_andthen)
qed (simp add: keeps_ret)

lemma keeps_poll:
  assumes "keeps e I K J body" "\<And>w. I w \<Longrightarrow> J w"
  shows "keeps e I K J (poll body)"
proof -
  have "keeps e I K J (poll_fuel n body)" for n
  proof (induction n)
    case 0
    then show ?case using assms(2) by (simp add: keeps_def)
  next
    case (Suc n)
    then show ?case by (simp add: keeps_ret keeps_bind assms(1) split: option.split)
  qed
  then show ?thesis by (simp add: keeps_def poll_def)
qed

text \<open>A busy-wait loop whose body makes progress on a measure comes back before the fuel is spent.\<close>

lemma poll_fuel_finishes:
  fixes I K P :: "'s world \<Rightarrow> bool" and \<mu> :: "'s world \<Rightarrow> nat" and body :: "('s, 'r option) prog"
  assumes step: "\<And>v. P v \<Longrightarrow> case body e v of
      Done r v' \<Rightarrow> (case r of None \<Rightarrow> P v' \<and> \<mu> v' < \<mu> v | Some x \<Rightarrow> I v')
    | Panicked msg v' \<Rightarrow> K v' | Unfinished v' \<Rightarrow> False"
  shows "P w \<Longrightarrow> \<mu> w < n \<Longrightarrow> case poll_fuel n body e w of
      Done r w' \<Rightarrow> I w' | Panicked msg w' \<Rightarrow> K w' | Unfinished w' \<Rightarrow> False"
proof (induction n arbitrary: w)
  case (Suc n)
  show ?case
  proof (cases "body e w")
    case (Done r w')
    show ?thesis
    proof (cases r)
      case None
      then have "P w'" "\<mu> w' < n" using step [OF Suc.prems(1)] Done Suc.prems(2) by simp_all
      then show ?thesis using Suc.IH Done None by (simp add: run_bind)
    next
      case (Some x)
      then show ?thesis using step [OF Suc.prems(1)] Done by (simp add: run_bind run_ret)
    qed
  qed (use step [OF Suc.prems(1)] in \<open>simp_all add: run_bind\<close>)
qed simp

subsection \<open>Invariants of the event log\<close>

text \<open>\<^verbatim>\<open>emits P m\<close>: a run of \<open>m\<close> only adds events satisfying \<open>P\<close> to the history.\<close>

definition emits :: "(io_event \<Rightarrow> bool) \<Rightarrow> ('s, 'a) prog \<Rightarrow> bool" where
  "emits P m \<longleftrightarrow> (\<forall>e w. \<exists>new. io (final (m e w)) = new @ io w \<and> list_all P new)"

lemma emitsD: "emits P m \<Longrightarrow> \<exists>new. io (final (m e w)) = new @ io w \<and> list_all P new"
  by (simp add: emits_def)

lemma emits_ret [emits_intros]: "emits P (ret x)"
  by (simp add: emits_def ret_def)

lemma emits_panic [emits_intros]: "emits P (panic msg)"
  by (simp add: emits_def panic_def)

lemma emits_gets [emits_intros]: "emits P (gets f)"
  by (simp add: emits_def gets_def)

lemma emits_modify [emits_intros]: "emits P (modify f)"
  by (simp add: emits_def modify_def)

lemma emits_get_cpu [emits_intros]: "emits P (get_cpu f)"
  by (simp add: emits_def get_cpu_def)

lemma emits_irq [emits_intros]: "emits P irq_save" "emits P (irq_restore b)"
  by (simp_all add: emits_def irq_save_def irq_restore_def)

lemma emits_mem [emits_intros]:
  "emits P (load8 a)" "emits P (load32 a)" "emits P (load_list a n)" "emits P (store8 a b)"
  "emits P (store32 a v)" "emits P (store_list a bs)" "emits P (mem_apply h)"
  "emits P (load16 a)" "emits P (store16 a v16)"
  by (simp_all add: emits_def load8_def load32_def load_list_def store8_def store32_def
      store_list_def mem_apply_def load16_def store16_def)

lemma emits_dma_sync [emits_intros]: "P Sync \<Longrightarrow> emits P dma_sync"
  by (simp add: emits_def dma_sync_def)

lemma emits_bind [emits_intros]:
  assumes m: "emits P m" and f: "\<And>x. emits P (f x)"
  shows "emits P (bind m f)"
  unfolding emits_def
proof (intro allI)
  fix e and w :: "'a world"
  from m obtain new where new: "io (final (m e w)) = new @ io w" "list_all P new"
    by (meson emits_def)
  show "\<exists>new. io (final (bind m f e w)) = new @ io w \<and> list_all P new"
  proof (cases "m e w")
    case (Done x w')
    from f obtain more where "io (final (f x e w')) = more @ io w'" "list_all P more"
      by (meson emits_def)
    then show ?thesis
      using Done new by (intro exI [of _ "more @ new"]) (simp add: bind_def)
  qed (use new in \<open>auto simp: bind_def\<close>)
qed

lemma emits_andthen [emits_intros]: "emits P m \<Longrightarrow> emits P n \<Longrightarrow> emits P (andthen m n)"
  by (simp add: andthen_def emits_bind)

lemma emits_dma_load32 [emits_intros]: "P Sync \<Longrightarrow> emits P (dma_load32 a)"
  by (simp add: dma_load32_def emits_andthen emits_dma_sync emits_mem)

lemma emits_if [emits_intros]:
  "(b \<Longrightarrow> emits P m) \<Longrightarrow> (\<not> b \<Longrightarrow> emits P n) \<Longrightarrow> emits P (if b then m else n)"
  by simp

lemma emits_cond [emits_intros]: "(b \<Longrightarrow> emits P m) \<Longrightarrow> emits P (cond b m)"
  by (simp add: cond_def emits_ret)

lemma emits_kassert [emits_intros]: "emits P (kassert_msg b msg)"
  by (simp add: kassert_msg_def emits_ret emits_panic)

lemma emits_case_option [emits_intros]:
  "(x = None \<Longrightarrow> emits P m) \<Longrightarrow> (\<And>y. x = Some y \<Longrightarrow> emits P (f y)) \<Longrightarrow>
   emits P (case x of None \<Rightarrow> m | Some y \<Rightarrow> f y)"
  by (simp split: option.split)

lemma emits_emit: "P ev \<Longrightarrow> emits P (emit ev)"
  by (simp add: emits_def emit_def)

lemma emits_out [emits_intros]:
  "P (Out8 p v8) \<Longrightarrow> emits P (out8 p v8)" "P (Out16 p v16) \<Longrightarrow> emits P (out16 p v16)"
  "P (Out32 p v32) \<Longrightarrow> emits P (out32 p v32)" "P (Mmio_write a v32) \<Longrightarrow> emits P (mmio_write a v32)"
  "P Fence \<Longrightarrow> emits P fence"
  by (simp_all add: out8_def out16_def out32_def mmio_write_def fence_def emits_emit)

lemma emits_ask: "(\<And>v. P (ev v)) \<Longrightarrow> emits P (ask req ev)"
  by (simp add: emits_def ask_def Let_def)

lemma emits_in [emits_intros]:
  "(\<And>v. P (In8 p v)) \<Longrightarrow> emits P (in8 p)" "(\<And>v. P (In16 p v)) \<Longrightarrow> emits P (in16 p)"
  "(\<And>v. P (In32 p v)) \<Longrightarrow> emits P (in32 p)" "(\<And>v. P (Mmio_read a v)) \<Longrightarrow> emits P (mmio_read a)"
  "(\<And>v. P (Tsc v)) \<Longrightarrow> emits P tsc" "(\<And>v. P (Call f args v)) \<Longrightarrow> emits P (kernel_call f args)"
  by (simp_all add: in8_def in16_def in32_def mmio_read_def tsc_def kernel_call_def
      emits_ask emits_bind emits_ret)

lemma emits_for_until [emits_intros]:
  assumes "\<And>i. emits P (body i)"
  shows "emits P (for_until i n body)"
  by (induction n arbitrary: i) (simp_all add: emits_ret emits_bind assms split: option.split)

lemma emits_for_each [emits_intros]:
  assumes "\<And>i. emits P (body i)"
  shows "emits P (for_each i n body)"
  by (induction n arbitrary: i) (simp_all add: emits_ret emits_andthen assms)

lemma emits_poll [emits_intros]:
  assumes "emits P body"
  shows "emits P (poll body)"
proof -
  have "emits P (poll_fuel n body)" for n
  proof (induction n)
    case 0
    then show ?case by (simp add: emits_def)
  next
    case (Suc n)
    then show ?case by (simp add: emits_ret emits_bind assms split: option.split)
  qed
  then show ?thesis by (simp add: emits_def poll_def)
qed

lemma emits_zoom [emits_intros]:
  assumes "emits P m"
  shows "emits P (zoom get upd m)"
  unfolding emits_def
proof (intro allI)
  fix e and w :: "'c world"
  let ?v = "\<lparr>io = io w, mem = mem w, cpu_regs = cpu_regs w, vars = get (vars w)\<rparr>"
  from assms have "\<exists>new. io (final (m e ?v)) = new @ io ?v \<and> list_all P new"
    by (meson emits_def)
  then show "\<exists>new. io (final (zoom get upd m e w)) = new @ io w \<and> list_all P new"
    by (cases "m e ?v") (simp_all add: zoom_def Let_def)
qed

lemma emits_mono: "emits P m \<Longrightarrow> (\<And>x. P x \<Longrightarrow> Q x) \<Longrightarrow> emits Q m"
  by (auto simp: emits_def list_all_iff; metis list_all_iff)

section \<open>Runs that always come back\<close>

text \<open>\<^verbatim>\<open>ends m\<close>: no run of \<open>m\<close> is left in a busy-wait loop.\<close>

definition ends :: "('s, 'a) prog \<Rightarrow> bool" where
  "ends m \<longleftrightarrow> (\<forall>e w. \<forall>w'. m e w \<noteq> Unfinished w')"

lemma ends_prims [ends_intros]:
  "ends (ret x)" "ends (panic msg)" "ends (gets f)" "ends (modify g)" "ends (get_cpu h)"
  "ends irq_save" "ends (irq_restore b)" "ends (in8 p)" "ends (in16 p)" "ends (in32 p)"
  "ends (out8 p v8)" "ends (out16 p v16)" "ends (out32 p v32)" "ends (mmio_read a)"
  "ends (mmio_write a v32)" "ends tsc" "ends fence" "ends (kernel_call fn args)"
  "ends (load8 a)" "ends (load32 a)" "ends (load_list a n)" "ends (store8 a v8)"
  "ends (store32 a v32)" "ends (store_list a bs)" "ends dma_sync" "ends (mem_apply mf)"
  "ends (dma_load32 a)" "ends (load16 a)" "ends (store16 a v16)" "ends (kassert_msg c msg)"
  by (simp_all add: ends_def prog_simps)

lemma ends_bind [ends_intros]: "ends m \<Longrightarrow> (\<And>x. ends (f x)) \<Longrightarrow> ends (bind m f)"
  by (auto simp: ends_def bind_def split: outcome.splits)

lemma ends_andthen [ends_intros]: "ends m \<Longrightarrow> ends n \<Longrightarrow> ends (andthen m n)"
  by (simp add: andthen_def ends_bind)

lemma ends_if [ends_intros]: "(b \<Longrightarrow> ends m) \<Longrightarrow> (\<not> b \<Longrightarrow> ends n) \<Longrightarrow> ends (if b then m else n)"
  by simp

lemma ends_cond [ends_intros]: "(b \<Longrightarrow> ends m) \<Longrightarrow> ends (cond b m)"
  by (simp add: cond_def ends_prims)

lemma ends_case_option [ends_intros]:
  "(x = None \<Longrightarrow> ends m) \<Longrightarrow> (\<And>y. x = Some y \<Longrightarrow> ends (f y)) \<Longrightarrow>
   ends (case x of None \<Rightarrow> m | Some y \<Rightarrow> f y)"
  by (simp split: option.split)

lemma ends_for_until [ends_intros]:
  assumes "\<And>i. ends (body i)"
  shows "ends (for_until i n body)"
  by (induction n arbitrary: i) (simp_all add: ends_prims ends_bind assms split: option.split)

lemma ends_for_each [ends_intros]:
  assumes "\<And>i. ends (body i)"
  shows "ends (for_each i n body)"
  by (induction n arbitrary: i) (simp_all add: ends_prims ends_andthen assms)

text \<open>\<^verbatim>\<open>returns m\<close>: every run of \<open>m\<close> returns a value; none panics or hangs.\<close>

definition returns :: "('s, 'a) prog \<Rightarrow> bool" where
  "returns m \<longleftrightarrow> (\<forall>e w. \<exists>x w'. m e w = Done x w')"

lemma returnsD: "returns m \<Longrightarrow> \<exists>x w'. m e w = Done x w'"
  by (simp add: returns_def)

lemma returns_prims [returns_intros]:
  "returns (ret x)" "returns (gets f)" "returns (modify g)" "returns (get_cpu h)"
  "returns irq_save" "returns (irq_restore b)" "returns (in8 p)" "returns (in16 p)" "returns (in32 p)"
  "returns (out8 p v8)" "returns (out16 p v16)" "returns (out32 p v32)" "returns (mmio_read a)"
  "returns (mmio_write a v32)" "returns tsc" "returns fence" "returns (kernel_call fn args)"
  "returns (load8 a)" "returns (load32 a)" "returns (load_list a n)" "returns (store8 a v8)"
  "returns (store32 a v32)" "returns (store_list a bs)" "returns dma_sync" "returns (mem_apply mf)"
  "returns (dma_load32 a)" "returns (load16 a)" "returns (store16 a v16)"
  by (simp_all add: returns_def prog_simps)

lemma returns_bind [returns_intros]:
  assumes "returns m" "\<And>x. returns (f x)"
  shows "returns (bind m f)"
  unfolding returns_def
proof (intro allI)
  fix e w
  obtain x w' where "m e w = Done x w'" using assms(1) by (meson returns_def)
  moreover obtain y w'' where "f x e w' = Done y w''" using assms(2) by (meson returns_def)
  ultimately show "\<exists>y w'. bind m f e w = Done y w'" by (simp add: bind_def)
qed

lemma returns_andthen [returns_intros]: "returns m \<Longrightarrow> returns n \<Longrightarrow> returns (andthen m n)"
  by (simp add: andthen_def returns_bind)

lemma returns_if [returns_intros]:
  "(b \<Longrightarrow> returns m) \<Longrightarrow> (\<not> b \<Longrightarrow> returns n) \<Longrightarrow> returns (if b then m else n)"
  by simp

lemma returns_cond [returns_intros]: "(b \<Longrightarrow> returns m) \<Longrightarrow> returns (cond b m)"
  by (simp add: cond_def returns_prims)

lemma returns_case_option [returns_intros]:
  "(x = None \<Longrightarrow> returns m) \<Longrightarrow> (\<And>y. x = Some y \<Longrightarrow> returns (f y)) \<Longrightarrow>
   returns (case x of None \<Rightarrow> m | Some y \<Rightarrow> f y)"
  by (simp split: option.split)

lemma returns_for_until [returns_intros]:
  assumes "\<And>i. returns (body i)"
  shows "returns (for_until i n body)"
  by (induction n arbitrary: i) (simp_all add: returns_prims returns_bind assms split: option.split)

lemma returns_for_each [returns_intros]:
  assumes "\<And>i. returns (body i)"
  shows "returns (for_each i n body)"
  by (induction n arbitrary: i) (simp_all add: returns_prims returns_andthen assms)

section \<open>A concrete machine\<close>

text \<open>An environment that answers 0 to everything, and a world with an empty history.\<close>

definition null_env :: env where
  "null_env = \<lparr>env_in = (\<lambda>_ _. 0), env_dma = (\<lambda>_ _. None), env_fuel = 0\<rparr>"

definition start_world :: "'s \<Rightarrow> 's world" where
  "start_world v = \<lparr>io = [], mem = (\<lambda>_. 0),
     cpu_regs = \<lparr>cpu_if = False, cpu_cs = 8, cpu_cr3 = 0, cpu_tr = 0, cpu_ldtr = 0\<rparr>, vars = v\<rparr>"

lemma start_world_simps [simp]:
  "vars (start_world v) = v" "io (start_world v) = []" "mem (start_world v) = (\<lambda>_. 0)"
  by (simp_all add: start_world_def)

end
