(* ===== verification/Boot_Image.thy ===== *)
theory Boot_Image
  imports Machine
begin

text \<open>
  The pure half of \<^verbatim>\<open>Boot/BootStorage.c\<close> (lines 1 to 82 and the byte-order helpers):
  the whitelist of SCSI commands, the CRC-32 of the kernel payloads, the boot manifest and the
  parser of USB configuration descriptors, whose every read is bounds-checked here.
\<close>

section \<open>The command whitelist\<close>

definition storage_read_cdb_valid :: "u8 list option \<Rightarrow> u32 \<Rightarrow> u32 \<Rightarrow> bool" where
  "storage_read_cdb_valid command command_size bytes =
     (case command of None \<Rightarrow> False
      | Some c \<Rightarrow>
          if command_size = 6 \<and> c ! 0 = 0x00 then bytes = 0
          else if command_size = 6 \<and> c ! 0 = 0x03 then bytes = 18 \<and> c ! 4 = 18
          else if command_size = 10 \<and> c ! 0 = 0x25 then bytes = 8
          else if command_size = 10 \<and> c ! 0 = 0x28 then
            (let blocks = push_bit 8 (ucast (c ! 7)) OR ucast (c ! 8) :: u32
             in blocks > 0 \<and> blocks \<le> 32 \<and> bytes = blocks * 512)
          else False)"

definition be32 :: "u8 list \<Rightarrow> u32" where
  "be32 b = push_bit 24 (ucast (b ! 0)) OR push_bit 16 (ucast (b ! 1)) OR
     push_bit 8 (ucast (b ! 2)) OR ucast (b ! 3)"

definition put_be32 :: "u32 \<Rightarrow> u8 list" where
  "put_be32 value = [ucast (drop_bit 24 value), ucast (drop_bit 16 value),
     ucast (drop_bit 8 value), ucast value]"

section \<open>CRC-32\<close>

definition crc_bit :: "u32 \<Rightarrow> u32" where
  "crc_bit crc = drop_bit 1 crc XOR (0xEDB88320 AND (0 - (crc AND 1)))"

definition crc_byte :: "u8 \<Rightarrow> u32 \<Rightarrow> u32" where
  "crc_byte b crc = (crc_bit ^^ 8) (crc XOR ucast b)"

definition crc_bytes :: "u8 list \<Rightarrow> u32" where
  "crc_bytes bs = NOT (fold crc_byte bs 0xFFFFFFFF)"

definition boot_crc32 :: "(u32 \<Rightarrow> u8) \<Rightarrow> u32 \<Rightarrow> u32 \<Rightarrow> u32" where
  "boot_crc32 m memory extent = crc_bytes (mem_load_list m memory (unat extent))"

section \<open>The manifest\<close>

record boot_manifest =
  magic :: "u32 list"
  version :: u32
  setup_sectors :: u32
  high_lba :: u32
  high_sectors :: u32
  high_crc :: u32
  interrupts_lba :: u32
  interrupts_sectors :: u32
  interrupts_crc :: u32

definition boot_manifest_valid :: "boot_manifest \<Rightarrow> bool" where
  "boot_manifest_valid m \<longleftrightarrow>
     magic m ! 0 = 0x4253554E \<and> magic m ! 1 = 0x544F4F42 \<and> version m = 1 \<and> setup_sectors m = 64 \<and>
     high_lba m = 65 \<and> high_sectors m = 256 \<and> interrupts_lba m = 321 \<and> interrupts_sectors m = 2049"

section \<open>USB configuration descriptors\<close>

record usb_storage_interface =
  configuration :: u8
  interface_number :: u8
  bulk_in :: u8
  bulk_out :: u8

text \<open>
  A read past the buffer is \<open>None\<close>. The parser returns \<open>Some None\<close> where the source
  returns 0 and \<open>Some (Some r)\<close> where it stores \<open>r\<close> and returns 1. Offsets are natural
  numbers: the header test bounds the size by 65535, so no addition of the source wraps.
\<close>

definition rd :: "u8 list \<Rightarrow> nat \<Rightarrow> u8 option" where
  "rd data i = (if i < length data then Some (data ! i) else None)"

definition le16 :: "u8 \<Rightarrow> u8 \<Rightarrow> nat" where
  "le16 lo hi = unat lo + 256 * unat hi"

text \<open>One descriptor: \<open>Inl r\<close> returns from the function, \<open>Inr\<close> goes on.\<close>

definition parse_interface :: "u8 list \<Rightarrow> nat \<Rightarrow> nat \<Rightarrow> usb_storage_interface \<Rightarrow> bool \<Rightarrow>
    (usb_storage_interface option + usb_storage_interface \<times> bool) option" where
  "parse_interface data offset len candidate storage =
     (if len < 9 then Some (Inl None)
      else if storage \<and> bulk_in candidate \<noteq> 0 \<and> bulk_out candidate \<noteq> 0 then Some (Inl (Some candidate))
      else Option.bind (rd data (offset + 2)) (\<lambda>d2. Option.bind (rd data (offset + 3)) (\<lambda>d3.
           Option.bind (rd data (offset + 4)) (\<lambda>d4. Option.bind (rd data (offset + 5)) (\<lambda>d5.
           Option.bind (rd data (offset + 6)) (\<lambda>d6. Option.bind (rd data (offset + 7)) (\<lambda>d7.
             Some (Inr (candidate\<lparr>interface_number := d2, bulk_in := 0, bulk_out := 0\<rparr>,
                        d3 = 0 \<and> d4 = 2 \<and> d5 = 8 \<and> d6 = 6 \<and> d7 = 0x50)))))))))"

definition endpoint_step :: "u8 \<Rightarrow> u8 \<Rightarrow> nat \<Rightarrow> usb_storage_interface \<Rightarrow>
    usb_storage_interface option + usb_storage_interface \<times> bool" where
  "endpoint_step d2 d3 packet candidate =
     (if d3 AND 3 \<noteq> 2 \<or> d2 AND 15 = 0 \<or> d2 AND 0x70 \<noteq> 0 \<or> packet \<noteq> 512 then Inl None
      else if d2 AND 0x80 \<noteq> 0 then
        (if bulk_in candidate \<noteq> 0 then Inl None else Inr (candidate\<lparr>bulk_in := d2\<rparr>, True))
      else
        (if bulk_out candidate \<noteq> 0 then Inl None else Inr (candidate\<lparr>bulk_out := d2\<rparr>, True)))"

definition parse_endpoint :: "u8 list \<Rightarrow> nat \<Rightarrow> nat \<Rightarrow> usb_storage_interface \<Rightarrow>
    (usb_storage_interface option + usb_storage_interface \<times> bool) option" where
  "parse_endpoint data offset len candidate =
     (if len < 7 then Some (Inl None)
      else Option.bind (rd data (offset + 2)) (\<lambda>d2. Option.bind (rd data (offset + 3)) (\<lambda>d3.
           Option.bind (rd data (offset + 4)) (\<lambda>d4. Option.bind (rd data (offset + 5)) (\<lambda>d5.
             Some (endpoint_step d2 d3 (le16 d4 d5) candidate))))))"

definition parse_descriptor :: "u8 list \<Rightarrow> nat \<Rightarrow> nat \<Rightarrow> usb_storage_interface \<Rightarrow> bool \<Rightarrow>
    (usb_storage_interface option + usb_storage_interface \<times> bool) option" where
  "parse_descriptor data offset len candidate storage =
     Option.bind (rd data (offset + 1)) (\<lambda>kind.
       if kind = 4 then parse_interface data offset len candidate storage
       else if kind = 5 \<and> storage then parse_endpoint data offset len candidate
       else Some (Inr (candidate, storage)))"

function parse_from :: "u8 list \<Rightarrow> nat \<Rightarrow> nat \<Rightarrow> usb_storage_interface \<Rightarrow> bool \<Rightarrow>
    usb_storage_interface option option" where
  "parse_from data extent offset candidate storage =
     (if offset < extent then
        (case rd data offset of
           None \<Rightarrow> None
         | Some b \<Rightarrow>
             let len = unat b
             in if len < 2 \<or> len > extent - offset then Some None
                else (case parse_descriptor data offset len candidate storage of
                        None \<Rightarrow> None
                      | Some (Inl r) \<Rightarrow> Some r
                      | Some (Inr (candidate1, storage1)) \<Rightarrow>
                          parse_from data extent (offset + len) candidate1 storage1))
      else Some (if \<not> storage \<or> bulk_in candidate = 0 \<or> bulk_out candidate = 0 then None
                 else Some candidate))"
  by pat_completeness auto
termination
  by (relation "measure (\<lambda>(data, extent, offset, c, s). extent - offset)") auto

declare parse_from.simps [simp del]

definition boot_parse_usb_configuration :: "u8 list \<Rightarrow> nat \<Rightarrow> usb_storage_interface option option" where
  "boot_parse_usb_configuration data extent =
     (if extent < 9 then Some None
      else Option.bind (rd data 0) (\<lambda>d0. Option.bind (rd data 1) (\<lambda>d1.
           Option.bind (rd data 2) (\<lambda>d2. Option.bind (rd data 3) (\<lambda>d3.
           Option.bind (rd data 5) (\<lambda>d5.
             if d0 \<noteq> 9 \<or> d1 \<noteq> 2 \<or> le16 d2 d3 \<noteq> extent \<or> d5 = 0 then Some None
             else parse_from data extent 9
               \<lparr>configuration = d5, interface_number = 0, bulk_in = 0, bulk_out = 0\<rparr> False))))))"

section \<open>CRC lemmas\<close>

lemma crc_mask: "(0 :: u32) - (c AND 1) = (if bit c 0 then - 1 else 0)"
  by (simp add: and_one_eq bit_0 mod2_eq_if)

lemma crc_bit_xor: "crc_bit (a XOR b) = crc_bit a XOR crc_bit b"
  unfolding crc_bit_def crc_mask
  by (intro bit_word_eqI) (auto simp: bit_simps)

lemma crc_bit_top: "bit (crc_bit c) 31 = bit c 0"
  unfolding crc_bit_def crc_mask by (auto simp: bit_simps dest: bit_imp_le_length)

lemma crc_bit_even: "\<not> bit c 0 \<Longrightarrow> crc_bit c = drop_bit 1 c"
  unfolding crc_bit_def crc_mask by simp

lemma crc_bit_eq_0: "crc_bit c = 0 \<Longrightarrow> c = 0"
proof -
  assume z: "crc_bit c = 0"
  then have b0: "\<not> bit c 0" using crc_bit_top [of c] by simp
  then have d: "drop_bit 1 c = 0" using z crc_bit_even by simp
  have "\<not> bit c n" for n
  proof (cases n)
    case (Suc m)
    have "bit (drop_bit 1 c) m = bit c (1 + m)" by (simp only: bit_drop_bit_eq comp_def)
    then show ?thesis using d Suc by simp
  qed (simp add: b0)
  then show "c = 0" by (simp add: bit_eq_iff)
qed

text \<open>The shift register is linear and loses nothing.\<close>

lemma crc_bits_xor: "(crc_bit ^^ n) (a XOR b) = (crc_bit ^^ n) a XOR (crc_bit ^^ n) b"
  by (induction n) (simp_all add: crc_bit_xor)

lemma xor_eq_0_iff: "(a :: u32) XOR b = 0 \<longleftrightarrow> a = b"
  by (metis xor.assoc xor_self_eq xor.left_neutral xor.right_neutral)

lemma xor_cancel: "(c :: u32) XOR a = c XOR b \<Longrightarrow> a = b"
proof -
  assume "c XOR a = c XOR b"
  then have "(c XOR c) XOR a = (c XOR c) XOR b" by (simp only: xor.assoc)
  then show "a = b" by simp
qed

lemma crc_bits_inj: "(crc_bit ^^ n) a = (crc_bit ^^ n) b \<Longrightarrow> a = b"
proof -
  have z: "(crc_bit ^^ n) c = 0 \<Longrightarrow> c = 0" for c by (induction n) (auto dest: crc_bit_eq_0)
  assume "(crc_bit ^^ n) a = (crc_bit ^^ n) b"
  then have "(crc_bit ^^ n) (a XOR b) = 0" by (simp add: crc_bits_xor)
  then show "a = b" using z xor_eq_0_iff by blast
qed

lemma crc_byte_inj: "crc_byte b c = crc_byte b d \<Longrightarrow> c = d"
proof -
  assume "crc_byte b c = crc_byte b d"
  then have "c XOR ucast b = d XOR ucast b" unfolding crc_byte_def by (rule crc_bits_inj)
  then have "ucast b XOR c = ucast b XOR d" by (simp only: xor.commute [of "ucast b"])
  then show "c = d" by (rule xor_cancel)
qed

lemma crc_fold_inj: "fold crc_byte bs c = fold crc_byte bs d \<Longrightarrow> c = d"
  by (induction bs arbitrary: c d) (auto dest: crc_byte_inj)

lemma drop_push_byte:
  assumes "m < 24"
  shows "drop_bit 1 (push_bit (Suc m) (ucast (b :: u8)) :: u32) = push_bit m (ucast b)"
proof (rule bit_word_eqI)
  fix j
  have "bit b (j - m) \<Longrightarrow> j - m < 8" by (auto dest: bit_imp_le_length)
  then show "bit (drop_bit 1 (push_bit (Suc m) (ucast b) :: u32)) j = bit (push_bit m (ucast b) :: u32) j"
    using assms by (auto simp: bit_drop_bit_eq bit_push_bit_iff bit_unsigned_iff simp del: push_bit_Suc)
qed

text \<open>Bytes that wait above the low one move down unchanged while zeros are shifted out.\<close>

lemma crc_bits_shift: "n \<le> k \<Longrightarrow> k \<le> 24 \<Longrightarrow> (crc_bit ^^ n) (push_bit k (ucast (b :: u8))) = push_bit (k - n) (ucast b)"
proof (induction n)
  case (Suc n)
  let ?x = "push_bit (k - n) (ucast b) :: u32"
  have "\<not> bit ?x 0" using Suc.prems by (simp add: bit_push_bit_iff)
  then have "crc_bit ?x = drop_bit 1 ?x" by (rule crc_bit_even)
  also have "\<dots> = push_bit (k - Suc n) (ucast b)"
    using drop_push_byte [of "k - Suc n" b] Suc.prems by (simp add: Suc_diff_Suc)
  finally show ?case using Suc by simp
qed simp

fun le_word :: "u8 list \<Rightarrow> nat \<Rightarrow> u32" where
  "le_word [] k = 0"
| "le_word (b # bs) k = push_bit k (ucast b) XOR le_word bs (k + 8)"

lemma crc_bits_le_word:
  assumes "k + 8 * length bs \<le> 32" "8 \<le> k"
  shows "(crc_bit ^^ 8) (le_word bs k) = le_word bs (k - 8)"
  using assms
proof (induction bs arbitrary: k)
  case Nil
  then show ?case by (simp add: crc_bit_def numeral_eq_Suc)
next
  case (Cons b bs)
  have "(crc_bit ^^ 8) (push_bit k (ucast b)) = push_bit (k - 8) (ucast b)"
    by (rule crc_bits_shift) (use Cons.prems in auto)
  moreover have "(crc_bit ^^ 8) (le_word bs (k + 8)) = le_word bs (k - 8 + 8)"
    using Cons.IH [of "k + 8"] Cons.prems by simp
  ultimately show ?case by (simp only: le_word.simps crc_bits_xor)
qed

text \<open>Up to four bytes act on the register as one word.\<close>

lemma crc_fold_word:
  assumes "length bs \<le> 4"
  shows "fold crc_byte bs c = (crc_bit ^^ (8 * length bs)) (c XOR le_word bs 0)"
  using assms
proof (induction bs arbitrary: c)
  case (Cons b bs)
  have w: "(crc_bit ^^ 8) (le_word bs 8) = le_word bs 0"
    using crc_bits_le_word [of 8 bs] Cons.prems by simp
  have "fold crc_byte (b # bs) c = (crc_bit ^^ (8 * length bs)) (crc_byte b c XOR le_word bs 0)"
    using Cons by simp
  also have "crc_byte b c XOR le_word bs 0 = (crc_bit ^^ 8) ((c XOR ucast b) XOR le_word bs 8)"
    by (simp only: crc_byte_def crc_bits_xor w)
  also have "(c XOR ucast b) XOR le_word bs 8 = c XOR le_word (b # bs) 0" by (simp add: xor.assoc)
  finally show ?case by (simp only: length_Cons mult_Suc_right funpow_add comp_def add.commute [of 8])
qed simp

lemma le_word_bit:
  "k + 8 * length bs \<le> 32 \<Longrightarrow> i < length bs \<Longrightarrow> j < 8 \<Longrightarrow> bit (le_word bs k) (k + 8 * i + j) = bit (bs ! i) j"
proof (induction bs arbitrary: k i)
  case (Cons b bs)
  have low: "\<not> bit (le_word cs m) n" if "n < m" for cs m n
    using that by (induction cs arbitrary: m) (simp_all add: bit_simps)
  show ?case
  proof (cases i)
    case 0
    then show ?thesis using Cons.prems low [of "k + j" "k + 8" bs] by (simp add: bit_simps)
  next
    case (Suc m)
    have "\<not> bit (ucast b :: u32) (8 * i + j)" using Suc by (auto simp: bit_simps dest: bit_imp_le_length)
    then show ?thesis
      using Suc Cons.IH [of "k + 8" m] Cons.prems by (simp add: bit_simps algebra_simps)
  qed
qed simp

lemma le_word_inj:
  assumes "length xs = length ys" "length xs \<le> 4" "le_word xs 0 = le_word ys 0"
  shows "xs = ys"
proof (rule nth_equalityI)
  fix i assume i: "i < length xs"
  show "xs ! i = ys ! i"
  proof (rule bit_word_eqI)
    fix j assume "j < LENGTH(8)"
    then show "bit (xs ! i) j = bit (ys ! i) j"
      using le_word_bit [of 0 xs i j] le_word_bit [of 0 ys i j] assms i by simp
  qed
qed (rule assms(1))

section \<open>Parser lemmas\<close>

lemma rd_Some: "i < length data \<Longrightarrow> rd data i = Some (data ! i)"
  by (simp add: rd_def)

lemma parse_descriptor_safe:
  assumes "offset + len \<le> length data" "2 \<le> len"
  shows "parse_descriptor data offset len candidate storage \<noteq> None"
  using assms by (auto simp: parse_descriptor_def parse_interface_def parse_endpoint_def rd_Some)

lemma parse_from_safe:
  "extent \<le> length data \<Longrightarrow> parse_from data extent offset candidate storage \<noteq> None"
proof (induction data extent offset candidate storage rule: parse_from.induct)
  case (1 data extent offset candidate storage)
  show ?case
  proof (cases "offset < extent \<and> 2 \<le> unat (data ! offset) \<and> unat (data ! offset) \<le> extent - offset")
    case False
    then show ?thesis using "1.prems" by (subst parse_from.simps) (auto simp: rd_Some Let_def not_le not_less)
  next
    case True
    let ?len = "unat (data ! offset)"
    have r: "rd data offset = Some (data ! offset)" using True "1.prems" by (simp add: rd_Some)
    obtain x where x: "parse_descriptor data offset ?len candidate storage = Some x"
      using parse_descriptor_safe [of offset ?len data candidate storage] True "1.prems" by fastforce
    show ?thesis
    proof (cases x)
      case (Inl y)
      then show ?thesis using True r x by (subst parse_from.simps) (simp add: Let_def)
    next
      case (Inr p)
      then obtain c s where p: "x = Inr (c, s)" by (cases p) auto
      have "parse_from data extent (offset + ?len) c s \<noteq> None"
        using "1.IH" [OF _ r _ _ x p refl] True "1.prems" by simp
      then show ?thesis using True r x p by (subst parse_from.simps) (simp add: Let_def)
    qed
  qed
qed

text \<open>What is known of the candidate between descriptors.\<close>

definition endpoint_in_ok :: "u8 \<Rightarrow> bool" where
  "endpoint_in_ok b \<longleftrightarrow> b AND 0x80 \<noteq> 0 \<and> b AND 15 \<noteq> 0 \<and> b AND 0x70 = 0"

definition endpoint_out_ok :: "u8 \<Rightarrow> bool" where
  "endpoint_out_ok b \<longleftrightarrow> b AND 0x80 = 0 \<and> b AND 15 \<noteq> 0 \<and> b AND 0x70 = 0"

definition candidate_ok :: "u8 \<Rightarrow> usb_storage_interface \<Rightarrow> bool" where
  "candidate_ok config c \<longleftrightarrow> configuration c = config \<and>
     (bulk_in c \<noteq> 0 \<longrightarrow> endpoint_in_ok (bulk_in c)) \<and> (bulk_out c \<noteq> 0 \<longrightarrow> endpoint_out_ok (bulk_out c))"

definition interface_ok :: "u8 \<Rightarrow> usb_storage_interface \<Rightarrow> bool" where
  "interface_ok config c \<longleftrightarrow> configuration c = config \<and> endpoint_in_ok (bulk_in c) \<and> endpoint_out_ok (bulk_out c)"

definition step_ok :: "u8 \<Rightarrow> usb_storage_interface option + usb_storage_interface \<times> bool \<Rightarrow> bool" where
  "step_ok config x = (case x of Inl None \<Rightarrow> True | Inl (Some r) \<Rightarrow> interface_ok config r
     | Inr (c, s) \<Rightarrow> candidate_ok config c)"

lemma parse_interface_ok:
  assumes "candidate_ok config candidate" "parse_interface data offset len candidate storage = Some x"
  shows "step_ok config x"
proof -
  consider "x = Inl None" | "x = Inl (Some candidate)" "bulk_in candidate \<noteq> 0" "bulk_out candidate \<noteq> 0"
    | n st where "x = Inr (candidate\<lparr>interface_number := n, bulk_in := 0, bulk_out := 0\<rparr>, st)"
    using assms(2) unfolding parse_interface_def by (auto simp: bind_eq_Some_conv split: if_splits)
  then show ?thesis
    using assms(1) by cases (simp_all add: step_ok_def candidate_ok_def interface_ok_def)
qed

lemma endpoint_step_ok:
  assumes "candidate_ok config candidate"
  shows "step_ok config (endpoint_step d2 d3 packet candidate)"
proof (cases "d3 AND 3 \<noteq> 2 \<or> d2 AND 15 = 0 \<or> d2 AND 0x70 \<noteq> 0 \<or> packet \<noteq> 512")
  case True
  then show ?thesis by (simp add: endpoint_step_def step_ok_def)
next
  case False
  then show ?thesis
    using assms by (cases "d2 AND 0x80 = 0")
      (simp_all add: endpoint_step_def step_ok_def candidate_ok_def endpoint_in_ok_def endpoint_out_ok_def)
qed

lemma parse_endpoint_ok:
  assumes "candidate_ok config candidate" "parse_endpoint data offset len candidate = Some x"
  shows "step_ok config x"
  using assms(2) endpoint_step_ok [OF assms(1)]
  by (auto simp: parse_endpoint_def bind_eq_Some_conv step_ok_def [of _ "Inl None"] split: if_splits)

lemma parse_descriptor_ok:
  assumes "candidate_ok config candidate" "parse_descriptor data offset len candidate storage = Some x"
  shows "step_ok config x"
  using assms parse_interface_ok [OF assms(1)] parse_endpoint_ok [OF assms(1)]
  by (auto simp: parse_descriptor_def bind_eq_Some_conv step_ok_def [of _ "Inr _"] split: if_splits)

lemma parse_from_ok:
  "candidate_ok config candidate \<Longrightarrow> parse_from data extent offset candidate storage = Some (Some r) \<Longrightarrow>
   interface_ok config r"
proof (induction data extent offset candidate storage rule: parse_from.induct)
  case (1 data extent offset candidate storage)
  show ?case
  proof (cases "offset < extent")
    case False
    then show ?thesis using "1.prems"
      by (subst (asm) parse_from.simps) (auto simp: candidate_ok_def interface_ok_def split: if_splits)
  next
    case True
    then obtain b x where b: "rd data offset = Some b" "\<not> (unat b < 2 \<or> unat b > extent - offset)"
      and x: "parse_descriptor data offset (unat b) candidate storage = Some x"
      and y: "case x of Inl r' \<Rightarrow> r' = Some r | Inr (c, s) \<Rightarrow> parse_from data extent (offset + unat b) c s = Some (Some r)"
      using "1.prems"(2) by (subst (asm) parse_from.simps)
        (auto simp: Let_def split: option.splits sum.splits prod.splits if_splits)
    note ok = parse_descriptor_ok [OF "1.prems"(1) x]
    show ?thesis
    proof (cases x)
      case (Inl r')
      then show ?thesis using y ok by (simp add: step_ok_def)
    next
      case (Inr p)
      then obtain c s where p: "x = Inr (c, s)" by (cases p) auto
      then show ?thesis using "1.IH" [OF True b(1) refl b(2) x p refl] y ok by (simp add: step_ok_def)
    qed
  qed
qed

text \<open>Decoding what \<^verbatim>\<open>put_be32\<close> wrote gives the value back.\<close>

lemma be32_put: "be32 (put_be32 value) = value"
proof (rule bit_word_eqI)
  fix n :: nat
  assume "n < LENGTH(32)"
  then consider "n < 8" | "8 \<le> n" "n < 16" | "16 \<le> n" "n < 24" | "24 \<le> n" "n < 32" by force
  then show "bit (be32 (put_be32 value)) n = bit value n"
    by cases (simp_all add: be32_def put_be32_def bit_or_iff bit_push_bit_iff bit_unsigned_iff
        bit_drop_bit_eq less_diff_conv2)
qed

section \<open>Properties\<close>

text \<open>
  C19: the CRC finds bursts. Two payloads of the same length that differ only inside a window of
  at most four bytes, at any place, never have the same checksum, so no burst error of up to 32
  bits on byte boundaries passes the check of a loaded image.
\<close>

theorem crc_detects_bursts:
  assumes "length xs = length ys" "length xs \<le> 4" "xs \<noteq> ys"
  shows "crc_bytes (pre @ xs @ post) \<noteq> crc_bytes (pre @ ys @ post)"
proof
  let ?c = "fold crc_byte pre 0xFFFFFFFF"
  assume "crc_bytes (pre @ xs @ post) = crc_bytes (pre @ ys @ post)"
  then have "fold crc_byte post (fold crc_byte xs ?c) = fold crc_byte post (fold crc_byte ys ?c)"
    by (simp add: crc_bytes_def)
  then have "fold crc_byte xs ?c = fold crc_byte ys ?c" by (rule crc_fold_inj)
  then have "(crc_bit ^^ (8 * length xs)) (?c XOR le_word xs 0) = (crc_bit ^^ (8 * length xs)) (?c XOR le_word ys 0)"
    using crc_fold_word [OF assms(2), of ?c] crc_fold_word [OF assms(2) [unfolded assms(1)], of ?c]
    by (simp only: assms(1))
  then have "?c XOR le_word xs 0 = ?c XOR le_word ys 0" by (rule crc_bits_inj)
  then have "le_word xs 0 = le_word ys 0" by (rule xor_cancel)
  then show False using le_word_inj [OF assms(1,2)] assms(3) by simp
qed

theorem crc_detects_bursts_witness:
  "crc_bytes ([1, 2, 3] @ [4, 5] @ [6]) \<noteq> crc_bytes ([1, 2, 3] @ [4, 7] @ [6])"
  by (rule crc_detects_bursts) simp_all

text \<open>
  C20: parsing an untrusted configuration descriptor is memory safe and always ends: with a buffer of at least
  the given size it never reads past it. An accepted interface carries the non-zero configuration
  value of the header, an IN bulk endpoint with the direction bit and a non-zero number, and an
  OUT bulk endpoint without the direction bit and with a non-zero number.
\<close>

theorem usb_configuration_parse_safe:
  assumes "extent \<le> length data"
  shows "\<exists>r. boot_parse_usb_configuration data extent = Some r \<and>
    (case r of None \<Rightarrow> True
     | Some i \<Rightarrow> configuration i = data ! 5 \<and> data ! 5 \<noteq> 0 \<and>
         bulk_in i AND 0x80 \<noteq> 0 \<and> bulk_in i AND 15 \<noteq> 0 \<and>
         bulk_out i AND 0x80 = 0 \<and> bulk_out i AND 15 \<noteq> 0)"
proof (cases "extent < 9 \<or> data ! 0 \<noteq> 9 \<or> data ! 1 \<noteq> 2 \<or> le16 (data ! 2) (data ! 3) \<noteq> extent \<or> data ! 5 = 0")
  case True
  have "9 \<le> extent \<Longrightarrow> rd data k = Some (data ! k)" if "k < 9" for k using assms that by (simp add: rd_def)
  then show ?thesis using True by (cases "extent < 9") (auto simp: boot_parse_usb_configuration_def not_less)
next
  case False
  let ?c = "\<lparr>configuration = data ! 5, interface_number = 0, bulk_in = 0, bulk_out = 0\<rparr>"
  have rds: "rd data k = Some (data ! k)" if "k < 9" for k using assms False that by (simp add: rd_def)
  obtain r where r: "parse_from data extent 9 ?c False = Some r"
    using parse_from_safe [OF assms, of 9 ?c False] by auto
  then have run: "boot_parse_usb_configuration data extent = Some r"
    using False rds by (simp add: boot_parse_usb_configuration_def)
  have "interface_ok (data ! 5) i" if "r = Some i" for i
    using parse_from_ok [of "data ! 5" ?c data extent 9 False i] r that by (simp add: candidate_ok_def)
  then show ?thesis
    using run False by (cases r) (auto simp: interface_ok_def endpoint_in_ok_def endpoint_out_ok_def)
qed

definition demo_configuration :: "u8 list" where
  "demo_configuration = [9, 2, 32, 0, 1, 1, 0, 0x80, 50, 9, 4, 0, 0, 2, 8, 6, 0x50, 0,
     7, 5, 0x81, 2, 0, 2, 0, 7, 5, 0x02, 2, 0, 2, 0]"

theorem usb_configuration_parse_safe_witness:
  "boot_parse_usb_configuration demo_configuration 32 =
     Some (Some \<lparr>configuration = 1, interface_number = 0, bulk_in = 0x81, bulk_out = 0x02\<rparr>) \<and>
   (\<exists>r. boot_parse_usb_configuration demo_configuration 32 = Some r \<and>
    (case r of None \<Rightarrow> True
     | Some i \<Rightarrow> configuration i = demo_configuration ! 5 \<and> demo_configuration ! 5 \<noteq> 0 \<and>
         bulk_in i AND 0x80 \<noteq> 0 \<and> bulk_in i AND 15 \<noteq> 0 \<and>
         bulk_out i AND 0x80 = 0 \<and> bulk_out i AND 15 \<noteq> 0))"
proof
  show "boot_parse_usb_configuration demo_configuration 32 =
     Some (Some \<lparr>configuration = 1, interface_number = 0, bulk_in = 0x81, bulk_out = 0x02\<rparr>)"
    by (simp add: boot_parse_usb_configuration_def demo_configuration_def parse_from.simps rd_def le16_def
        parse_descriptor_def parse_interface_def parse_endpoint_def endpoint_step_def)
qed (rule usb_configuration_parse_safe, simp add: demo_configuration_def)

end
