(* ===== verification/Clock.thy ===== *)
theory Clock
  imports Machine
begin

text \<open>
  Waiting on the time-stamp counter. Two source files (\<^verbatim>\<open>Boot/BootStorage.c\<close> and
  \<^verbatim>\<open>Drivers/Usb/UsbHost.c\<close>) have the same \<^verbatim>\<open>delay\<close> and the same shape of bounded
  wait; both compare differences of the 32-bit counter with a multiple of their own variable
  \<^verbatim>\<open>ticks_per_ms\<close>, which is the parameter \<open>ticks\<close> here. With a counter that advances at
  every access by at most a million ticks, and at most 4000000 ticks per millisecond, so that the
  product with 1000 does not wrap, each wait comes back.
\<close>

definition delay_by :: "('s \<Rightarrow> u32) \<Rightarrow> u32 \<Rightarrow> ('s, unit) prog" where
  "delay_by ticks ms = bind (tsc) (\<lambda>start.
    bind (gets ticks) (\<lambda>t.
    poll (bind tsc (\<lambda>now. ret (if now - start < ms * t then None else Some ())))))"

text \<open>
  \<^verbatim>\<open>do { body } while (tsc() - start < ticks_per_ms * 1000)\<close>: repeat the body until it yields a
  value, but no longer than 1000 ms; \<open>None\<close> is the timeout.
\<close>

definition timed_by :: "('s \<Rightarrow> u32) \<Rightarrow> ('s, 'r option) prog \<Rightarrow> ('s, 'r option) prog" where
  "timed_by ticks body = bind (tsc) (\<lambda>start.
    poll (bind body (\<lambda>r. case r of Some x \<Rightarrow> ret (Some (Some x))
       | None \<Rightarrow> bind tsc (\<lambda>now. bind (gets ticks) (\<lambda>t.
           ret (if now - start < t * 1000 then None else Some None))))))"

lemma delay_by_keeps: "keeps e I I I tsc \<Longrightarrow> keeps e I I I (delay_by ticks ms)"
  unfolding delay_by_def by (intro keeps_intros keeps_poll)

lemma timed_by_keeps: "keeps e I I I tsc \<Longrightarrow> keeps e I I I body \<Longrightarrow> keeps e I I I (timed_by ticks body)"
  unfolding timed_by_def by (intro keeps_intros keeps_poll)

text \<open>
  The bodies of the bounded waits are short: they add a few events to the history and leave
  the rest of it alone.
\<close>

definition short :: "('s, 'r) prog \<Rightarrow> bool" where
  "short m \<longleftrightarrow> (\<forall>e w. \<exists>new. io (final (m e w)) = new @ io w \<and> length new \<le> 16)"

lemma shortI: "(\<And>e w. \<exists>new. io (final (m e w)) = new @ io w \<and> length new \<le> 16) \<Longrightarrow> short m"
  by (simp add: short_def)

section \<open>Clocks\<close>

definition clock_of :: "env \<Rightarrow> (io_event list \<Rightarrow> nat) \<Rightarrow> bool" where
  "clock_of e count \<longleftrightarrow> (\<forall>h. env_in e h Req_tsc = of_nat (count h)) \<and>
     (\<forall>ev h. count h < count (ev # h) \<and> count (ev # h) \<le> count h + 1000000)"

definition steady_clock :: "env \<Rightarrow> bool" where
  "steady_clock e \<longleftrightarrow> (\<exists>count. clock_of e count) \<and> 2 ^ 32 \<le> env_fuel e"

definition calibrated_by :: "('s \<Rightarrow> u32) \<Rightarrow> 's world \<Rightarrow> bool" where
  "calibrated_by ticks w \<longleftrightarrow> unat (ticks (vars w)) \<le> 4000000"

abbreviation (input) finishes_by :: "('s \<Rightarrow> u32) \<Rightarrow> env \<Rightarrow> ('s, 'r) prog \<Rightarrow> bool" where
  "finishes_by ticks e m \<equiv> keeps e (\<lambda>w. steady_clock e \<longrightarrow> calibrated_by ticks w) (\<lambda>w. True) (\<lambda>w. \<not> steady_clock e) m"

lemma clock_grows:
  assumes "clock_of e count"
  shows "count h \<le> count (new @ h) \<and> count (new @ h) \<le> count h + 1000000 * length new"
proof (induction new)
  case (Cons ev new)
  have "count (new @ h) < count (ev # new @ h) \<and> count (ev # new @ h) \<le> count (new @ h) + 1000000"
    using assms by (simp add: clock_of_def)
  then show ?case using Cons by auto
qed simp

lemma clock_step:
  "clock_of e count \<Longrightarrow> count h < count (ev # h) \<and> count (ev # h) \<le> count h + 1000000"
  by (simp add: clock_of_def)

lemma clock_read: "clock_of e count \<Longrightarrow> env_in e h Req_tsc = of_nat (count h)"
  by (simp add: clock_of_def)

lemma elapsed:
  assumes "(c :: nat) \<le> d" "d - c < 2 ^ 32"
  shows "unat (of_nat d - of_nat c :: u32) = d - c"
proof -
  have "(of_nat d - of_nat c :: u32) = of_nat (d - c)" using assms(1) by (simp add: of_nat_diff)
  then show ?thesis using assms(2) by (simp add: unat_of_nat)
qed

text \<open>
  The worlds in a wait that began at history \<open>h\<close>, and how much of it is left.
\<close>

definition waiting :: "('s \<Rightarrow> u32) \<Rightarrow> (io_event list \<Rightarrow> nat) \<Rightarrow> io_event list \<Rightarrow> 's world \<Rightarrow> bool" where
  "waiting ticks count h w \<longleftrightarrow> calibrated_by ticks w \<and> (\<exists>new. io w = new @ h) \<and> count (io w) \<le> count h + 4001000000"

definition left :: "(io_event list \<Rightarrow> nat) \<Rightarrow> io_event list \<Rightarrow> 's world \<Rightarrow> nat" where
  "left count h w = count h + 4001000001 - count (io w)"

lemma wait_tick:
  assumes clock: "clock_of e count" and w: "calibrated_by ticks w" "io w = new @ h" "count (io w) \<le> count h + 4020000000"
    and d: "unat d \<le> 4000000000"
  defines "v \<equiv> w\<lparr>io := Tsc (env_in e (io w) Req_tsc) # io w\<rparr>"
  shows "env_in e (io w) Req_tsc - of_nat (count h) < d \<Longrightarrow> waiting ticks count h v \<and> count (io w) < count (io v)"
    and "calibrated_by ticks v"
proof -
  have le: "count h \<le> count (io w)" using clock_grows [OF clock] w(2) by simp
  assume "env_in e (io w) Req_tsc - of_nat (count h) < d"
  then have "count (io w) - count h < 4000000000"
    using elapsed [OF le] w(3) d by (simp add: clock_read [OF clock] word_less_nat_alt)
  then show "waiting ticks count h v \<and> count (io w) < count (io v)"
    using clock_step [OF clock, of "io w" "Tsc (env_in e (io w) Req_tsc)"] w le
    by (auto simp: waiting_def v_def calibrated_by_def)
next
  show "calibrated_by ticks v" using w(1) by (simp add: v_def calibrated_by_def)
qed

lemma finishes_byI:
  fixes ticks :: "'s \<Rightarrow> u32"
  assumes "\<And>count w. clock_of e count \<Longrightarrow> 2 ^ 32 \<le> env_fuel e \<Longrightarrow> calibrated_by ticks w \<Longrightarrow>
    case m e w of Done x w' \<Rightarrow> calibrated_by ticks w' | Panicked msg w' \<Rightarrow> True | Unfinished w' \<Rightarrow> False"
  shows "finishes_by ticks e m"
  unfolding keeps_def
proof (intro allI impI)
  fix w :: "'s world"
  assume w: "steady_clock e \<longrightarrow> calibrated_by ticks w"
  show "case m e w of Done x w' \<Rightarrow> steady_clock e \<longrightarrow> calibrated_by ticks w'
    | Panicked msg w' \<Rightarrow> True | Unfinished w' \<Rightarrow> \<not> steady_clock e"
  proof (cases "steady_clock e")
    case True
    then obtain count where "clock_of e count" "2 ^ 32 \<le> env_fuel e" by (auto simp: steady_clock_def)
    then show ?thesis using assms [of count w] w True by (auto split: outcome.splits)
  qed (simp split: outcome.splits)
qed

lemma waiting_start:
  assumes "clock_of e count" "calibrated_by ticks w" "2 ^ 32 \<le> env_fuel e"
  shows "waiting ticks count (io w) (w\<lparr>io := ev # io w\<rparr>)" "left count (io w) (w\<lparr>io := ev # io w\<rparr>) < env_fuel e"
  using clock_step [OF assms(1), of "io w" ev] assms(2,3) by (auto simp: waiting_def left_def calibrated_by_def)

lemma product_bound:
  assumes "unat (t :: u32) \<le> 4000000" "unat ms \<le> 1000"
  shows "unat (ms * t) \<le> 4000000000"
proof -
  have "unat ms * unat t \<le> 1000 * 4000000" using assms by (intro mult_le_mono) auto
  then show ?thesis by (simp add: unat_word_ariths)
qed

lemma delay_by_finishes:
  fixes ticks :: "'s \<Rightarrow> u32"
  assumes "unat ms \<le> 1000"
  shows "finishes_by ticks e (delay_by ticks ms)"
proof (rule finishes_byI)
  fix count and w :: "'s world"
  assume clock: "clock_of e count" and fuel: "2 ^ 32 \<le> env_fuel e" and w: "calibrated_by ticks w"
  let ?h = "io w" and ?d = "ms * ticks (vars w)"
  let ?v = "w\<lparr>io := Tsc (env_in e ?h Req_tsc) # ?h\<rparr>"
  let ?body = "bind tsc (\<lambda>now. ret (if now - of_nat (count ?h) < ?d then None else Some ()))"
  have d: "unat ?d \<le> 4000000000" using w assms by (intro product_bound) (simp_all add: calibrated_by_def)
  have "case poll_fuel (env_fuel e) ?body e ?v of
      Done r w' \<Rightarrow> calibrated_by ticks w' | Panicked msg w' \<Rightarrow> True | Unfinished w' \<Rightarrow> False"
  proof (rule poll_fuel_finishes [where K = "\<lambda>_. True" and P = "waiting ticks count ?h" and \<mu> = "left count ?h"])
    fix u :: "'s world"
    assume u: "waiting ticks count ?h u"
    then obtain new where n: "io u = new @ ?h" "calibrated_by ticks u" "count (io u) \<le> count ?h + 4020000000"
      by (auto simp: waiting_def)
    note t = wait_tick [OF clock n(2,1,3) d]
    show "case ?body e u of Done r v' \<Rightarrow>
        (case r of None \<Rightarrow> waiting ticks count ?h v' \<and> left count ?h v' < left count ?h u | Some x \<Rightarrow> calibrated_by ticks v')
      | Panicked msg v' \<Rightarrow> True | Unfinished v' \<Rightarrow> False"
      using t u by (auto simp: run_bind run_tsc run_ret left_def waiting_def)
  qed (rule waiting_start [OF clock w fuel])+
  then show "case delay_by ticks ms e w of Done x w' \<Rightarrow> calibrated_by ticks w' | Panicked msg w' \<Rightarrow> True | Unfinished w' \<Rightarrow> False"
    by (simp add: delay_by_def run_bind run_tsc run_gets poll_def clock_read [OF clock])
qed

lemma timed_by_finishes:
  fixes ticks :: "'s \<Rightarrow> u32"
  assumes "short body" "finishes_by ticks e body"
  shows "finishes_by ticks e (timed_by ticks body)"
proof (rule finishes_byI)
  fix count and w :: "'s world"
  assume clock: "clock_of e count" and fuel: "2 ^ 32 \<le> env_fuel e" and w: "calibrated_by ticks w"
  let ?h = "io w"
  let ?v = "w\<lparr>io := Tsc (env_in e ?h Req_tsc) # ?h\<rparr>"
  let ?body = "bind body (\<lambda>r. case r of Some x \<Rightarrow> ret (Some (Some x))
     | None \<Rightarrow> bind tsc (\<lambda>now. bind (gets ticks) (\<lambda>t.
         ret (if now - of_nat (count ?h) < t * 1000 then None else Some None))))"
  have steady: "steady_clock e" using clock fuel by (auto simp: steady_clock_def)
  have "case poll_fuel (env_fuel e) ?body e ?v of
      Done r w' \<Rightarrow> calibrated_by ticks w' | Panicked msg w' \<Rightarrow> True | Unfinished w' \<Rightarrow> False"
  proof (rule poll_fuel_finishes [where K = "\<lambda>_. True" and P = "waiting ticks count ?h" and \<mu> = "left count ?h"])
    fix u :: "'s world"
    assume u: "waiting ticks count ?h u"
    then have b: "case body e u of Done r u' \<Rightarrow> calibrated_by ticks u' | Panicked msg u' \<Rightarrow> True | Unfinished u' \<Rightarrow> False"
      using assms(2) steady by (simp add: keeps_def waiting_def)
    obtain more where more: "io (final (body e u)) = more @ io u" "length more \<le> 16"
      using assms(1) by (meson short_def)
    show "case ?body e u of Done r v' \<Rightarrow>
        (case r of None \<Rightarrow> waiting ticks count ?h v' \<and> left count ?h v' < left count ?h u | Some x \<Rightarrow> calibrated_by ticks v')
      | Panicked msg v' \<Rightarrow> True | Unfinished v' \<Rightarrow> False"
    proof (cases "body e u")
      case (Done r u')
      obtain new where new: "io u = new @ ?h" using u by (auto simp: waiting_def)
      have io: "io u' = (more @ new) @ ?h" "io u' = more @ io u" using more(1) Done new by simp_all
      have c: "calibrated_by ticks u'" using b Done by simp
      have grow: "count (io u) \<le> count (io u')" "count (io u') \<le> count ?h + 4020000000"
        using clock_grows [OF clock, of "io u" more] more(2) u io(2) by (auto simp: waiting_def)
      have "unat (ticks (vars u') * 1000) \<le> 4000000000"
        using product_bound [of "ticks (vars u')" 1000] c by (simp add: calibrated_by_def mult.commute)
      note t = wait_tick [OF clock c io(1) grow(2) this]
      show ?thesis using t c u Done grow(1)
        by (cases r) (auto simp: run_bind run_tsc run_gets run_ret left_def waiting_def)
    qed (use b in \<open>simp_all add: run_bind\<close>)
  qed (rule waiting_start [OF clock w fuel])+
  then show "case timed_by ticks body e w of Done x w' \<Rightarrow> calibrated_by ticks w' | Panicked msg w' \<Rightarrow> True | Unfinished w' \<Rightarrow> False"
    by (simp add: timed_by_def run_bind run_tsc poll_def clock_read [OF clock])
qed

text \<open>Programs that neither wait nor touch the calibration.\<close>

lemma finishes_by_direct:
  fixes ticks :: "'s \<Rightarrow> u32"
  assumes "\<And>w. \<exists>x w'. p e w = Done x w' \<and> ticks (vars w') = ticks (vars w)"
  shows "finishes_by ticks e p"
proof (rule finishes_byI)
  fix count and w :: "'s world"
  assume "calibrated_by ticks w"
  then show "case p e w of Done x w' \<Rightarrow> calibrated_by ticks w' | Panicked msg w' \<Rightarrow> True | Unfinished w' \<Rightarrow> False"
    using assms [of w] by (auto simp: calibrated_by_def)
qed

lemma finishes_by_prims:
  "finishes_by ticks e (in8 p)" "finishes_by ticks e (in16 p)" "finishes_by ticks e (in32 p)"
  "finishes_by ticks e tsc" "finishes_by ticks e (mmio_read a)" "finishes_by ticks e dma_sync"
  "finishes_by ticks e (dma_load32 a)" "finishes_by ticks e (mmio_write a v)" "finishes_by ticks e fence"
  "finishes_by ticks e (out8 p b)" "finishes_by ticks e (out16 p h)" "finishes_by ticks e (out32 p v)"
  "finishes_by ticks e (store_list a bs)" "finishes_by ticks e (store32 a v)" "finishes_by ticks e (mem_apply g)"
  "finishes_by ticks e (kernel_call fn args)" "finishes_by ticks e irq_save" "finishes_by ticks e (irq_restore t)"
  by (rule finishes_by_direct, simp add: prog_simps)+

lemma finishes_by_modify: "(\<And>s. ticks (f s) = ticks s) \<Longrightarrow> finishes_by ticks e (modify f)"
  by (rule finishes_by_direct) (simp add: run_modify)

text \<open>A machine with no devices, whose counter advances by one tick per access.\<close>

definition ticking_env :: env where
  "ticking_env = null_env\<lparr>env_in := (\<lambda>h r. if r = Req_tsc then of_nat (length h) else 0), env_fuel := 2 ^ 32\<rparr>"

lemma ticking_env_steady: "steady_clock ticking_env"
proof -
  have "clock_of ticking_env length" by (simp add: clock_of_def ticking_env_def)
  then show ?thesis by (auto simp: steady_clock_def ticking_env_def)
qed

end
