(* ===== verification/Boot_Transport.thy ===== *)
theory Boot_Transport
  imports Boot_Image Runtime Clock
begin

text \<open>
  The transport half of \<^verbatim>\<open>Boot/BootStorage.c\<close>: the PIT-calibrated clock, the EHCI host
  controller, USB mass storage (bulk-only transport with its SCSI commands), ATA PIO reads, and
  the boot loader that copies the two kernel payloads and checks their CRC. The same C file is
  compiled a second time into the kernel (\<^verbatim>\<open>KERNEL_STORAGE\<close>) with some hooks replaced;
  the hooks are fields of the record \<^verbatim>\<open>hooks\<close> here, and the loader's own hooks are at
  the end. The variables of the file are the record \<^verbatim>\<open>boot_vars\<close>, which the
  kernel's storage service extends. Loops that poll against the time-stamp counter are
  \<^verbatim>\<open>poll\<close> loops of the machine model: with a clock that stands still they are still
  \<open>Unfinished\<close> when the fuel is spent, and with one that advances they return.
\<close>

abbreviation (input) DMA_BASE :: u32 where "DMA_BASE \<equiv> 0x30050000"
abbreviation (input) DESCRIPTORS :: u32 where "DESCRIPTORS \<equiv> 0x30050100"
abbreviation (input) PERIODIC :: u32 where "PERIODIC \<equiv> 0x30056000"
abbreviation (input) TRANSFER_BUFFER :: u32 where "TRANSFER_BUFFER \<equiv> 0x30052000"
abbreviation (input) CONTROL_BUFFER :: u32 where "CONTROL_BUFFER \<equiv> 0x30051000"
abbreviation (input) CBW_BUFFER :: u32 where "CBW_BUFFER \<equiv> 0x30051400"
abbreviation (input) CSW_BUFFER :: u32 where "CSW_BUFFER \<equiv> 0x30051440"
abbreviation (input) SETUP_BUFFER :: u32 where "SETUP_BUFFER \<equiv> 0x30051480"
abbreviation (input) MANIFEST :: u32 where "MANIFEST \<equiv> 0x30000800"
abbreviation (input) BLOCKS_PER_READ :: u32 where "BLOCKS_PER_READ \<equiv> 32"

section \<open>State and hooks\<close>

text \<open>\<^verbatim>\<open>bv_ehci\<close> is the operational register base, 0 for the NULL pointer.\<close>

record boot_vars =
  bv_ehci :: u32
  bv_ticks_per_ms :: u32
  bv_usb_address :: u32
  bv_usb_tag :: u32
  bv_last_block :: u32
  bv_toggle_in :: u32
  bv_toggle_out :: u32
  bv_transport_dead :: u32
  bv_usb_interface :: usb_storage_interface
  bv_ata_port :: u16
  bv_ata_device :: u8
  bv_backend :: u32

text \<open>
  What \<^verbatim>\<open>#ifdef KERNEL_STORAGE\<close> selects: \<^verbatim>\<open>screen\<close>, the address the capability
  registers are reached at (0 for NULL), the controller filter, what happens to a disk that
  answers, and what happens to the ports of a controller without one.
\<close>

record 's hooks =
  hk_screen :: "string \<Rightarrow> u32 \<Rightarrow> ('s, unit) prog"
  hk_capability :: "u32 \<Rightarrow> ('s, u32) prog"
  hk_candidate :: "u32 \<Rightarrow> ('s, bool) prog"
  hk_accept :: "u32 \<Rightarrow> u32 \<Rightarrow> ('s, bool) prog"
  hk_release :: "u32 \<Rightarrow> ('s, unit) prog"

definition boot_report :: "nat \<Rightarrow> u32 \<Rightarrow> ('s, unit) prog" where
  "boot_report i v = store32 (0x3004F000 + of_nat (4 * i)) v"

definition zero_mem :: "u32 \<Rightarrow> nat \<Rightarrow> ('s, unit) prog" where
  "zero_mem destination n = store_list destination (replicate n 0)"

definition copy_mem :: "u32 \<Rightarrow> u32 \<Rightarrow> u32 \<Rightarrow> ('s, unit) prog" where
  "copy_mem destination source n = mem_apply (\<lambda>m. copy_forward m destination source 0 n)"

definition equal_mem :: "u32 \<Rightarrow> u32 \<Rightarrow> nat \<Rightarrow> ('s, bool) prog" where
  "equal_mem a b n = bind (load_list a n) (\<lambda>x. bind (load_list b n) (\<lambda>y. ret (x = y)))"

definition pci_read :: "u32 \<Rightarrow> u32 \<Rightarrow> ('s, u32) prog" where
  "pci_read device offset = andthen (out32 0xCF8 (0x80000000 OR device OR offset)) (in32 0xCFC)"

definition pci_write :: "u32 \<Rightarrow> u32 \<Rightarrow> u32 \<Rightarrow> ('s, unit) prog" where
  "pci_write device offset value =
     andthen (out32 0xCF8 (0x80000000 OR device OR offset)) (out32 0xCFC value)"

definition fail :: "'s hooks \<Rightarrow> string \<Rightarrow> u32 \<Rightarrow> ('s, 'a) prog" where
  "fail hk message detail = andthen (hk_screen hk message detail) (panic message)"

section \<open>Time\<close>

definition calibrate_timer :: "'a boot_vars_scheme hooks \<Rightarrow> ('a boot_vars_scheme, unit) prog" where
  "calibrate_timer hk = bind (in8 0x61) (\<lambda>original.
    andthen (out8 0x61 (original AND NOT 3))
    (andthen (out8 0x43 0xB0)
    (andthen (out8 0x42 (ucast (23864 :: u32)))
    (andthen (out8 0x42 (ucast (drop_bit 8 (23864 :: u32))))
    (bind (tsc) (\<lambda>start.
    andthen (out8 0x61 ((original AND NOT 2) OR 1))
    (bind (for_until 0 10000000 (\<lambda>_. bind (in8 0x61) (\<lambda>v.
        ret (if v AND 0x20 \<noteq> 0 then Some () else None)))) (\<lambda>fired.
    bind (tsc) (\<lambda>now.
    let ticks = (now - start) div 20
    in andthen (modify (\<lambda>s. s\<lparr>bv_ticks_per_ms := ticks\<rparr>))
    (andthen (out8 0x61 original)
    (if fired = None \<or> ticks < 10000 \<or> ticks > 4000000 then fail hk ''Boot timer failed'' ticks else ret ())))))))))))"

definition delay :: "u32 \<Rightarrow> ('a boot_vars_scheme, unit) prog" where
  "delay = delay_by bv_ticks_per_ms"

text \<open>The shape of every bounded wait of the file: at most 1000 ms of the calibrated clock.\<close>

definition timed_loop :: "('a boot_vars_scheme, 'r option) prog \<Rightarrow> ('a boot_vars_scheme, 'r option) prog" where
  "timed_loop = timed_by bv_ticks_per_ms"

section \<open>The EHCI controller\<close>

definition ehci_read :: "u32 \<Rightarrow> ('a boot_vars_scheme, u32) prog" where
  "ehci_read index = bind (gets bv_ehci) (\<lambda>base. mmio_read (base + 4 * index))"

definition ehci_write :: "u32 \<Rightarrow> u32 \<Rightarrow> ('a boot_vars_scheme, unit) prog" where
  "ehci_write index value = bind (gets bv_ehci) (\<lambda>base. mmio_write (base + 4 * index) value)"

definition wait_register :: "u32 \<Rightarrow> u32 \<Rightarrow> u32 \<Rightarrow> ('a boot_vars_scheme, bool) prog" where
  "wait_register offset m value = bind (timed_loop (bind (ehci_read (offset div 4)) (\<lambda>v.
       ret (if v AND m = value then Some () else None)))) (\<lambda>r.
    ret (r \<noteq> None))"

definition stop_controller :: "'a boot_vars_scheme hooks \<Rightarrow> ('a boot_vars_scheme, unit) prog" where
  "stop_controller hk = bind (gets bv_ehci) (\<lambda>base.
    if base = 0 then ret ()
    else andthen (ehci_write 0 0)
    (bind (wait_register 4 (push_bit 12 1) (push_bit 12 1)) (\<lambda>stopped.
    andthen (if stopped then ret () else bind (ehci_read 1) (fail hk ''EHCI cannot stop DMA''))
    (ehci_write 2 0))))"

text \<open>
  The walk over the extended capabilities of \<^verbatim>\<open>start_controller\<close>, at most 48 of them, which
  takes the controller from the firmware; \<open>False\<close> is \<^verbatim>\<open>return 0\<close>.
\<close>

fun take_ownership :: "nat \<Rightarrow> u32 \<Rightarrow> u32 \<Rightarrow> ('a boot_vars_scheme, bool) prog" where
  "take_ownership 0 device extended = ret True"
| "take_ownership (Suc n) device extended =
     (if extended = 0 then ret True
      else if extended < 0x40 \<or> extended > 0xF8 \<or> extended AND 3 \<noteq> 0 then ret False
      else bind (pci_read device extended) (\<lambda>legacy.
        bind (if legacy AND 255 = 1 then andthen (pci_write device extended (legacy OR push_bit 24 1))
          (bind (timed_loop (bind (pci_read device extended) (\<lambda>v.
               ret (if v AND push_bit 16 1 = 0 then Some () else None)))) (\<lambda>released.
          if released = None then ret False
          else andthen (pci_write device (extended + 4) 0)
          (ret True))) else ret True) (\<lambda>ok.
        if \<not> ok then ret False
        else let after = drop_bit 8 legacy AND 255
        in if n = 0 \<and> after \<noteq> 0 then ret False
        else take_ownership n device after)))"

text \<open>The second half of \<^verbatim>\<open>start_controller\<close>: reset, schedules, run, power the ports.\<close>

definition run_controller :: "'a boot_vars_scheme hooks \<Rightarrow> u32 \<Rightarrow> u32 \<Rightarrow> ('a boot_vars_scheme, u32) prog" where
  "run_controller hk device capability = andthen (stop_controller hk)
    (andthen (ehci_write 0 2)
    (bind (wait_register 0 2 0) (\<lambda>reset.
    andthen (if reset then ret () else fail hk ''EHCI reset timeout'' device)
    (andthen (ehci_write 2 0)
    (andthen (ehci_write 1 0x3F)
    (bind (mmio_read (capability + 8)) (\<lambda>hccparams.
    andthen (cond (hccparams AND 1 \<noteq> 0) (ehci_write 4 0))
    (andthen (for_each 0 1024 (\<lambda>i. store32 (PERIODIC + of_nat (4 * i)) 1))
    (andthen (ehci_write 5 PERIODIC)
    (andthen (ehci_write 6 DMA_BASE)
    (andthen (ehci_write 0 1)
    (bind (wait_register 4 (push_bit 12 1) 0) (\<lambda>running.
    andthen (if running then ret () else fail hk ''EHCI run timeout'' device)
    (andthen (ehci_write (0x40 div 4) 1)
    (bind (mmio_read (capability + 4)) (\<lambda>hcsparams.
    let ports = hcsparams AND 15
    in andthen (for_each 0 (unat ports) (\<lambda>port. bind (ehci_read (0x44 div 4 + of_nat port)) (\<lambda>v.
       bind (mmio_read (capability + 4)) (\<lambda>power.
       ehci_write (0x44 div 4 + of_nat port)
          (if power AND 16 \<noteq> 0 then (v AND NOT 0x2A) OR push_bit 12 1 else v AND NOT 0x2A)))))
    (andthen (delay 100)
    (ret ports))))))))))))))))))"

definition start_controller :: "'a boot_vars_scheme hooks \<Rightarrow> u32 \<Rightarrow> ('a boot_vars_scheme, u32) prog" where
  "start_controller hk device = andthen (boot_report 1 2)
    (andthen (boot_report 2 device)
    (bind (pci_read device 0x10) (\<lambda>bar.
    if bar AND 7 \<noteq> 0 \<or> bar AND NOT 15 < 0x80000000 \<or> bar = 0xFFFFFFFF then ret 0
    else bind (pci_read device 4) (\<lambda>command.
    andthen (pci_write device 4 ((command AND 0xFFFF) OR 6))
    (bind (hk_capability hk (bar AND NOT 15)) (\<lambda>capability.
    if capability = 0 then ret 0
    else bind (mmio_read capability) (\<lambda>caps.
    let len = caps AND 255
    in if len < 0x10 \<or> len > 0x80 \<or> len AND 3 \<noteq> 0 then ret 0
    else bind (mmio_read (capability + 8)) (\<lambda>params.
    bind (take_ownership 48 device (drop_bit 8 params AND 255)) (\<lambda>owned.
    if \<not> owned then ret 0
    else andthen (modify (\<lambda>s. s\<lparr>bv_ehci := capability + len\<rparr>))
    (run_controller hk device capability))))))))))"

definition make_qtd :: "u32 \<Rightarrow> u32 \<Rightarrow> u32 \<Rightarrow> u32 \<Rightarrow> u32 \<Rightarrow> u32 \<Rightarrow> ('s, unit) prog" where
  "make_qtd index pid toggle buffer len nxt = (let q = DESCRIPTORS + 64 * index in andthen (zero_mem q 64)
    (andthen (store32 q nxt)
    (andthen (store32 (q + 4) 1)
    (andthen (store32 (q + 8) (push_bit 31 toggle OR push_bit 16 len OR push_bit 10 3 OR push_bit 8 pid OR 0x80))
    (andthen (store32 (q + 12) buffer)
    (for_each 1 4 (\<lambda>i. store32 (q + 12 + of_nat (4 * i)) ((buffer AND NOT 4095) + of_nat i * 4096))))))))"

text \<open>
  \<^verbatim>\<open>transfer\<close>: the queue head is rebuilt, the asynchronous schedule enabled, the last
  descriptor polled, and the schedule disabled again before anything else is touched.
\<close>

definition transfer_setup :: "u32 \<Rightarrow> u32 \<Rightarrow> ('a boot_vars_scheme, unit) prog" where
  "transfer_setup endpoint packet_size = andthen (zero_mem DMA_BASE 96)
    (andthen (store32 DMA_BASE (DMA_BASE OR 2))
    (bind (gets bv_usb_address) (\<lambda>address.
    andthen (store32 (DMA_BASE + 4) (address OR push_bit 8 endpoint OR push_bit 12 2 OR push_bit 14 1 OR
       push_bit 15 1 OR push_bit 16 packet_size OR push_bit 28 8))
    (andthen (store32 (DMA_BASE + 8) (push_bit 30 1))
    (andthen (store32 (DMA_BASE + 16) DESCRIPTORS)
    (andthen (store32 (DMA_BASE + 20) 1)
    (andthen (fence)
    (andthen (ehci_write 6 DMA_BASE)
    (ehci_write 0 (1 OR push_bit 5 1))))))))))"

definition transfer_poll :: "u32 \<Rightarrow> ('a boot_vars_scheme, bool option) prog" where
  "transfer_poll final_qtd = bind (ehci_read 1) (\<lambda>status.
    if status AND push_bit 4 1 \<noteq> 0 then ret (Some False)
    else bind (dma_load32 (DMA_BASE + 24)) (\<lambda>overlay.
    if overlay AND 0x7C \<noteq> 0 then ret (Some False)
    else bind (dma_load32 (DESCRIPTORS + 64 * final_qtd + 8)) (\<lambda>token.
    if token AND 0x80 \<noteq> 0 then ret None
    else bind (dma_load32 (DESCRIPTORS + 64 * final_qtd + 8)) (\<lambda>token2.
    ret (Some (token2 AND 0x7C = 0))))))"

definition transfer_finish :: "'a boot_vars_scheme hooks \<Rightarrow> ('a boot_vars_scheme, unit) prog" where
  "transfer_finish hk = andthen (ehci_write 0 1)
    (bind (wait_register 4 (push_bit 15 1) 0) (\<lambda>stopped.
    if stopped then ret () else bind (ehci_read 1) (fail hk ''EHCI schedule will not stop'')))"

definition transfer :: "'a boot_vars_scheme hooks \<Rightarrow> u32 \<Rightarrow> u32 \<Rightarrow> u32 \<Rightarrow> ('a boot_vars_scheme, bool) prog" where
  "transfer hk endpoint packet_size final_qtd = bind (gets bv_transport_dead) (\<lambda>dead.
    if dead \<noteq> 0 then ret False
    else andthen (transfer_setup endpoint packet_size)
    (bind (timed_loop (transfer_poll final_qtd)) (\<lambda>r.
    andthen (transfer_finish hk)
    (andthen (dma_sync)
    (let success = (r = Some True)
    in if success then ret True
    else bind (ehci_read 1) (\<lambda>status.
    andthen (boot_report 4 status)
    (bind (load32 (DMA_BASE + 24)) (\<lambda>overlay.
    andthen (boot_report 5 overlay)
    (andthen (modify (\<lambda>s. s\<lparr>bv_transport_dead := 1\<rparr>))
    (ret False))))))))))"

section \<open>USB mass storage\<close>

definition control :: "'a boot_vars_scheme hooks \<Rightarrow> u8 \<Rightarrow> u8 \<Rightarrow> u16 \<Rightarrow> u16 \<Rightarrow> u16 \<Rightarrow> ('a boot_vars_scheme, bool) prog" where
  "control hk kind request value index len = andthen (store_list SETUP_BUFFER [kind, request, ucast value, ucast (drop_bit 8 value),
       ucast index, ucast (drop_bit 8 index), ucast len, ucast (drop_bit 8 len)])
    (let status = (if len \<noteq> 0 then 2 else 1)
    in andthen (make_qtd 0 2 0 SETUP_BUFFER 8 (DESCRIPTORS + 64))
    (andthen (cond (len \<noteq> 0) (andthen (make_qtd 1 (if kind AND 0x80 \<noteq> 0 then 1 else 0) 1 CONTROL_BUFFER (ucast len) (DESCRIPTORS + 128))
       (store32 (DESCRIPTORS + 64 + 4) (DESCRIPTORS + 128))))
    (andthen (make_qtd status (if len \<noteq> 0 \<and> kind AND 0x80 \<noteq> 0 then 0 else 1) 1 0 0 1)
    (bind (transfer hk 0 64 status) (\<lambda>ok.
    if \<not> ok then ret False
    else bind (load32 (DESCRIPTORS + 64 + 8)) (\<lambda>token.
    ret (len = 0 \<or> drop_bit 16 token AND 0x7FFF = 0)))))))"

text \<open>
  One round of the loop over the configurations of the device: \<open>None\<close> is \<^verbatim>\<open>continue\<close>.
\<close>

definition try_configuration :: "'a boot_vars_scheme hooks \<Rightarrow> nat \<Rightarrow> ('a boot_vars_scheme, bool option) prog" where
  "try_configuration hk index = bind (control hk 0x80 6 (0x200 OR of_nat index) 0 9) (\<lambda>ok.
    if \<not> ok then ret (Some False)
    else bind (load_list CONTROL_BUFFER 9) (\<lambda>header.
    let extent = ucast (header ! 2) OR push_bit 8 (ucast (header ! 3)) :: u32
    in if extent < 9 \<or> extent > 1024 then ret None
    else bind (control hk 0x80 6 (0x200 OR of_nat index) 0 (ucast extent)) (\<lambda>ok2.
    if \<not> ok2 then ret (Some False)
    else bind (load_list CONTROL_BUFFER (unat extent)) (\<lambda>bytes.
    case boot_parse_usb_configuration bytes (unat extent) of
       Some (Some found) \<Rightarrow> andthen (modify (\<lambda>s. s\<lparr>bv_usb_interface := found\<rparr>))
         (bind (control hk 0 9 (ucast (configuration found)) 0 0) (\<lambda>ok3.
         if \<not> ok3 then ret (Some False)
         else andthen (delay 10)
         (ret (Some True))))
     | _ \<Rightarrow> ret None))))"

definition enumerate_storage :: "'a boot_vars_scheme hooks \<Rightarrow> ('a boot_vars_scheme, bool) prog" where
  "enumerate_storage hk = andthen (boot_report 1 4)
    (andthen (modify (\<lambda>s. s\<lparr>bv_usb_address := 0, bv_transport_dead := 0, bv_toggle_in := 0, bv_toggle_out := 0\<rparr>))
    (bind (control hk 0x80 6 0x100 0 18) (\<lambda>ok.
    if \<not> ok then ret False
    else bind (load_list CONTROL_BUFFER 18) (\<lambda>d.
    if d ! 7 \<noteq> 64 \<or> d ! 0 \<noteq> 18 \<or> d ! 1 \<noteq> 1 \<or> d ! 17 = 0 then ret False
    else bind (control hk 0 5 1 0 0) (\<lambda>ok2.
    if \<not> ok2 then ret False
    else andthen (modify (\<lambda>s. s\<lparr>bv_usb_address := 1\<rparr>))
    (andthen (delay 2)
    (andthen (boot_report 1 5)
    (bind (for_until 0 (unat (d ! 17)) (try_configuration hk)) (\<lambda>r.
    ret (r = Some True))))))))))"

definition bulk :: "'a boot_vars_scheme hooks \<Rightarrow> bool \<Rightarrow> u32 \<Rightarrow> u32 \<Rightarrow> ('a boot_vars_scheme, bool) prog" where
  "bulk hk input buffer len = bind (gets id) (\<lambda>s.
    let endpoint = ucast (if input then bulk_in (bv_usb_interface s) else bulk_out (bv_usb_interface s)) AND 15
    in andthen (make_qtd 0 (if input then 1 else 0) (if input then bv_toggle_in s else bv_toggle_out s) buffer len 1)
    (bind (transfer hk endpoint 512 0) (\<lambda>ok.
    if \<not> ok then ret False
    else bind (load32 (DESCRIPTORS + 8)) (\<lambda>token.
    if drop_bit 16 token AND 0x7FFF \<noteq> 0 then andthen (modify (\<lambda>s. s\<lparr>bv_transport_dead := 1\<rparr>)) (ret False)
    else let flip = ((len + 511) div 512) AND 1
    in andthen (modify (\<lambda>s. if input then s\<lparr>bv_toggle_in := bv_toggle_in s XOR flip\<rparr>
                 else s\<lparr>bv_toggle_out := bv_toggle_out s XOR flip\<rparr>))
    (ret True)))))"

definition dead_transport :: "('a boot_vars_scheme, int) prog" where
  "dead_transport = andthen (modify (\<lambda>s. s\<lparr>bv_transport_dead := 1\<rparr>)) (ret (- 1))"

text \<open>The command wrapper, then the status wrapper and what it says.\<close>

definition scsi_wrap :: "u8 list \<Rightarrow> u32 \<Rightarrow> u32 \<Rightarrow> ('a boot_vars_scheme, unit) prog" where
  "scsi_wrap command command_size len = andthen (zero_mem CBW_BUFFER 31)
    (andthen (store32 CBW_BUFFER 0x43425355)
    (andthen (modify (\<lambda>s. s\<lparr>bv_usb_tag := bv_usb_tag s + 1\<rparr>))
    (bind (gets bv_usb_tag) (\<lambda>tag.
    andthen (store32 (CBW_BUFFER + 4) tag)
    (andthen (store32 (CBW_BUFFER + 8) len)
    (andthen (store8 (CBW_BUFFER + 12) 0x80)
    (andthen (store8 (CBW_BUFFER + 14) (ucast command_size))
    (store_list (CBW_BUFFER + 15) (take (unat command_size) command)))))))))"

definition scsi_status :: "u32 \<Rightarrow> ('a boot_vars_scheme, int) prog" where
  "scsi_status len = bind (load32 CSW_BUFFER) (\<lambda>signature.
    bind (load32 (CSW_BUFFER + 4)) (\<lambda>echoed.
    bind (load32 (CSW_BUFFER + 8)) (\<lambda>residue.
    bind (load8 (CSW_BUFFER + 12)) (\<lambda>status.
    bind (gets bv_usb_tag) (\<lambda>tag.
    if signature \<noteq> 0x53425355 \<or> echoed \<noteq> tag \<or> residue > len \<or> status > 1 then dead_transport
    else if status = 1 then ret 0
    else if residue \<noteq> 0 then dead_transport
    else ret 1)))))"

definition scsi :: "'a boot_vars_scheme hooks \<Rightarrow> u8 list \<Rightarrow> u32 \<Rightarrow> u32 \<Rightarrow> ('a boot_vars_scheme, int) prog" where
  "scsi hk command command_size len = (if \<not> storage_read_cdb_valid (Some command) command_size len then ret (- 1)
    else andthen (scsi_wrap command command_size len)
    (bind (bulk hk False CBW_BUFFER 31) (\<lambda>sent.
    if \<not> sent then ret (- 1)
    else bind (if len \<noteq> 0 then bulk hk True TRANSFER_BUFFER len else ret True) (\<lambda>received.
    if \<not> received then ret (- 1)
    else bind (bulk hk True CSW_BUFFER 13) (\<lambda>answered.
    if \<not> answered then ret (- 1)
    else scsi_status len)))))"

definition storage_ready :: "'a boot_vars_scheme hooks \<Rightarrow> ('a boot_vars_scheme, bool) prog" where
  "storage_ready hk = andthen (boot_report 1 6)
    (bind (for_until 0 30 (\<lambda>attempt. bind (scsi hk (replicate 6 0) 6 0) (\<lambda>result.
       if result < 0 then ret (Some False)
       else if result = 1 then bind (scsi hk (0x25 # replicate 9 0) 10 8) (\<lambda>sized.
         if sized \<noteq> 1 then ret (Some False)
         else bind (load_list TRANSFER_BUFFER 8) (\<lambda>d.
         if be32 (drop 4 d) \<noteq> 512 then ret (Some False)
         else andthen (modify (\<lambda>s. s\<lparr>bv_last_block := be32 d\<rparr>))
         (ret (Some (be32 d \<ge> 4095 \<and> be32 d \<noteq> 0xFFFFFFFF))))) else bind (scsi hk [3, 0, 0, 0, 18, 0] 6 18) (\<lambda>sense.
         if sense < 0 then ret (Some False)
         else andthen (delay 100)
         (ret None))))) (\<lambda>r.
    ret (r = Some True)))"

definition read10 :: "u32 \<Rightarrow> u32 \<Rightarrow> u8 list" where
  "read10 lba blocks = [0x28, 0] @ put_be32 lba @ [0, ucast (drop_bit 8 blocks), ucast blocks, 0]"

definition usb_read :: "'a boot_vars_scheme hooks \<Rightarrow> u32 \<Rightarrow> u32 \<Rightarrow> ('a boot_vars_scheme, bool) prog" where
  "usb_read hk lba blocks = bind (gets bv_last_block) (\<lambda>limit.
    if blocks = 0 \<or> blocks > BLOCKS_PER_READ \<or> lba > limit \<or> blocks - 1 > limit - lba then ret False
    else bind (scsi hk (read10 lba blocks) 10 (blocks * 512)) (\<lambda>r.
    ret (r = 1)))"

section \<open>ATA\<close>

definition ata_in8 :: "u16 \<Rightarrow> ('a boot_vars_scheme, u8) prog" where
  "ata_in8 offset = bind (gets bv_ata_port) (\<lambda>port. in8 (port + offset))"

definition ata_out8 :: "u16 \<Rightarrow> u8 \<Rightarrow> ('a boot_vars_scheme, unit) prog" where
  "ata_out8 offset value = bind (gets bv_ata_port) (\<lambda>port. out8 (port + offset) value)"

definition ata_settle :: "('a boot_vars_scheme, unit) prog" where
  "ata_settle = for_each 0 4 (\<lambda>_. andthen (ata_in8 0x206) (ret ()))"

definition ata_wait :: "u8 \<Rightarrow> u8 \<Rightarrow> ('a boot_vars_scheme, bool) prog" where
  "ata_wait m wanted = bind (timed_loop (bind (ata_in8 7) (\<lambda>status.
       ret (if status = 0 \<or> status = 255 then Some False
            else if status AND 0x80 \<noteq> 0 then None
            else if status AND 0x21 \<noteq> 0 then Some False
            else if status AND m = wanted then Some True else None)))) (\<lambda>r.
    ret (r = Some True))"

definition ata_fetch :: "nat \<Rightarrow> ('a boot_vars_scheme, unit) prog" where
  "ata_fetch sector = for_each 0 256 (\<lambda>word. bind (gets bv_ata_port) (\<lambda>port.
    bind (in16 port) (\<lambda>v.
    store16 (TRANSFER_BUFFER + of_nat (sector * 512 + 2 * word)) v)))"

definition ata_read :: "u32 \<Rightarrow> u32 \<Rightarrow> ('a boot_vars_scheme, bool) prog" where
  "ata_read lba blocks = (if blocks = 0 \<or> blocks > BLOCKS_PER_READ \<or> lba > 0x0FFFFFFF \<or> blocks - 1 > 0x0FFFFFFF - lba then ret False
    else andthen (ata_out8 0x206 2)
    (bind (gets bv_ata_device) (\<lambda>device.
    andthen (ata_out8 6 (ucast (0xE0 OR push_bit 4 (ucast device) OR drop_bit 24 lba)))
    (andthen (ata_settle)
    (bind (ata_wait 0xC0 0x40) (\<lambda>idle.
    if \<not> idle then ret False
    else andthen (ata_out8 2 (ucast blocks))
    (andthen (ata_out8 3 (ucast lba))
    (andthen (ata_out8 4 (ucast (drop_bit 8 lba)))
    (andthen (ata_out8 5 (ucast (drop_bit 16 lba)))
    (andthen (ata_out8 7 0x20)
    (bind (for_until 0 (unat blocks) (\<lambda>sector. andthen (ata_settle)
       (bind (ata_wait 8 8) (\<lambda>ready.
       if \<not> ready then ret (Some ())
       else andthen (ata_fetch sector)
       (ret None))))) (\<lambda>failed.
    if failed \<noteq> None then ret False
    else andthen (ata_settle)
    (ata_wait 0x88 0)))))))))))))"

section \<open>Finding a USB disk\<close>

text \<open>
  One port of a running controller: \<open>Some ()\<close> is the \<^verbatim>\<open>return 1\<close> of
  \<^verbatim>\<open>find_usb_disk\<close>, \<open>None\<close> goes on to the next port.
\<close>

definition probe_port :: "'a boot_vars_scheme hooks \<Rightarrow> u32 \<Rightarrow> nat \<Rightarrow> ('a boot_vars_scheme, unit option) prog" where
  "probe_port hk ports p = (let port = of_nat p; index = (0x44 + port * 4) div 4 in bind (ehci_read index) (\<lambda>v.
    if v AND 1 = 0 \<or> v AND push_bit 13 1 \<noteq> 0 then ret None
    else andthen (boot_report 1 3)
    (andthen (boot_report 3 (port + 1))
    (andthen (hk_screen hk ''Native USB: resetting port'' (port + 1))
    (andthen (ehci_write index ((v AND NOT (0x2A OR 4)) OR push_bit 8 1))
    (andthen (delay 50)
    (bind (ehci_read index) (\<lambda>v2.
    andthen (ehci_write index (v2 AND NOT (0x2A OR push_bit 8 1)))
    (bind (wait_register (0x44 + port * 4) (push_bit 8 1) 0) (\<lambda>done.
    andthen (if done then ret () else fail hk ''USB port reset timeout'' (port + 1))
    (andthen (delay 20)
    (bind (ehci_read index) (\<lambda>v3.
    bind (if v3 AND 5 = 5 \<and> v3 AND push_bit 13 1 = 0 then bind (enumerate_storage hk) (\<lambda>enumerated.
       if \<not> enumerated then ret False
       else bind (storage_ready hk) (\<lambda>ready.
       if \<not> ready then ret False
       else hk_accept hk ports port)) else ret False) (\<lambda>accepted.
    if accepted then ret (Some ())
    else bind (ehci_read index) (\<lambda>v4.
    andthen (ehci_write index (v4 AND NOT (0x2A OR 4)))
    (ret None))))))))))))))))"

definition probe_controller :: "'a boot_vars_scheme hooks \<Rightarrow> nat \<Rightarrow> ('a boot_vars_scheme, unit option) prog" where
  "probe_controller hk i = (let device = of_nat (256 * i) in bind (hk_candidate hk device) (\<lambda>wanted.
    if \<not> wanted then ret None
    else bind (pci_read device 0) (\<lambda>ident.
    if ident AND 0xFFFF = 0xFFFF then ret None
    else bind (pci_read device 8) (\<lambda>class_code.
    if drop_bit 8 class_code \<noteq> 0x0C0320 then ret None
    else andthen (hk_screen hk ''Native USB: EHCI'' device)
    (bind (start_controller hk device) (\<lambda>ports.
    bind (for_until 0 (unat ports) (probe_port hk ports)) (\<lambda>found.
    if found \<noteq> None then ret (Some ())
    else andthen (cond (ports > 0) (hk_release hk ports))
    (andthen (stop_controller hk)
    (andthen (modify (\<lambda>s. s\<lparr>bv_ehci := 0\<rparr>))
    (ret None))))))))))"

definition find_usb_disk :: "'a boot_vars_scheme hooks \<Rightarrow> ('a boot_vars_scheme, bool) prog" where
  "find_usb_disk hk = bind (for_until 0 65536 (probe_controller hk)) (\<lambda>r. ret (r \<noteq> None))"

section \<open>The boot loader\<close>

definition screen_digit :: "u32 \<Rightarrow> nat \<Rightarrow> u16" where
  "screen_digit detail i = (let digit = ucast (drop_bit (28 - i * 4) detail AND 15)
     in 0x1F00 OR (if digit < 10 then 48 + digit else 65 + digit - 10))"

definition screen :: "string \<Rightarrow> u32 \<Rightarrow> ('s, unit) prog" where
  "screen message detail = (let shown = take 65 message; vga = (\<lambda>c. 0xB8000 + of_nat (2 * c)) in andthen (for_each 0 80 (\<lambda>i. store16 (vga i) 0x1F20))
    (andthen (for_each 0 (length shown) (\<lambda>i. store16 (vga i) (0x1F00 OR of_char (shown ! i))))
    (andthen (store16 (vga (length shown)) 0x1F20)
    (for_each 0 8 (\<lambda>i. store16 (vga (length shown + 1 + i)) (screen_digit detail i))))))"

text \<open>The loader's hooks, except for the choice of the disk, which needs the reader.\<close>

definition base_hooks :: "'s hooks" where
  "base_hooks = \<lparr>hk_screen = screen, hk_capability = ret, hk_candidate = (\<lambda>_. ret True),
     hk_accept = (\<lambda>_ _. ret False), hk_release = (\<lambda>_. ret ())\<rparr>"

definition read_blocks :: "u32 \<Rightarrow> u32 \<Rightarrow> (boot_vars, bool) prog" where
  "read_blocks lba blocks = bind (gets bv_backend) (\<lambda>b.
     if b = 1 then usb_read base_hooks lba blocks else ata_read lba blocks)"

definition matches_boot_image :: "(boot_vars, bool) prog" where
  "matches_boot_image = bind (gets bv_backend) (\<lambda>b.
    andthen (cond (b = 1) (boot_report 1 7))
    (bind (read_blocks 0 1) (\<lambda>first.
    if \<not> first then ret False
    else bind (equal_mem TRANSFER_BUFFER 0x7C00 16) (\<lambda>same.
    bind (load8 (TRANSFER_BUFFER + 510)) (\<lambda>m510.
    bind (load8 (TRANSFER_BUFFER + 511)) (\<lambda>m511.
    if \<not> same \<or> m510 \<noteq> 0x55 \<or> m511 \<noteq> 0xAA then ret False
    else bind (read_blocks 5 1) (\<lambda>sixth.
    if \<not> sixth then ret False
    else equal_mem TRANSFER_BUFFER MANIFEST 40)))))))"

definition boot_hooks :: "boot_vars hooks" where
  "boot_hooks = base_hooks\<lparr>hk_accept := \<lambda>_ _. matches_boot_image\<rparr>"

definition boot_find_usb_disk :: "(boot_vars, bool) prog" where
  "boot_find_usb_disk = andthen (modify (\<lambda>s. s\<lparr>bv_backend := 1\<rparr>)) (find_usb_disk boot_hooks)"

definition probe_ide_channel :: "u32 \<Rightarrow> nat \<Rightarrow> (boot_vars, unit option) prog" where
  "probe_ide_channel mode channel = (if mode AND (if channel \<noteq> 0 then 4 else 1) \<noteq> 0 then ret None
    else andthen (modify (\<lambda>s. s\<lparr>bv_ata_port := if channel \<noteq> 0 then 0x170 else 0x1F0\<rparr>))
    (bind (for_until 0 2 (\<lambda>d. andthen (modify (\<lambda>s. s\<lparr>bv_ata_device := of_nat d\<rparr>))
       (bind (matches_boot_image) (\<lambda>ok.
       ret (if ok then Some () else None))))) (\<lambda>found.
    if found \<noteq> None then ret found
    else andthen (modify (\<lambda>s. s\<lparr>bv_ata_device := 2\<rparr>))
    (ret None))))"

definition find_ide_disk :: "(boot_vars, bool) prog" where
  "find_ide_disk = andthen (modify (\<lambda>s. s\<lparr>bv_backend := 2\<rparr>))
    (bind (for_until 0 65536 (\<lambda>i. let device = of_nat (256 * i) in bind (pci_read device 0) (\<lambda>ident.
       if ident AND 0xFFFF = 0xFFFF then ret None
       else bind (pci_read device 8) (\<lambda>class_code.
       if drop_bit 16 class_code \<noteq> 0x0101 then ret None
       else bind (pci_read device 4) (\<lambda>command.
       if command AND 1 = 0 then ret None
       else for_until 0 2 (probe_ide_channel (drop_bit 8 class_code AND 255))))))) (\<lambda>r.
    ret (r \<noteq> None)))"

lemma load_count_decreases:
  assumes "loaded < (sectors :: u32)"
  defines "count \<equiv> if sectors - loaded > BLOCKS_PER_READ then BLOCKS_PER_READ else sectors - loaded"
  shows "unat (sectors - (loaded + count)) < unat (sectors - loaded)" "unat (loaded + count) = unat loaded + unat count"
    "loaded + count \<le> sectors" "count \<le> 32" "count \<noteq> 0"
proof -
  have l: "unat loaded < unat sectors" using assms(1) by (simp add: word_less_nat_alt)
  have d: "unat (sectors - loaded) = unat sectors - unat loaded" using assms(1) by (simp add: unat_sub_le)
  have c: "unat count = min 32 (unat sectors - unat loaded)"
    unfolding count_def using d by (auto simp: word_less_nat_alt min_def)
  then show "count \<noteq> 0" "count \<le> 32" using l by (auto simp: word_le_nat_alt)
  have "unat sectors < 2 ^ 32" using unsigned_less [of sectors] by simp
  then show s: "unat (loaded + count) = unat loaded + unat count"
    using c l by (subst unat_plus_if') auto
  then show "loaded + count \<le> sectors" using c l by (auto simp: word_le_nat_alt)
  then have "unat (sectors - (loaded + count)) = unat sectors - (unat loaded + unat count)"
    using s by (simp add: unat_sub_le)
  then show "unat (sectors - (loaded + count)) < unat (sectors - loaded)" unfolding c d using l by arith
qed

function load_loop :: "u32 \<Rightarrow> u32 \<Rightarrow> u32 \<Rightarrow> u32 \<Rightarrow> (boot_vars, unit) prog" where
  "load_loop lba sectors destination loaded =
     (if loaded < sectors then
        let count = (if sectors - loaded > BLOCKS_PER_READ then BLOCKS_PER_READ else sectors - loaded) in andthen (boot_report 6 (lba + loaded))
          (bind (gets bv_backend) (\<lambda>b.
          andthen (screen (if b = 1 then ''USB loading LBA'' else ''IDE loading LBA'') (lba + loaded))
          (bind (read_blocks (lba + loaded) count) (\<lambda>ok.
          andthen (if ok then ret () else fail base_hooks ''Native disk read failed at LBA'' (lba + loaded))
          (andthen (copy_mem (destination + loaded * 512) TRANSFER_BUFFER (count * 512))
          (load_loop lba sectors destination (loaded + count))))))) else ret ())"
  by pat_completeness auto
termination
  by (relation "measure (\<lambda>(lba, sectors, destination, loaded). unat (sectors - loaded))")
     (simp, clarify, simp only: in_measure prod.case load_count_decreases(1))

declare load_loop.simps [simp del]

definition load_image :: "u32 \<Rightarrow> u32 \<Rightarrow> u32 \<Rightarrow> u32 \<Rightarrow> (boot_vars, unit) prog" where
  "load_image lba sectors destination crc = andthen (load_loop lba sectors destination 0)
    (bind ((\<lambda>e w. Done (mem w) w)) (\<lambda>m.
    if boot_crc32 m destination (sectors * 512) \<noteq> crc
     then fail base_hooks ''Kernel payload CRC mismatch'' destination else ret ()))"

definition manifest_of :: "(u32 \<Rightarrow> u8) \<Rightarrow> boot_manifest" where
  "manifest_of m = (let f = (\<lambda>i. mem_load32 m (MANIFEST + 4 * i)) in
     \<lparr>magic = [f 0, f 1], version = f 2, setup_sectors = f 3, high_lba = f 4, high_sectors = f 5,
      high_crc = f 6, interrupts_lba = f 7, interrupts_sectors = f 8, interrupts_crc = f 9\<rparr>)"

definition get_manifest :: "('s, boot_manifest) prog" where
  "get_manifest = (\<lambda>e w. Done (manifest_of (mem w)) w)"

definition boot_zero :: boot_vars where
  "boot_zero = \<lparr>bv_ehci = 0, bv_ticks_per_ms = 0, bv_usb_address = 0, bv_usb_tag = 0, bv_last_block = 0,
     bv_toggle_in = 0, bv_toggle_out = 0, bv_transport_dead = 0,
     bv_usb_interface = \<lparr>configuration = 0, interface_number = 0, bulk_in = 0, bulk_out = 0\<rparr>,
     bv_ata_port = 0, bv_ata_device = 0, bv_backend = 0\<rparr>"

definition boot_prepare :: "(boot_vars, unit) prog" where
  "boot_prepare = andthen (modify (\<lambda>_. boot_zero))
    (andthen (zero_mem 0x3004F000 32)
    (andthen (boot_report 0 0x42535452)
    (andthen (boot_report 1 1)
    (andthen (zero_mem DMA_BASE 0x7000)
    (bind (get_manifest) (\<lambda>m.
    andthen (if boot_manifest_valid m then ret () else fail base_hooks ''Invalid bootstrap manifest'' (version m))
    (andthen (screen ''Starting native storage loader'' 0)
    (calibrate_timer base_hooks))))))))"

definition boot_find_disk :: "(boot_vars, unit) prog" where
  "boot_find_disk = bind boot_find_usb_disk (\<lambda>usb.
    bind (if usb then ret True else find_ide_disk) (\<lambda>found.
    bind (load32 0x3004F004) (\<lambda>stage.
    if found then ret ()
    else fail base_hooks ''No matching USB2/IDE boot image; USB stage'' stage)))"

definition bootstrap_load_images :: "(boot_vars, unit) prog" where
  "bootstrap_load_images = andthen (boot_prepare)
    (andthen (boot_find_disk)
    (bind (gets bv_backend) (\<lambda>backend.
    andthen (boot_report 7 backend)
    (bind (get_manifest) (\<lambda>m.
    andthen (load_image (high_lba m) (high_sectors m) 0x34000000 (high_crc m))
    (bind (get_manifest) (\<lambda>m2.
    andthen (load_image (interrupts_lba m2) (interrupts_sectors m2) 0x32000000 (interrupts_crc m2))
    (andthen (stop_controller base_hooks)
    (andthen (boot_report 1 8)
    (bind (gets bv_backend) (\<lambda>backend2.
    screen ''Native kernel loading complete'' backend2)))))))))))"

end
