(* ===== verification/Boot_Safety.thy ===== *)
theory Boot_Safety
  imports Boot_Transport
begin

text \<open>
  What the transport may touch. The locale \<^verbatim>\<open>transport_invariant\<close> states the laws an
  invariant has to satisfy on the primitive accesses of the transport (which ports, which memory,
  which variables); inside it every operation of the transport is shown to keep the invariant. It
  is interpreted twice for the loader: for the history of commands sent to an ATA
  channel, and for the memory outside the loader's own buffers. The second half of the theory
  is about the clock: with one that advances, every bounded wait comes back.
\<close>

section \<open>The area the transport writes\<close>

definition scratch :: "u32 \<Rightarrow> nat \<Rightarrow> bool" where
  "scratch a n \<longleftrightarrow> 0x3004F000 \<le> unat a \<and> unat a + n \<le> 0x30057000"

lemma scratch_mono: "scratch a n \<Longrightarrow> m \<le> n \<Longrightarrow> scratch a m"
  by (auto simp: scratch_def)

lemma mem_store_list_outside:
  "unat a + length bs \<le> 2 ^ 32 \<Longrightarrow> unat x < unat a \<or> unat a + length bs \<le> unat x \<Longrightarrow>
   mem_store_list a bs m x = m x"
proof (induction bs arbitrary: a m)
  case (Cons b bs)
  show ?case
  proof (cases "bs = []")
    case True
    then show ?thesis using Cons.prems by auto
  next
    case False
    then have "0 < length bs" by simp
    then have "unat a + 1 < 2 ^ 32" using Cons.prems(1) unfolding list.size by linarith
    then have "unat (a + 1) = unat a + 1" by (simp add: unat_word_ariths)
    then have "mem_store_list (a + 1) bs (m(a := b)) x = (m(a := b)) x"
      using Cons.prems by (intro Cons.IH) auto
    then show ?thesis using Cons.prems(2) by auto
  qed
qed simp

lemma store32_list:
  "store32 a v = store_list a [ucast v, ucast (drop_bit 8 v), ucast (drop_bit 16 v), ucast (drop_bit 24 v)]"
  by (simp add: store32_def store_list_def mem_store32_def add.commute)

lemma store8_list: "store8 a v = store_list a [v]"
  by (simp add: store8_def store_list_def)

section \<open>Invariants of the transport\<close>

lemma short_bodies:
  "short (bind (ehci_read i) (\<lambda>v. ret (g v)))"
  "short (bind (pci_read d j) (\<lambda>v. ret (g v)))"
  "short (bind (ata_in8 k) (\<lambda>b. ret (h b)))"
  "short (transfer_poll q)"
  by (intro shortI, simp add: ehci_read_def pci_read_def ata_in8_def transfer_poll_def prog_simps)+

definition same_disk :: "('a boot_vars_scheme \<Rightarrow> 'a boot_vars_scheme) \<Rightarrow> bool" where
  "same_disk f \<longleftrightarrow> (\<forall>s. bv_ata_port (f s) = bv_ata_port s \<and> bv_ata_device (f s) = bv_ata_device s \<and>
     bv_backend (f s) = bv_backend s \<and> bv_ticks_per_ms (f s) = bv_ticks_per_ms s \<and> boot_vars.more (f s) = boot_vars.more s)"

locale transport_invariant =
  fixes e :: env and I K J :: "'a boot_vars_scheme world \<Rightarrow> bool" and hk :: "'a boot_vars_scheme hooks"
  assumes reads: "keeps e I K J (in8 p)" "keeps e I K J (in16 p)" "keeps e I K J (in32 p)" "keeps e I K J tsc"
      "keeps e I K J (mmio_read a)" "keeps e I K J dma_sync"
    and registers: "keeps e I K J (mmio_write a v)" "keeps e I K J fence"
    and clock: "keeps e I K J (calibrate_timer hk)" "unat ms \<le> 1000 \<Longrightarrow> keeps e I K J (delay ms)"
    and timed: "short (body :: ('a boot_vars_scheme, unit option) prog) \<Longrightarrow> keeps e I K J body \<Longrightarrow>
        keeps e I K J (timed_loop body)"
      "short (test :: ('a boot_vars_scheme, bool option) prog) \<Longrightarrow> keeps e I K J test \<Longrightarrow>
        keeps e I K J (timed_loop test)"
    and pci: "p = 0xCF8 \<or> p = 0xCFC \<Longrightarrow> keeps e I K J (out32 p v)"
    and ata: "offset = 7 \<and> b = 0x20 \<or> offset = 6 \<or> offset = 5 \<or> offset = 4 \<or> offset = 3 \<or> offset = 2 \<or> offset = 0x206 \<Longrightarrow>
      keeps e I K J (ata_out8 offset b)"
    and memory: "scratch a (length bs) \<Longrightarrow> keeps e I K J (store_list a bs)"
    and variables: "same_disk f \<Longrightarrow> keeps e I K J (modify f)"
    and hook: "keeps e I K J (hk_screen hk msg v)" "keeps e I K J (hk_capability hk v)" "keeps e I K J (hk_candidate hk v)"
      "keeps e I K J (hk_accept hk ports v)" "keeps e I K J (hk_release hk v)"
    and halts: "I w \<Longrightarrow> K w"
begin

lemmas laws = reads registers hook clock keeps_intros

lemma stores: "scratch a 4 \<Longrightarrow> keeps e I K J (store32 a v)" "scratch a 2 \<Longrightarrow> keeps e I K J (store16 a h)"
    "scratch a 1 \<Longrightarrow> keeps e I K J (store8 a b)" "scratch a n \<Longrightarrow> keeps e I K J (zero_mem a n)"
  by (simp_all add: store32_list store8_list store16_def zero_mem_def memory eval_nat_numeral)

lemma boot_report_keeps: "i < 8 \<Longrightarrow> keeps e I K J (boot_report i v)"
  unfolding boot_report_def
  by (rule stores(1)) (simp add: scratch_def unat_word_ariths unat_of_nat)

lemma fail_keeps: "keeps e I K J (fail hk msg v)"
  unfolding fail_def by (intro laws keeps_panic halts)

lemma pci_keeps: "keeps e I K J (pci_read d i)" "keeps e I K J (pci_write d i v)"
  unfolding pci_read_def pci_write_def by (intro laws pci; simp)+

lemma dma_load32_keeps: "keeps e I K J (dma_load32 a)"
  unfolding dma_load32_def by (intro laws)

lemma ehci_keeps: "keeps e I K J (ehci_read i)" "keeps e I K J (ehci_write i v)"
  unfolding ehci_read_def ehci_write_def by (intro laws)+

lemma wait_register_keeps: "keeps e I K J (wait_register i m v)"
  unfolding wait_register_def by (intro laws timed ehci_keeps short_bodies)

lemmas steps = laws stores boot_report_keeps fail_keeps pci_keeps dma_load32_keeps ehci_keeps
  wait_register_keeps

lemma stop_controller_keeps: "keeps e I K J (stop_controller hk)"
  unfolding stop_controller_def by (intro steps)

lemma take_ownership_keeps: "keeps e I K J (take_ownership n d x)"
proof (induction n arbitrary: x)
  case (Suc n)
  show ?case unfolding take_ownership.simps Let_def by (intro steps timed short_bodies Suc.IH)
qed (simp add: keeps_ret)

lemma run_controller_keeps: "keeps e I K J (run_controller hk d c)"
  unfolding run_controller_def Let_def
  by (intro steps stop_controller_keeps) (simp_all add: scratch_def unat_word_ariths unat_of_nat)

lemma start_controller_keeps: "keeps e I K J (start_controller hk d)"
  unfolding start_controller_def Let_def
  by (intro steps take_ownership_keeps run_controller_keeps variables) (simp_all add: same_disk_def)

lemma make_qtd_keeps:
  assumes "unat q \<le> 2"
  shows "keeps e I K J (make_qtd q pid toggle buffer len nxt)"
proof -
  have q: "unat (0x30050100 + 64 * q) = 0x30050100 + 64 * unat q"
    using assms by (simp add: unat_word_ariths)
  have "scratch (0x30050100 + 64 * q) 64"
    using assms by (simp add: scratch_def q)
  moreover have "scratch (0x30050100 + 64 * q + of_nat k) 4" if "k < 32" for k
  proof -
    have "unat (0x30050100 + 64 * q + of_nat k) = 0x30050100 + 64 * unat q + k"
      using that assms by (subst unat_plus_if') (simp add: q unat_of_nat)
    then show ?thesis using that assms by (simp add: scratch_def)
  qed
  note this [of 0] this [of 4] this [of 8] this [of 12] this [of "12 + 4 * i" for i]
  ultimately show ?thesis
    unfolding make_qtd_def Let_def
    by (intro steps) (simp_all add: add.assoc)
qed

lemma transfer_setup_keeps: "keeps e I K J (transfer_setup i n)"
  unfolding transfer_setup_def by (intro steps) (simp_all add: scratch_def)

lemma transfer_keeps: "keeps e I K J (transfer hk i n q)"
proof -
  have "keeps e I K J (transfer_poll q)" unfolding transfer_poll_def by (intro steps)
  then show ?thesis
    unfolding transfer_def transfer_finish_def Let_def
    by (intro steps timed short_bodies transfer_setup_keeps variables) (simp_all add: same_disk_def)
qed

lemma control_keeps: "keeps e I K J (control hk kind request v i len)"
  unfolding control_def Let_def
  by (intro steps memory make_qtd_keeps transfer_keeps) (simp_all add: scratch_def)

lemma enumerate_storage_keeps: "keeps e I K J (enumerate_storage hk)"
proof -
  have "keeps e I K J (try_configuration hk i)" for i
    unfolding try_configuration_def Let_def
    by (intro steps control_keeps) (auto intro!: steps control_keeps variables simp: same_disk_def split: option.split)
  then show ?thesis unfolding enumerate_storage_def
    by (intro steps control_keeps variables) (simp_all add: same_disk_def)
qed

lemma bulk_keeps: "keeps e I K J (bulk hk input buffer len)"
  unfolding bulk_def Let_def
  by (intro steps make_qtd_keeps transfer_keeps variables) (simp_all add: same_disk_def)

lemma scsi_keeps: "keeps e I K J (scsi hk cdb n len)"
proof -
  have "keeps e I K J dead_transport"
    unfolding dead_transport_def by (intro steps variables) (simp add: same_disk_def)
  then have "keeps e I K J (scsi_status len)" unfolding scsi_status_def by (intro steps)
  moreover have "keeps e I K J (scsi_wrap cdb n len)" if "storage_read_cdb_valid (Some cdb) n len"
  proof -
    have "unat n \<le> 10" using that by (auto simp: storage_read_cdb_valid_def split: if_splits)
    then show ?thesis unfolding scsi_wrap_def
      by (intro steps variables memory) (simp_all add: scratch_def same_disk_def)
  qed
  ultimately show ?thesis unfolding scsi_def by (intro steps bulk_keeps; simp)
qed

lemma storage_ready_keeps: "keeps e I K J (storage_ready hk)"
  unfolding storage_ready_def by (intro steps scsi_keeps variables) (simp_all add: same_disk_def)

lemma usb_read_keeps: "keeps e I K J (usb_read hk lba blocks)"
  unfolding usb_read_def by (intro steps scsi_keeps)

lemma ata_keeps: "keeps e I K J (ata_in8 i)" "keeps e I K J ata_settle" "keeps e I K J (ata_wait m v)"
proof -
  show "keeps e I K J (ata_in8 k)" for k unfolding ata_in8_def by (intro steps)
  then show "keeps e I K J ata_settle" "keeps e I K J (ata_wait m v)"
    unfolding ata_settle_def ata_wait_def by (intro steps timed short_bodies; simp)+
qed

lemma ata_fetch_keeps: "sector < 32 \<Longrightarrow> keeps e I K J (ata_fetch sector)"
  unfolding ata_fetch_def
  by (intro steps) (simp add: scratch_def unat_word_ariths unat_of_nat)

lemma ata_read_keeps: "keeps e I K J (ata_read lba blocks)"
proof -
  have "unat blocks \<le> 32" if "\<not> blocks > BLOCKS_PER_READ" using that by (simp add: word_less_nat_alt)
  then show ?thesis unfolding ata_read_def
    by (intro steps ata ata_keeps ata_fetch_keeps) auto
qed

lemma find_usb_disk_keeps: "keeps e I K J (find_usb_disk hk)"
proof -
  have "keeps e I K J (probe_port hk ports i)" for ports i
    unfolding probe_port_def Let_def by (intro steps enumerate_storage_keeps storage_ready_keeps) simp_all
  then have "keeps e I K J (probe_controller hk i)" for i
    unfolding probe_controller_def Let_def
    by (intro steps start_controller_keeps stop_controller_keeps variables) (simp_all add: same_disk_def)
  then show ?thesis unfolding find_usb_disk_def by (intro steps)
qed

end

section \<open>Invariants of the loader\<close>

locale loader_invariant = transport_invariant e I K J "base_hooks :: boot_vars hooks"
  for e and I K J :: "boot_vars world \<Rightarrow> bool" +
  assumes vga: "0xB8000 \<le> unat a \<Longrightarrow> unat a + length bs \<le> 0xB80A0 \<Longrightarrow> keeps e I K J (store_list a bs)"
    and channel: "p = 0x170 \<or> p = 0x1F0 \<Longrightarrow> keeps e I K J (modify (\<lambda>s. s\<lparr>bv_ata_port := p\<rparr>))"
    and choice: "keeps e I K J (modify (\<lambda>s. s\<lparr>bv_ata_device := d\<rparr>))" "keeps e I K J (modify (\<lambda>s. s\<lparr>bv_backend := k\<rparr>))"
begin

lemma screen_keeps: "keeps e I K J (screen msg v)"
proof -
  have "keeps e I K J (store16 (0xB8000 + of_nat (2 * c)) h)" if "c < 80" for c h
    unfolding store16_def using that by (intro vga) (simp_all add: unat_word_ariths unat_of_nat)
  note cell = this
  show ?thesis unfolding screen_def Let_def by (intro keeps_intros cell) auto
qed

lemma read_blocks_keeps: "keeps e I K J (read_blocks lba blocks)"
  unfolding read_blocks_def by (intro steps usb_read_keeps ata_read_keeps)

lemma matches_boot_image_keeps: "keeps e I K J matches_boot_image"
  unfolding matches_boot_image_def equal_mem_def by (intro steps read_blocks_keeps) simp

end

sublocale loader_invariant \<subseteq> chosen: transport_invariant e I K J boot_hooks
proof
  have "(fail boot_hooks :: _ \<Rightarrow> _ \<Rightarrow> (boot_vars, unit) prog) = fail base_hooks"
    by (simp add: fun_eq_iff fail_def boot_hooks_def base_hooks_def)
  then have "calibrate_timer boot_hooks = calibrate_timer base_hooks"
    by (simp only: calibrate_timer_def)
  then show "keeps e I K J (calibrate_timer boot_hooks)" using clock(1) by simp
qed (insert hook matches_boot_image_keeps, simp_all add: boot_hooks_def base_hooks_def keeps_ret reads
    registers clock timed pci ata memory variables halts)

context loader_invariant
begin

lemma find_ide_disk_keeps: "keeps e I K J find_ide_disk"
proof -
  have "keeps e I K J (probe_ide_channel mode c)" for mode c
    unfolding probe_ide_channel_def by (intro steps matches_boot_image_keeps choice channel) simp
  then show ?thesis unfolding find_ide_disk_def Let_def by (intro steps choice)
qed

lemma boot_find_disk_keeps: "keeps e I K J boot_find_disk"
  unfolding boot_find_disk_def boot_find_usb_disk_def
  by (intro steps choice find_ide_disk_keeps chosen.find_usb_disk_keeps)

end

text \<open>An invariant that does not look at the images being loaded is kept by the whole loader.\<close>

locale whole_loader_invariant = loader_invariant e I K J for e and I K J :: "boot_vars world \<Rightarrow> bool" +
  assumes images: "keeps e I K J (copy_mem d s n)"
    and reset: "keeps e I K J (modify (\<lambda>_. boot_zero))"
begin

lemma load_loop_keeps: "keeps e I K J (load_loop lba sectors destination loaded)"
proof (induction lba sectors destination loaded rule: load_loop.induct)
  case (1 lba sectors destination loaded)
  show ?case
    unfolding load_loop.simps [of lba sectors destination loaded] Let_def
    by (intro steps read_blocks_keeps screen_keeps images 1 refl) simp_all
qed

lemma bootstrap_keeps: "keeps e I K J bootstrap_load_images"
proof -
  have m: "keeps e I K J get_manifest" by (simp add: keeps_def get_manifest_def)
  then have "keeps e I K J boot_prepare"
    unfolding boot_prepare_def by (intro steps screen_keeps reset) (simp_all add: scratch_def)
  moreover have "keeps e I K J (load_image lba n d crc)" for lba n d crc
    unfolding load_image_def by (intro steps load_loop_keeps) (simp add: keeps_def)
  ultimately show ?thesis unfolding bootstrap_load_images_def
    by (intro steps m screen_keeps boot_find_disk_keeps stop_controller_keeps) simp_all
qed

end

section \<open>Invariants of every run\<close>

lemma calibrate_timer_keeps:
  assumes "\<And>p. keeps e I K J (in8 p)" "keeps e I K J tsc" "\<And>p b. p = 0x61 \<or> p = 0x42 \<or> p = 0x43 \<Longrightarrow> keeps e I K J (out8 p b)"
    "\<And>t. keeps e I K J (modify (\<lambda>s. s\<lparr>bv_ticks_per_ms := t\<rparr>))" "\<And>msg v. keeps e I K J (hk_screen hk msg v)"
    "\<And>w. I w \<Longrightarrow> K w"
  shows "keeps e I K J (calibrate_timer hk)"
  unfolding calibrate_timer_def Let_def fail_def by (intro keeps_intros keeps_panic assms) simp_all

lemma delay_keeps: "keeps e I I I tsc \<Longrightarrow> keeps e I I I (delay ms)"
  unfolding delay_def by (rule delay_by_keeps)

lemma timed_loop_keeps: "keeps e I I I tsc \<Longrightarrow> keeps e I I I body \<Longrightarrow> keeps e I I I (timed_loop body)"
  unfolding timed_loop_def by (rule timed_by_keeps)

section \<open>The ATA command history\<close>

text \<open>
  What may be written to the two legacy ATA channels: nothing to a data port, only the
  listed commands to a command port, and no 16- or 32-bit output at all except to the PCI
  configuration ports.
\<close>

definition ata_quiet :: "u8 list \<Rightarrow> io_event \<Rightarrow> bool" where
  "ata_quiet commands ev = (case ev of
     Out8 p v \<Rightarrow> p \<noteq> 0x1F0 \<and> p \<noteq> 0x170 \<and> (p = 0x1F7 \<or> p = 0x177 \<longrightarrow> v \<in> set commands)
   | Out16 p v \<Rightarrow> False
   | Out32 p v \<Rightarrow> p = 0xCF8 \<or> p = 0xCFC
   | _ \<Rightarrow> True)"

text \<open>\<^verbatim>\<open>grown P h l\<close>: the history \<open>l\<close> extends \<open>h\<close> by events with \<open>P\<close>.\<close>

definition grown :: "(io_event \<Rightarrow> bool) \<Rightarrow> io_event list \<Rightarrow> io_event list \<Rightarrow> bool" where
  "grown P h l \<longleftrightarrow> (\<exists>new. l = new @ h \<and> list_all P new)"

lemma grown_refl [simp]: "grown P h h"
  by (simp add: grown_def)

lemma grown_Cons [simp]: "grown P h l \<Longrightarrow> P ev \<Longrightarrow> grown P h (ev # l)"
  by (auto simp: grown_def intro: exI [of _ "ev # _"])

definition disk_safe :: "u8 list \<Rightarrow> io_event list \<Rightarrow> 'a boot_vars_scheme world \<Rightarrow> bool" where
  "disk_safe commands h w \<longleftrightarrow> grown (ata_quiet commands) h (io w) \<and>
     (bv_ata_port (vars w) = 0 \<or> bv_ata_port (vars w) = 0x1F0 \<or> bv_ata_port (vars w) = 0x170)"

lemma disk_safe_memory: "keeps e (disk_safe c h) (disk_safe c h) (disk_safe c h) (store_list a bs)" "keeps e (disk_safe c h) (disk_safe c h) (disk_safe c h) (mem_apply g)"
  "keeps e (disk_safe c h) (disk_safe c h) (disk_safe c h) (kernel_call fn args)"
  "keeps e (disk_safe c h) (disk_safe c h) (disk_safe c h) irq_save" "keeps e (disk_safe c h) (disk_safe c h) (disk_safe c h) (irq_restore b)"
  by (simp_all add: keeps_def disk_safe_def prog_simps ata_quiet_def)

lemma disk_safe_modify:
  "(\<And>s. bv_ata_port (f s) = bv_ata_port s \<or> bv_ata_port (f s) = 0 \<or> bv_ata_port (f s) = 0x170 \<or> bv_ata_port (f s) = 0x1F0)
   \<Longrightarrow> keeps e (disk_safe c h) (disk_safe c h) (disk_safe c h) (modify f)"
  by (simp add: keeps_def disk_safe_def run_modify; metis)

lemma disk_safe_ata:
  assumes "offset = 7 \<and> b \<in> set c \<or> offset = 6 \<or> offset = 5 \<or> offset = 4 \<or> offset = 3 \<or> offset = 2 \<or> offset = 0x206"
  shows "keeps e (disk_safe c h) (disk_safe c h) (disk_safe c h) (ata_out8 offset b)"
proof (rule keepsI)
  fix w :: "'a boot_vars_scheme world"
  assume w: "disk_safe c h w"
  have "ata_quiet c (Out8 (bv_ata_port (vars w) + offset) b)"
    using w assms unfolding disk_safe_def by (elim conjE disjE) (simp_all add: ata_quiet_def)
  then show "disk_safe c h (final (ata_out8 offset b e w))"
    using w by (simp add: disk_safe_def ata_out8_def prog_simps)
qed

lemma disk_safe_ports:
  "keeps e (disk_safe c h) (disk_safe c h) (disk_safe c h) (in8 p)" "keeps e (disk_safe c h) (disk_safe c h) (disk_safe c h) (in16 p)"
  "keeps e (disk_safe c h) (disk_safe c h) (disk_safe c h) (in32 p)" "keeps e (disk_safe c h) (disk_safe c h) (disk_safe c h) tsc"
  "keeps e (disk_safe c h) (disk_safe c h) (disk_safe c h) (mmio_read a)" "keeps e (disk_safe c h) (disk_safe c h) (disk_safe c h) dma_sync"
  "keeps e (disk_safe c h) (disk_safe c h) (disk_safe c h) (mmio_write a v)" "keeps e (disk_safe c h) (disk_safe c h) (disk_safe c h) fence"
  "p = 0x61 \<or> p = 0x42 \<or> p = 0x43 \<Longrightarrow> keeps e (disk_safe c h) (disk_safe c h) (disk_safe c h) (out8 p b)"
  "p = 0xCF8 \<or> p = 0xCFC \<Longrightarrow> keeps e (disk_safe c h) (disk_safe c h) (disk_safe c h) (out32 p v)"
  by (auto simp: keeps_def disk_safe_def prog_simps ata_quiet_def)

lemma disk_safe_invariant:
  assumes "0x20 \<in> set c"
    and hooks: "\<And>msg v. keeps e (disk_safe c h) (disk_safe c h) (disk_safe c h) (hk_screen hk msg v)"
      "\<And>v. keeps e (disk_safe c h) (disk_safe c h) (disk_safe c h) (hk_capability hk v)"
      "\<And>v. keeps e (disk_safe c h) (disk_safe c h) (disk_safe c h) (hk_candidate hk v)"
      "\<And>p v. keeps e (disk_safe c h) (disk_safe c h) (disk_safe c h) (hk_accept hk p v)"
      "\<And>v. keeps e (disk_safe c h) (disk_safe c h) (disk_safe c h) (hk_release hk v)"
  shows "transport_invariant e (disk_safe c h) (disk_safe c h) (disk_safe c h) hk"
proof
  show "keeps e (disk_safe c h) (disk_safe c h) (disk_safe c h) (modify f)" if "same_disk f"
    for f :: "'a boot_vars_scheme \<Rightarrow> 'a boot_vars_scheme"
    by (rule disk_safe_modify) (use that in \<open>simp add: same_disk_def\<close>)
  show "keeps e (disk_safe c h) (disk_safe c h) (disk_safe c h) (ata_out8 i b)"
    if "i = 7 \<and> b = 0x20 \<or> i = 6 \<or> i = 5 \<or> i = 4 \<or> i = 3 \<or> i = 2 \<or> i = 0x206" for i b
    by (rule disk_safe_ata) (use that assms(1) in auto)
  show "keeps e (disk_safe c h) (disk_safe c h) (disk_safe c h) (calibrate_timer hk)"
    by (intro calibrate_timer_keeps disk_safe_ports hooks disk_safe_modify) simp_all
qed (simp_all add: hooks disk_safe_memory disk_safe_ports delay_keeps timed_loop_keeps)

lemma screen_disk_safe: "keeps e (disk_safe c h) (disk_safe c h) (disk_safe c h) (screen msg v)"
  unfolding screen_def Let_def store16_def by (intro keeps_intros disk_safe_memory)

interpretation boot_disk: whole_loader_invariant e "disk_safe [0x20] h" "disk_safe [0x20] h" "disk_safe [0x20] h" for e h
proof (intro whole_loader_invariant.intro whole_loader_invariant_axioms.intro
    loader_invariant.intro loader_invariant_axioms.intro)
  show "transport_invariant e (disk_safe [0x20] h) (disk_safe [0x20] h) (disk_safe [0x20] h) (base_hooks :: boot_vars hooks)"
    by (rule disk_safe_invariant) (simp_all add: base_hooks_def keeps_ret screen_disk_safe)
qed (auto intro!: disk_safe_memory disk_safe_modify simp: copy_mem_def boot_zero_def)

section \<open>Memory outside the loader's buffers\<close>

text \<open>
  A controller that respects its descriptors writes to the DMA area only; then the loader
  changes memory in its scratch area, on the first line of the text screen and, while it loads, in
  the image.
\<close>

definition dma_confined :: "env \<Rightarrow> bool" where
  "dma_confined e \<longleftrightarrow> (\<forall>h a. env_dma e h a \<noteq> None \<longrightarrow> 0x30050000 \<le> unat a \<and> unat a < 0x30057000)"

definition loader_owned :: "u32 \<Rightarrow> bool" where
  "loader_owned a \<longleftrightarrow> 0x3004F000 \<le> unat a \<and> unat a < 0x30057000 \<or> 0xB8000 \<le> unat a \<and> unat a < 0xB80A0"

definition frame :: "env \<Rightarrow> u32 set \<Rightarrow> (u32 \<Rightarrow> u8) \<Rightarrow> 'a boot_vars_scheme world \<Rightarrow> bool" where
  "frame e R m w \<longleftrightarrow> (dma_confined e \<longrightarrow> (\<forall>a. a \<notin> R \<longrightarrow> \<not> loader_owned a \<longrightarrow> mem w a = m a))"

lemma frame_store:
  assumes "\<And>x. unat a \<le> unat x \<Longrightarrow> unat x < unat a + length bs \<Longrightarrow> loader_owned x" "unat a + length bs \<le> 2 ^ 32"
  shows "keeps e (frame e R m) (frame e R m) (frame e R m) (store_list a bs)"
  unfolding keeps_def frame_def store_list_def
  using assms by (auto simp: mem_store_list_outside not_less) (metis mem_store_list_outside not_less assms(2))

lemma copy_forward_outside:
  "\<not> (i \<le> a - d \<and> a - d < c) \<Longrightarrow> copy_forward m d s i c a = m a"
proof (induction m d s i c rule: copy_forward.induct)
  case (1 m d s i c)
  show ?case
  proof (cases "i < c")
    case True
    then have "\<not> (i + 1 \<le> a - d \<and> a - d < c)" using 1(2) by (auto simp: word_range_Suc)
    moreover have "a \<noteq> d + i" using 1(2) True by auto
    ultimately have "copy_forward (m(d + i := m (s + i))) d s (i + 1) c a = m a"
      using 1(1) [OF True] by (simp only: fun_upd_other simp_thms)
    then show ?thesis using True by (subst copy_forward.simps) simp
  qed (subst copy_forward.simps, simp)
qed

lemma frame_keeps_pure:
  "(\<And>w. mem (final (p e w)) = mem w) \<Longrightarrow> keeps e (frame e R m) (frame e R m) (frame e R m) p"
  by (rule keepsI) (simp add: frame_def)

lemma frame_mem_apply:
  "(\<And>f a. a \<notin> R \<Longrightarrow> \<not> loader_owned a \<Longrightarrow> g f a = f a) \<Longrightarrow> keeps e (frame e R m) (frame e R m) (frame e R m) (mem_apply g)"
  by (simp add: keeps_def frame_def mem_apply_def)

lemma frame_dma_sync: "keeps e (frame e R m) (frame e R m) (frame e R m) dma_sync"
proof -
  have "env_dma e h a = None" if "dma_confined e" "\<not> loader_owned a" for h a
    by (rule ccontr) (use that dma_confined_def in \<open>force simp: loader_owned_def\<close>)
  then show ?thesis by (simp add: keeps_def frame_def dma_sync_def)
qed

interpretation boot_frame: loader_invariant e "frame e R m" "frame e R m" "frame e R m" for e R m
proof (intro loader_invariant.intro loader_invariant_axioms.intro)
  have screen: "keeps e (frame e R m) (frame e R m) (frame e R m) (screen msg v)" for msg v
  proof -
    have "keeps e (frame e R m) (frame e R m) (frame e R m) (store16 (0xB8000 + of_nat (2 * c)) h)" if "c < 80" for c h
      unfolding store16_def using that
      by (intro frame_store) (simp_all add: unat_word_ariths unat_of_nat loader_owned_def)
    note cell = this
    show ?thesis unfolding screen_def Let_def by (intro keeps_intros cell) auto
  qed
  show "transport_invariant e (frame e R m) (frame e R m) (frame e R m) (base_hooks :: boot_vars hooks)"
  proof
    show "keeps e (frame e R m) (frame e R m) (frame e R m) dma_sync" by (rule frame_dma_sync)
    show "keeps e (frame e R m) (frame e R m) (frame e R m) (store_list a bs)" if "scratch a (length bs)" for a bs
      using that by (intro frame_store) (simp_all add: scratch_def loader_owned_def)
    show "keeps e (frame e R m) (frame e R m) (frame e R m) (calibrate_timer base_hooks)"
      by (intro calibrate_timer_keeps) (simp_all add: base_hooks_def screen frame_keeps_pure prog_simps)
  qed (simp_all add: base_hooks_def screen keeps_ret delay_keeps timed_loop_keeps frame_keeps_pure prog_simps ata_out8_def)
  show "keeps e (frame e R m) (frame e R m) (frame e R m) (store_list a bs)" if "0xB8000 \<le> unat a" "unat a + length bs \<le> 0xB80A0" for a bs
    using that by (intro frame_store) (simp_all add: loader_owned_def)
qed (simp_all add: frame_keeps_pure prog_simps)

definition image_at :: "u32 \<Rightarrow> u32 \<Rightarrow> u32 set" where
  "image_at d n = {a. a - d < n}"

lemma load_loop_frame:
  assumes "unat sectors \<le> 0x1000"
  shows "keeps e (frame e (image_at destination (sectors * 512)) m) (frame e (image_at destination (sectors * 512)) m) (frame e (image_at destination (sectors * 512)) m) (load_loop lba sectors destination loaded)"
  using assms
proof (induction lba sectors destination loaded rule: load_loop.induct)
  case (1 lba sectors destination loaded)
  let ?count = "if sectors - loaded > BLOCKS_PER_READ then BLOCKS_PER_READ else sectors - loaded"
  let ?R = "image_at destination (sectors * 512)"
  show ?case
  proof (cases "loaded < sectors")
    case True
    note c = load_count_decreases [OF True]
    have "a - destination < sectors * 512"
      if "a - (destination + loaded * 512) < ?count * 512" for a
    proof -
      have u: "unat (loaded + ?count) \<le> unat sectors" using c(3) by (simp add: word_le_nat_alt)
      have m: "unat (x * 512) = unat x * 512" if "x \<le> sectors" for x
        using that "1.prems" by (simp add: unat_word_ariths word_le_nat_alt)
      have le: "?count \<le> sectors" "loaded \<le> sectors" using u c(2) True by (simp_all add: word_le_nat_alt)
      have "a - destination = (a - (destination + loaded * 512)) + loaded * 512" by simp
      then have "unat (a - destination) \<le> unat (a - (destination + loaded * 512)) + unat (loaded * 512)"
        by (metis unat_word_ariths(1) mod_less_eq_dividend)
      also have "\<dots> < unat ?count * 512 + unat loaded * 512"
        using that le by (simp add: word_less_nat_alt m del: if_split)
      also have "\<dots> \<le> unat sectors * 512" using u c(2) by simp
      finally show ?thesis using m [of sectors] by (simp add: word_less_nat_alt)
    qed
    then have copy: "keeps e (frame e ?R m) (frame e ?R m) (frame e ?R m) (copy_mem (destination + loaded * 512) TRANSFER_BUFFER (?count * 512))"
      unfolding copy_mem_def image_at_def by (intro frame_mem_apply copy_forward_outside) blast
    show ?thesis
      unfolding load_loop.simps [of lba sectors destination loaded] Let_def
      by (intro keeps_if boot_frame.steps boot_frame.read_blocks_keeps boot_frame.screen_keeps copy
          "1.IH" "1.prems" refl) simp_all
  qed (simp add: load_loop.simps [of lba sectors destination loaded] keeps_ret)
qed

lemma Done_bindE:
  assumes "bind m f e w = Done x w'"
  obtains y v where "m e w = Done y v" "f y e v = Done x w'"
  using assms by (auto simp: bind_def split: outcome.splits)

lemma Done_andthenE:
  assumes "andthen m n e w = Done x w'"
  obtains y v where "m e w = Done y v" "n e v = Done x w'"
  using assms unfolding andthen_def by (rule Done_bindE)

lemma frame_trans: "frame e R (mem v) w \<Longrightarrow> frame e S m v \<Longrightarrow> R \<subseteq> T \<Longrightarrow> S \<subseteq> T \<Longrightarrow> frame e T m w"
  unfolding frame_def by (metis subsetD)

lemma frame_run:
  "keeps e (frame e R (mem w)) (frame e R (mem w)) (frame e R (mem w)) p \<Longrightarrow> p e w = Done x w' \<Longrightarrow> frame e R (mem w) w'"
  by (drule keeps_Done) (simp_all add: frame_def)

lemma load_image_done:
  assumes "load_image lba sectors destination crc e w = Done u w'" "unat sectors \<le> 0x1000"
  shows "boot_crc32 (mem w') destination (sectors * 512) = crc"
    "frame e (image_at destination (sectors * 512)) (mem w) w'"
proof -
  obtain v where v: "load_loop lba sectors destination 0 e w = Done () v"
    and rest: "(if boot_crc32 (mem v) destination (sectors * 512) \<noteq> crc
      then fail base_hooks ''Kernel payload CRC mismatch'' destination else ret ()) e v = Done u w'"
    using assms(1) unfolding load_image_def by (auto elim!: Done_andthenE simp: run_bind)
  have "boot_crc32 (mem v) destination (sectors * 512) = crc \<and> w' = v"
    using rest by (auto simp: fail_def run_ret run_panic elim!: Done_andthenE split: if_splits)
  then show "boot_crc32 (mem w') destination (sectors * 512) = crc"
    "frame e (image_at destination (sectors * 512)) (mem w) w'"
    using frame_run [OF load_loop_frame [OF assms(2)] v] by simp_all
qed

definition manifest_bytes :: "u32 set" where
  "manifest_bytes = {a. 0x30000800 \<le> unat a \<and> unat a < 0x30000828}"

lemma manifest_of_cong:
  assumes "\<And>a. a \<in> manifest_bytes \<Longrightarrow> m a = m' a"
  shows "manifest_of m = manifest_of m'"
  by (simp add: manifest_of_def mem_load32_def Let_def assms manifest_bytes_def unat_word_ariths)

lemma boot_crc32_cong:
  assumes "\<And>a. a \<in> image_at d n \<Longrightarrow> m a = m' a"
  shows "boot_crc32 m d n = boot_crc32 m' d n"
proof -
  have "mem_load_list m d (unat n) = mem_load_list m' d (unat n)"
    unfolding mem_load_list_def
  proof (rule map_cong [OF refl])
    fix i
    assume "i \<in> set [0..<unat n]"
    then have "i < unat n" by simp
    then have "unat (of_nat i :: u32) < unat n"
      unfolding unat_of_nat using mod_less_eq_dividend [of i "2 ^ LENGTH(32)"] by linarith
    then have "d + of_nat i \<in> image_at d n" by (simp add: image_at_def word_less_nat_alt)
    then show "m (d + of_nat i) = m' (d + of_nat i)" by (rule assms)
  qed
  then show ?thesis by (simp add: boot_crc32_def)
qed

lemma image_range:
  assumes "a \<in> image_at d n" "unat d + unat n \<le> 2 ^ 32"
  shows "unat d \<le> unat a \<and> unat a < unat d + unat n"
proof -
  have x: "unat (a - d) < unat n" using assms(1) by (simp add: image_at_def word_less_nat_alt)
  have "unat (d + (a - d)) = unat d + unat (a - d)"
    using x assms(2) by (subst unat_plus_if') simp
  then show ?thesis using x by simp
qed

lemmas image_low = image_range [of _ "0x32000000" "0x100200", simplified]
lemmas image_high = image_range [of _ "0x34000000" "0x20000", simplified]

lemma image_apart:
  "image_at 0x34000000 0x20000 \<inter> manifest_bytes = {}" "image_at 0x32000000 0x100200 \<inter> manifest_bytes = {}"
  by (auto simp: manifest_bytes_def dest!: image_high image_low)

text \<open>Every environment, with its bus masters restricted to the DMA area.\<close>

definition confine :: "env \<Rightarrow> env" where
  "confine e = e\<lparr>env_dma := \<lambda>h a. if 0x30050000 \<le> unat a \<and> unat a < 0x30057000 then env_dma e h a else None\<rparr>"

lemma confined: "dma_confined (confine e)"
  by (simp add: dma_confined_def confine_def)

lemma frame_manifest:
  assumes "frame e R (mem v) w" "dma_confined e" "R \<inter> manifest_bytes = {}"
  shows "manifest_of (mem w) = manifest_of (mem v)"
proof (rule manifest_of_cong)
  fix a
  assume a: "a \<in> manifest_bytes"
  then have "\<not> loader_owned a" by (simp add: manifest_bytes_def loader_owned_def)
  then show "mem w a = mem v a" using a assms by (auto simp: frame_def)
qed

lemma boot_prepare_done:
  assumes "boot_prepare e w = Done u w'" "dma_confined e"
  shows "frame e {} (mem w) w'" "boot_manifest_valid (manifest_of (mem w'))"
proof -
  define check :: "boot_manifest \<Rightarrow> (boot_vars, unit) prog" where "check = (\<lambda>m. if boot_manifest_valid m then ret ()
    else fail base_hooks ''Invalid bootstrap manifest'' (version m))"
  define start where "start = andthen (modify (\<lambda>_. boot_zero)) (andthen (zero_mem 0x3004F000 32)
    (andthen (boot_report 0 0x42535452) (andthen (boot_report 1 1) (zero_mem DMA_BASE 0x7000))))"
  define rest :: "(boot_vars, unit) prog" where "rest = andthen (screen ''Starting native storage loader'' 0) (calibrate_timer base_hooks)"
  have split: "boot_prepare = andthen start (bind get_manifest (\<lambda>m. andthen (check m) rest))"
    unfolding boot_prepare_def check_def start_def rest_def andthen_def by (simp add: bind_assoc)
  have "keeps e (frame e {} m) (frame e {} m) (frame e {} m) (modify (\<lambda>_. boot_zero))" for m
    by (simp add: frame_keeps_pure prog_simps)
  then have start: "keeps e (frame e {} m) (frame e {} m) (frame e {} m) start" for m
    unfolding start_def by (intro boot_frame.steps) (simp_all add: scratch_def)
  have rest: "keeps e (frame e {} m) (frame e {} m) (frame e {} m) rest" for m
    unfolding rest_def by (intro boot_frame.steps boot_frame.screen_keeps boot_frame.clock)
  obtain v1 where v1: "start e w = Done () v1" "andthen (check (manifest_of (mem v1))) rest e v1 = Done u w'"
    using assms(1) unfolding split by (auto elim!: Done_andthenE simp: run_bind get_manifest_def)
  then have v: "boot_manifest_valid (manifest_of (mem v1))" "rest e v1 = Done u w'"
    by (auto simp: check_def fail_def run_andthen run_ret run_panic split: if_splits outcome.splits)
  have f: "frame e {} (mem w) v1" "frame e {} (mem v1) w'"
    using frame_run [OF start v1(1)] frame_run [OF rest v(2)] .
  show "frame e {} (mem w) w'" by (rule frame_trans [OF f(2,1)]) simp_all
  show "boot_manifest_valid (manifest_of (mem w'))"
    using v(1) frame_manifest [OF f(2) assms(2)] by simp
qed

lemma bootstrap_done:
  assumes "bootstrap_load_images e w = Done u w'" "dma_confined e"
  defines "m \<equiv> manifest_of (mem w)"
  shows "manifest_of (mem w') = m" "boot_manifest_valid m"
    "boot_crc32 (mem w') 0x34000000 0x20000 = high_crc m"
    "boot_crc32 (mem w') 0x32000000 0x100200 = interrupts_crc m"
proof -
  let ?finish = "andthen (stop_controller (base_hooks :: boot_vars hooks)) (andthen (boot_report 1 8)
      (bind (gets bv_backend) (screen ''Native kernel loading complete'')))"
  let ?find = "andthen boot_find_disk (bind (gets bv_backend) (boot_report 7))"
  have split: "bootstrap_load_images = andthen boot_prepare (andthen ?find (bind get_manifest (\<lambda>m.
    andthen (load_image (high_lba m) (high_sectors m) 0x34000000 (high_crc m)) (bind get_manifest (\<lambda>m.
    andthen (load_image (interrupts_lba m) (interrupts_sectors m) 0x32000000 (interrupts_crc m)) ?finish)))))"
    unfolding bootstrap_load_images_def andthen_def by (simp add: bind_assoc)
  obtain w1 w2 w3 w4 where prep: "boot_prepare e w = Done () w1" and find: "?find e w1 = Done () w2"
    and high: "load_image (high_lba (manifest_of (mem w2))) (high_sectors (manifest_of (mem w2))) 0x34000000
      (high_crc (manifest_of (mem w2))) e w2 = Done () w3"
    and low: "load_image (interrupts_lba (manifest_of (mem w3))) (interrupts_sectors (manifest_of (mem w3)))
      0x32000000 (interrupts_crc (manifest_of (mem w3))) e w3 = Done () w4"
    and finish: "?finish e w4 = Done u w'"
    using assms(1) unfolding split run_andthen run_bind get_manifest_def
    by (simp only: outcome.case split: outcome.splits) (auto split: outcome.splits)
  have f1: "frame e {} (mem w) w1" "boot_manifest_valid (manifest_of (mem w1))"
    using boot_prepare_done [OF prep assms(2)] .
  have "keeps e (frame e {} (mem w1)) (frame e {} (mem w1)) (frame e {} (mem w1)) ?find"
    by (intro boot_frame.steps boot_frame.boot_find_disk_keeps) simp
  then have f2: "frame e {} (mem w1) w2" using find by (rule frame_run)
  have "keeps e (frame e {} (mem w4)) (frame e {} (mem w4)) (frame e {} (mem w4)) ?finish"
    by (intro boot_frame.steps boot_frame.screen_keeps boot_frame.stop_controller_keeps) simp
  then have f5: "frame e {} (mem w4) w'" using finish by (rule frame_run)
  have m1: "manifest_of (mem w1) = m" unfolding m_def using frame_manifest [OF f1(1) assms(2)] by simp
  then have m2: "manifest_of (mem w2) = m" using frame_manifest [OF f2 assms(2)] by simp
  have sectors: "high_sectors m = 256" "interrupts_sectors m = 2049" and valid: "boot_manifest_valid m"
    using f1(2) m1 by (simp_all add: boot_manifest_valid_def)
  have c3: "boot_crc32 (mem w3) 0x34000000 0x20000 = high_crc m"
    and f3: "frame e (image_at 0x34000000 0x20000) (mem w2) w3"
    using load_image_done [OF high] by (simp_all add: m2 sectors)
  have m3: "manifest_of (mem w3) = m"
    using frame_manifest [OF f3 assms(2) image_apart(1)] m2 by simp
  have c4: "boot_crc32 (mem w4) 0x32000000 0x100200 = interrupts_crc m"
    and f4: "frame e (image_at 0x32000000 0x100200) (mem w3) w4"
    using load_image_done [OF low] by (simp_all add: m3 sectors)
  have m4: "manifest_of (mem w4) = m"
    using frame_manifest [OF f4 assms(2) image_apart(2)] m3 by simp
  show "manifest_of (mem w') = m" "boot_manifest_valid m" using frame_manifest [OF f5 assms(2)] m4 valid by simp_all
  have "boot_crc32 (mem w') 0x34000000 0x20000 = boot_crc32 (mem w3) 0x34000000 0x20000"
  proof (rule boot_crc32_cong)
    fix a :: u32
    assume "a \<in> image_at 0x34000000 0x20000"
    then have r: "0x34000000 \<le> unat a" "unat a < 0x34020000" by (simp_all add: image_high)
    then have "\<not> loader_owned a" by (simp add: loader_owned_def)
    moreover have "a \<notin> image_at 0x32000000 0x100200" using r image_low [of a] by auto
    ultimately show "mem w' a = mem w3 a" using f4 f5 assms(2) by (simp add: frame_def)
  qed
  then show "boot_crc32 (mem w') 0x34000000 0x20000 = high_crc m" using c3 by simp
  have "boot_crc32 (mem w') 0x32000000 0x100200 = boot_crc32 (mem w4) 0x32000000 0x100200"
    using f5 assms(2) by (intro boot_crc32_cong) (auto simp: frame_def loader_owned_def dest!: image_low)
  then show "boot_crc32 (mem w') 0x32000000 0x100200 = interrupts_crc m" using c4 by simp
qed

section \<open>The schedule stops before a transfer returns\<close>

text \<open>A successful busy-wait: its last round yields the value, in a world with the loop's invariant.\<close>

lemma poll_fuel_Done:
  assumes "\<And>v v'. P v \<Longrightarrow> body e v = Done None v' \<Longrightarrow> P v'"
  shows "poll_fuel n body e w = Done x w' \<Longrightarrow> P w \<Longrightarrow> \<exists>v. P v \<and> body e v = Done (Some x) w'"
proof (induction n arbitrary: w)
  case (Suc n)
  then obtain r v where r: "body e w = Done r v" and
    rest: "(case r of Some x \<Rightarrow> ret x | None \<Rightarrow> poll_fuel n body) e v = Done x w'"
    by (auto elim: Done_bindE)
  show ?case
  proof (cases r)
    case None
    then have "P v" using assms r Suc.prems(2) by blast
    then show ?thesis using Suc.IH rest None by simp
  next
    case (Some y)
    then show ?thesis using rest r Suc.prems(2) by (auto simp: run_ret)
  qed
qed simp

lemma timed_loop_Done:
  assumes run: "timed_loop body e w = Done (Some x) w'"
    and step: "\<And>v v' r. P v \<Longrightarrow> body e v = Done r v' \<Longrightarrow> P v'"
    and tick: "\<And>v t. P v \<Longrightarrow> P (v\<lparr>io := Tsc t # io v\<rparr>)" and start: "P w"
  shows "\<exists>v. P v \<and> body e v = Done (Some x) w'"
proof -
  let ?s = "env_in e (io w) Req_tsc"
  let ?body = "bind body (\<lambda>r. case r of Some x \<Rightarrow> ret (Some (Some x))
     | None \<Rightarrow> bind tsc (\<lambda>now. bind (gets bv_ticks_per_ms) (\<lambda>ticks.
         ret (if now - ?s < ticks * 1000 then None else Some None))))"
  have "poll_fuel (env_fuel e) ?body e (w\<lparr>io := Tsc ?s # io w\<rparr>) = Done (Some x) w'"
    using run by (simp add: timed_loop_def timed_by_def run_bind run_tsc poll_def)
  then have "\<exists>v. P v \<and> ?body e v = Done (Some (Some x)) w'"
  proof (rule poll_fuel_Done [where P = P, rotated])
    show "P (w\<lparr>io := Tsc ?s # io w\<rparr>)" by (rule tick [OF start])
    show "P v'" if "P v" "?body e v = Done None v'" for v v'
      using that step tick by (auto simp: run_bind run_tsc run_gets run_ret split: outcome.splits option.splits if_splits)
  qed
  then obtain v where v: "P v" "?body e v = Done (Some (Some x)) w'" by (elim exE conjE)
  obtain r u where r: "body e v = Done r u" and
    rest: "(case r of Some x \<Rightarrow> ret (Some (Some x)) | None \<Rightarrow> bind tsc (\<lambda>now. bind (gets bv_ticks_per_ms)
      (\<lambda>ticks. ret (if now - ?s < ticks * 1000 then None else Some None)))) e u = Done (Some (Some x)) w'"
    using v(2) by (rule Done_bindE)
  have "r = Some x \<and> u = w'"
    using rest by (cases r) (auto simp: run_bind run_tsc run_gets run_ret split: if_splits)
  then show ?thesis using v(1) r by auto
qed

fun register_write :: "io_event \<Rightarrow> bool" where
  "register_write (Mmio_write a v) = True"
| "register_write ev = False"

definition quiet_since :: "u32 \<Rightarrow> 'a boot_vars_scheme \<Rightarrow> io_event list \<Rightarrow> 'a boot_vars_scheme world \<Rightarrow> bool" where
  "quiet_since base s h w \<longleftrightarrow> vars w = s \<and>
     (\<exists>mid. io w = mid @ Mmio_write base 1 # h \<and> list_all (\<lambda>ev. \<not> register_write ev) mid)"

lemma quiet_since_event:
  "quiet_since base s h w \<Longrightarrow> \<not> register_write ev \<Longrightarrow> quiet_since base s h (w\<lparr>io := ev # io w\<rparr>)"
  unfolding quiet_since_def by (elim conjE exE, intro conjI, simp, rule_tac x = "ev # mid" in exI) simp

definition schedule_stopped :: "u32 \<Rightarrow> io_event list \<Rightarrow> bool" where
  "schedule_stopped base log \<longleftrightarrow> (\<exists>after v between before.
     log = after @ Mmio_read (base + 4) v # between @ Mmio_write base 1 # before \<and> v AND 0x8000 = 0 \<and>
     list_all (\<lambda>ev. \<not> register_write ev) (after @ between))"

lemma schedule_stopped_event:
  assumes "schedule_stopped base log" "\<not> register_write ev"
  shows "schedule_stopped base (ev # log)"
proof -
  obtain after v between before where "log = after @ Mmio_read (base + 4) v # between @ Mmio_write base 1 # before"
    "v AND 0x8000 = 0" "list_all (\<lambda>ev. \<not> register_write ev) (after @ between)"
    using assms(1) by (auto simp: schedule_stopped_def)
  then show ?thesis using assms(2)
    unfolding schedule_stopped_def
    by (intro exI [of _ "ev # after"] exI [of _ v] exI [of _ between] exI [of _ before]) simp
qed

lemma transfer_finish_stops:
  assumes "transfer_finish hk e w = Done () w'"
  shows "vars w' = vars w \<and> schedule_stopped (bv_ehci (vars w)) (io w')"
proof -
  let ?b = "bv_ehci (vars w)" and ?w = "w\<lparr>io := Mmio_write (bv_ehci (vars w)) 1 # io w\<rparr>"
  let ?body = "bind (ehci_read 1) (\<lambda>v. ret (if v AND 0x8000 = 0 then Some () else None))"
  have "timed_loop ?body e ?w = Done (Some ()) w'"
    using assms
    by (auto simp: transfer_finish_def ehci_write_def wait_register_def run_andthen run_bind run_gets mmio_write_def
        run_emit run_ret fail_def run_panic split: outcome.splits if_splits)
  then have "\<exists>v. quiet_since ?b (vars w) (io w) v \<and> ?body e v = Done (Some ()) w'"
  proof (rule timed_loop_Done)
    show "quiet_since ?b (vars w) (io w) ?w" by (simp add: quiet_since_def)
    show "quiet_since ?b (vars w) (io w) v'" if "quiet_since ?b (vars w) (io w) v" "?body e v = Done r v'" for v v' r
      using that quiet_since_event [OF that(1)] by (auto simp: ehci_read_def run_bind run_gets run_mmio_read run_ret)
    show "quiet_since ?b (vars w) (io w) (v\<lparr>io := Tsc t # io v\<rparr>)" if "quiet_since ?b (vars w) (io w) v" for v t
      using quiet_since_event [OF that] by simp
  qed
  then obtain v where v: "quiet_since ?b (vars w) (io w) v" "?body e v = Done (Some ()) w'" by blast
  let ?x = "env_in e (io v) (Req_mmio (?b + 4))"
  have "vars v = vars w" using v(1) by (simp add: quiet_since_def)
  then have "w' = v\<lparr>io := Mmio_read (?b + 4) ?x # io v\<rparr>" "?x AND 0x8000 = 0"
    using v(2) by (auto simp: ehci_read_def run_bind run_gets run_mmio_read run_ret split: if_splits)
  moreover obtain mid where "io v = mid @ Mmio_write ?b 1 # io w" "list_all (\<lambda>ev. \<not> register_write ev) mid"
    using v(1) by (auto simp: quiet_since_def)
  ultimately show ?thesis using \<open>vars v = vars w\<close>
    unfolding schedule_stopped_def by (intro conjI exI [of _ "[]"]) auto
qed

lemma read_range:
  "(blocks = 0 \<or> blocks > BLOCKS_PER_READ \<or> lba > limit \<or> blocks - 1 > limit - (lba :: u32)) =
   (\<not> (1 \<le> unat blocks \<and> unat blocks \<le> 32 \<and> unat lba + unat blocks \<le> unat limit + 1))"
proof (cases "blocks = 0 \<or> lba > limit")
  case True
  then show ?thesis by (auto simp: word_less_nat_alt)
next
  case False
  have pos: "unat blocks \<noteq> 0" using False unat_eq_zero by blast
  have "unat (blocks - 1) = unat blocks - 1" using False by (intro unat_minus_one) simp
  moreover have "unat (limit - lba) = unat limit - unat lba" using False by (intro unat_sub_le) (simp add: not_less)
  ultimately show ?thesis using False pos by (auto simp: word_less_nat_alt)
qed

lemma read10_valid:
  assumes "1 \<le> unat blocks" "unat blocks \<le> 32"
  shows "storage_read_cdb_valid (Some (read10 lba blocks)) 10 (blocks * 512)"
proof -
  have "drop_bit 8 blocks = 0" using assms(2) by (simp add: word_unat_eq_iff unat_div drop_bit_eq_div)
  moreover have "ucast (ucast blocks :: u8) = blocks"
    using assms(2) by (simp add: word_unat_eq_iff unsigned_ucast_eq unat_take_bit)
  moreover have "blocks > 0" "blocks \<le> 32" using assms by (simp_all add: word_less_nat_alt word_le_nat_alt)
  ultimately show ?thesis by (simp add: storage_read_cdb_valid_def read10_def put_be32_def)
qed

section \<open>Properties\<close>


text \<open>
  C21: the kernel only starts from intact images. In every environment whose bus masters write
  inside the DMA area, whenever the loader returns (it otherwise halts with an error or is
  still waiting for hardware) the manifest is the one it started with, it is valid, and the bytes
  now in memory at the two load addresses have the CRC-32 the manifest gives; for the first image
  that includes everything that happened while the second one was loaded.
\<close>

theorem boot_images_verified:
  "case bootstrap_load_images (confine e) w of
     Done _ w' \<Rightarrow> let m = manifest_of (mem w') in
       m = manifest_of (mem w) \<and> boot_manifest_valid m \<and>
       boot_crc32 (mem w') 0x34000000 (high_sectors m * 512) = high_crc m \<and>
       boot_crc32 (mem w') 0x32000000 (interrupts_sectors m * 512) = interrupts_crc m
   | Panicked msg w' \<Rightarrow> True
   | Unfinished w' \<Rightarrow> True"
proof (cases "bootstrap_load_images (confine e) w")
  case (Done u w')
  note d = bootstrap_done [OF Done confined]
  have "high_sectors (manifest_of (mem w)) = 256" "interrupts_sectors (manifest_of (mem w)) = 2049"
    using d(2) by (simp_all add: boot_manifest_valid_def)
  then show ?thesis using d Done by simp
qed simp_all

text \<open>
  C24: no descriptor or buffer is reused while the controller can still see it. When a
  transfer returns, failed or not, the asynchronous schedule has been switched off and seen off: the last
  thing the code wrote to a register is USBCMD without the enable bit, and after it the status
  register was read with the schedule-running bit clear. A transfer on a transport marked dead
  touches nothing.
\<close>

theorem transfer_leaves_schedule_stopped:
  "case transfer hk endpoint packet_size q e w of
     Done ok w' \<Rightarrow> if bv_transport_dead (vars w) \<noteq> 0 then \<not> ok \<and> w' = w
       else schedule_stopped (bv_ehci (vars w)) (io w') \<and> (bv_transport_dead (vars w') = 0) = ok
   | Panicked msg w' \<Rightarrow> bv_transport_dead (vars w) = 0
   | Unfinished w' \<Rightarrow> bv_transport_dead (vars w) = 0"
proof (cases "bv_transport_dead (vars w) = 0")
  case True
  let ?keep = "\<lambda>u. vars u = vars w"
  have "keeps e ?keep ?keep ?keep (transfer_setup endpoint packet_size)"
    unfolding transfer_setup_def zero_mem_def ehci_write_def
    by (intro keeps_intros) (auto intro!: keepsI simp: prog_simps)
  moreover have "keeps e ?keep ?keep ?keep (timed_loop (transfer_poll q))"
    unfolding transfer_poll_def ehci_read_def
    by (intro timed_loop_keeps keeps_intros) (auto intro!: keepsI simp: prog_simps)
  ultimately have k: "transfer_setup endpoint packet_size e w = Done x u \<Longrightarrow> vars u = vars w"
    "timed_loop (transfer_poll q) e u = Done y v \<Longrightarrow> vars u = vars w \<Longrightarrow> vars v = vars w" for x u y v
    by (auto dest: keeps_Done)
  show ?thesis
  proof (cases "transfer hk endpoint packet_size q e w")
    case (Done ok w')
    obtain u1 u2 u3 r where run: "transfer_setup endpoint packet_size e w = Done () u1"
      "timed_loop (transfer_poll q) e u1 = Done r u2" "transfer_finish hk e u2 = Done () u3"
      using Done True unfolding transfer_def
      by (auto simp: run_bind run_gets run_andthen split: outcome.splits)
    have v: "vars u2 = vars w" using k run by blast
    note stop = transfer_finish_stops [OF run(3)]
    have "schedule_stopped (bv_ehci (vars w)) (io w') \<and> (bv_transport_dead (vars w') = 0) = ok"
    proof (cases "r = Some True")
      case True
      then have "ok \<and> io w' = Sync # io u3 \<and> vars w' = vars u3"
        using Done run \<open>bv_transport_dead (vars w) = 0\<close> unfolding transfer_def
        by (auto simp: run_bind run_gets run_andthen run_ret dma_sync_def)
      then show ?thesis using stop v \<open>bv_transport_dead (vars w) = 0\<close> by (simp add: schedule_stopped_event)
    next
      case False
      then have "\<not> ok \<and> bv_transport_dead (vars w') \<noteq> 0 \<and> (\<exists>x. io w' = Mmio_read (bv_ehci (vars u3) + 4) x # Sync # io u3)"
        using Done run \<open>bv_transport_dead (vars w) = 0\<close> unfolding transfer_def
        by (auto simp: prog_simps ehci_read_def boot_report_def)
      then show ?thesis using stop v by (auto simp: schedule_stopped_event)
    qed
    then show ?thesis using Done True by simp
  qed (use True in simp_all)
next
  case False
  then show ?thesis by (simp add: transfer_def run_bind run_gets run_ret)
qed

text \<open>
  C22: the loader cannot damage a disk. Whatever the devices answer, and whether the run
  completes, halts with an error or never ends, everything the boot loader writes to the legacy ATA
  channels is harmless: the only command is 0x20 (READ SECTORS), nothing is written to a data
  port, and 32-bit writes go to the PCI configuration ports only.
\<close>

theorem boot_loader_reads_only:
  "\<exists>new. io (final (bootstrap_load_images e w)) = new @ io w \<and> list_all (ata_quiet [0x20]) new"
proof -
  have "bootstrap_load_images e w = bootstrap_load_images e (w\<lparr>vars := boot_zero\<rparr>)"
    by (simp add: bootstrap_load_images_def boot_prepare_def run_andthen run_modify)
  moreover have "disk_safe [0x20] (io w) (w\<lparr>vars := boot_zero\<rparr>)"
    by (simp add: disk_safe_def boot_zero_def)
  ultimately show ?thesis
    using keepsD [OF boot_disk.bootstrap_keeps] by (metis disk_safe_def grown_def)
qed

end
