(* ===== verification/Boot_Clock.thy ===== *)
theory Boot_Clock
  imports Boot_Safety
begin

text \<open>
  Liveness of the transport and of the loader: the third interpretation of the transport's
  contract. Calibration accepts at most 4000000 ticks per millisecond, so with a clock that advances
  every wait of the loader comes back, and with them the whole loader.
\<close>

abbreviation (input) calibrated :: "'a boot_vars_scheme world \<Rightarrow> bool" where
  "calibrated \<equiv> calibrated_by bv_ticks_per_ms"

abbreviation (input) finishes :: "env \<Rightarrow> ('a boot_vars_scheme, 'r) prog \<Rightarrow> bool" where
  "finishes e m \<equiv> finishes_by bv_ticks_per_ms e m"

lemmas calibrated_def = calibrated_by_def
lemmas finishesI = finishes_byI [where ticks = bv_ticks_per_ms]

lemma transport_waits_finish:
  "unat ms \<le> 1000 \<Longrightarrow> finishes e (delay ms)" "short body \<Longrightarrow> finishes e body \<Longrightarrow> finishes e (timed_loop body)"
  by (simp_all add: delay_def timed_loop_def delay_by_finishes timed_by_finishes)

lemma finishes_prims: "finishes e (ata_out8 i b)"
  by (rule finishes_by_direct) (simp add: prog_simps ata_out8_def)

lemmas finish_rules = finishes_by_prims finishes_prims transport_waits_finish

lemma calibrate_timer_finishes:
  assumes "\<And>msg v. returns (hk_screen hk msg v)"
  shows "finishes e (calibrate_timer hk)"
proof -
  have "finishes e (andthen (modify (\<lambda>s. s\<lparr>bv_ticks_per_ms := t\<rparr>)) (andthen (out8 0x61 original) (if bad then fail hk msg t else ret ())))"
    if "bad = (fired = None \<or> t < 10000 \<or> t > 4000000)" for t original bad msg and fired :: "unit option"
  proof (rule finishesI)
    fix count and w :: "'a boot_vars_scheme world"
    let ?w = "w\<lparr>vars := (vars w)\<lparr>bv_ticks_per_ms := t\<rparr>, io := Out8 0x61 original # io w\<rparr>"
    have "\<exists>w'. hk_screen hk msg t e ?w = Done () w'" using returnsD [OF assms] by auto
    then obtain w' where "hk_screen hk msg t e ?w = Done () w'" by (elim exE)
    then have fail: "(fail hk msg t :: (_, unit) prog) e ?w = Panicked msg w'" by (simp add: fail_def run_andthen run_panic)
    have good: "calibrated ?w" if "\<not> bad"
    proof -
      have "\<not> t > 4000000" using that \<open>bad = _\<close> by blast
      then show ?thesis by (simp add: calibrated_def word_less_nat_alt)
    qed
    show "case andthen (modify (\<lambda>s. s\<lparr>bv_ticks_per_ms := t\<rparr>)) (andthen (out8 0x61 original) (if bad then fail hk msg t else ret ())) e w of
        Done x w' \<Rightarrow> calibrated w' | Panicked msg w' \<Rightarrow> True | Unfinished w' \<Rightarrow> False"
      using fail good by (cases bad) (simp_all add: run_andthen run_modify out8_def run_emit run_ret)
  qed
  note last = this
  show ?thesis
    unfolding calibrate_timer_def Let_def by (intro keeps_bind keeps_andthen finish_rules keeps_for_until keeps_ret last) blast
qed

lemma screen_returns: "returns (screen msg v)"
  unfolding screen_def Let_def by (intro returns_intros)

lemma screen_finishes: "finishes e (screen msg v)"
  unfolding screen_def Let_def store16_def by (intro keeps_intros finish_rules)

interpretation boot_live: whole_loader_invariant e "\<lambda>w. steady_clock e \<longrightarrow> calibrated w" "\<lambda>w. True" "\<lambda>w. \<not> steady_clock e"
  for e
proof (intro whole_loader_invariant.intro whole_loader_invariant_axioms.intro
    loader_invariant.intro loader_invariant_axioms.intro)
  show "transport_invariant e (\<lambda>w. steady_clock e \<longrightarrow> calibrated w) (\<lambda>w. True) (\<lambda>w. \<not> steady_clock e)
      (base_hooks :: boot_vars hooks)"
  proof
    show "finishes e (modify f)" if "same_disk f" for f :: "boot_vars \<Rightarrow> boot_vars"
      by (rule finishes_by_modify) (use that in \<open>simp add: same_disk_def\<close>)
    show "finishes e (calibrate_timer (base_hooks :: boot_vars hooks))"
      by (rule calibrate_timer_finishes) (simp add: base_hooks_def screen_returns)
  qed (simp_all add: base_hooks_def screen_finishes keeps_ret finish_rules)
  show "finishes e (modify (\<lambda>_. boot_zero))"
    by (rule finishesI) (simp add: run_modify calibrated_def boot_zero_def)
qed (simp_all add: finish_rules finishes_by_modify copy_mem_def)

section \<open>Properties\<close>

text \<open>
  C23: the loader never hangs. With a time-stamp counter that advances at every access, by at
  most a million ticks, the boot loader comes back whatever the disks and controllers do:
  it returns to the bootstrap code, or it stops at one of its error messages; none of its waits
  goes on forever. The counter may wrap around any number of times.
\<close>

theorem boot_loader_terminates:
  assumes "steady_clock e"
  shows "(\<exists>w'. bootstrap_load_images e w = Done () w') \<or> (\<exists>msg w'. bootstrap_load_images e w = Panicked msg w')"
proof -
  have "bootstrap_load_images e w = bootstrap_load_images e (w\<lparr>vars := boot_zero\<rparr>)"
    by (simp add: bootstrap_load_images_def boot_prepare_def run_andthen run_modify)
  moreover have "calibrated (w\<lparr>vars := boot_zero\<rparr>)" by (simp add: calibrated_def boot_zero_def)
  then have "bootstrap_load_images e (w\<lparr>vars := boot_zero\<rparr>) \<noteq> Unfinished w'" for w'
    using boot_live.bootstrap_keeps [of e] assms by (auto simp: keeps_def split: outcome.splits)
  ultimately have "bootstrap_load_images e w \<noteq> Unfinished w'" for w' by metis
  then show ?thesis by (cases "bootstrap_load_images e w") auto
qed

theorem boot_loader_terminates_witness:
  "(\<exists>w'. bootstrap_load_images ticking_env (start_world boot_zero) = Done () w') \<or>
   (\<exists>msg w'. bootstrap_load_images ticking_env (start_world boot_zero) = Panicked msg w')"
  by (rule boot_loader_terminates) (rule ticking_env_steady)

end
