(* ===== verification/Storage.thy ===== *)
theory Storage
  imports Boot_Clock
begin

text \<open>
  The kernel's storage service, \<^verbatim>\<open>Drivers/Storage/Storage.c\<close>: device discovery, raw block
  reads and the system calls, on top of the shared transport of \<^verbatim>\<open>Boot_Transport\<close> with
  the hooks of the \<^verbatim>\<open>KERNEL_STORAGE\<close> build. Its variables extend those of the transport.
  A process structure and the page tables are read from memory, as the code reads them.
\<close>

abbreviation (input) STORAGE_OK :: u32 where "STORAGE_OK \<equiv> 0"
abbreviation (input) STORAGE_NO_DEVICE :: u32 where "STORAGE_NO_DEVICE \<equiv> 0xFFFF0001"
abbreviation (input) STORAGE_BAD_ARGUMENT :: u32 where "STORAGE_BAD_ARGUMENT \<equiv> 0xFFFF0002"
abbreviation (input) STORAGE_IO_ERROR :: u32 where "STORAGE_IO_ERROR \<equiv> 0xFFFF0003"
abbreviation (input) STORAGE_ACCESS_DENIED :: u32 where "STORAGE_ACCESS_DENIED \<equiv> 0xFFFF0004"
abbreviation (input) STORAGE_BAD_BUFFER :: u32 where "STORAGE_BAD_BUFFER \<equiv> 0xFFFF0005"
abbreviation (input) STORAGE_NOT_READY :: u32 where "STORAGE_NOT_READY \<equiv> 0xFFFF0006"
abbreviation (input) STORAGE_MMIO :: u32 where "STORAGE_MMIO \<equiv> 0x80C00000"

section \<open>Pure validation\<close>

definition storage_valid_range :: "u32 \<Rightarrow> u32 \<Rightarrow> u32 \<Rightarrow> bool" where
  "storage_valid_range capacity lba blocks \<longleftrightarrow>
     blocks \<noteq> 0 \<and> blocks \<le> 32 \<and> lba < capacity \<and> blocks \<le> capacity - lba"

definition storage_identify_capacity :: "u16 list \<Rightarrow> u32" where
  "storage_identify_capacity words =
    (if words ! 0 AND 0x8004 \<noteq> 0 \<or> words ! 49 AND 0x200 = 0 then 0
     else if words ! 106 AND 0xC000 = 0x4000 \<and> words ! 106 AND 0x1000 \<noteq> 0 \<and>
             (words ! 117 \<noteq> 256 \<or> words ! 118 \<noteq> 0) then 0
     else let blocks = ucast (words ! 60) OR push_bit 16 (ucast (words ! 61)) :: u32
          in if blocks > 0x10000000 then 0x10000000 else blocks)"

definition storage_user_range :: "u32 \<Rightarrow> u32 \<Rightarrow> u32 \<Rightarrow> u32" where
  "storage_user_range slot offset extent =
    (if slot < 0x100000 \<or> slot > 0x40000000 - 0xA00000 \<or> extent = 0 \<or> offset \<ge> 0x500000 \<or>
        extent > 0x500000 - offset then 0
     else slot + 0x400000 + offset)"

definition storage_user_page_writable :: "u32 \<Rightarrow> u32 \<Rightarrow> bool" where
  "storage_user_page_writable pde pte \<longleftrightarrow> pde AND 0x87 = 7 \<and> pte AND 0x207 = 0x207"

text \<open>
  \<^verbatim>\<open>map\<close> is the kernel's page mapping function; the pair is the result and the new value of
  \<^verbatim>\<open>*mapped_page\<close>.
\<close>

definition storage_map_mmio_window ::
  "u32 \<Rightarrow> u32 \<Rightarrow> (u32 \<Rightarrow> u32 \<Rightarrow> u32 \<Rightarrow> ('s, u32) prog) \<Rightarrow> ('s, u32 \<times> u32) prog" where
  "storage_map_mmio_window physical mapped_page map_page =
    (let page = physical AND NOT 0xFFF; offset = physical AND 0xFFF in
     if page = 0 \<or> physical AND 15 \<noteq> 0 \<or> offset > 0xF00 then ret (0, mapped_page)
     else if mapped_page \<noteq> page then bind (map_page STORAGE_MMIO page 0x1B) (\<lambda>ok.
       if ok = 0 then ret (0, mapped_page) else ret (STORAGE_MMIO + offset, page))
     else ret (STORAGE_MMIO + offset, mapped_page))"

section \<open>State\<close>

record storage_device_info =
  sd_type :: u32
  sd_sector_size :: u32
  sd_block_count :: u32
  sd_flags :: u32
  sd_model :: "u8 list"

record storage_vars = boot_vars +
  sv_devices :: "storage_device_info list"
  sv_initialized :: u32
  sv_discovered :: u32
  sv_device_mask :: u32
  sv_mapped_mmio :: u32
  sv_ata_dead :: "u8 list"
  sv_usb_discovered :: u32
  sv_companion_target :: u32
  sv_companions_ready :: u32
  sv_companion_ports :: u32
  sv_companion_keep :: u32

record storage_registers =
  edi :: u32
  esi :: u32
  ebx :: u32
  eax :: u32

definition le_bytes :: "u32 \<Rightarrow> u8 list" where
  "le_bytes v = [ucast v, ucast (drop_bit 8 v), ucast (drop_bit 16 v), ucast (drop_bit 24 v)]"

definition info_bytes :: "storage_device_info \<Rightarrow> u8 list" where
  "info_bytes d = le_bytes (sd_type d) @ le_bytes (sd_sector_size d) @ le_bytes (sd_block_count d) @
     le_bytes (sd_flags d) @ sd_model d"

section \<open>Hooks of the kernel build\<close>

definition storage_usb_candidate :: "u32 \<Rightarrow> (storage_vars, bool) prog" where
  "storage_usb_candidate pci = bind (gets sv_companion_target) (\<lambda>t. ret (t = 0 \<or> pci = t))"

definition storage_handoff_ports :: "u32 \<Rightarrow> u32 \<Rightarrow> (storage_vars, unit) prog" where
  "storage_handoff_ports ports keep_port = bind (gets id) (\<lambda>s.
    if sv_companion_target s = 0 \<or> bv_ehci s = 0 then ret ()
    else andthen (modify (\<lambda>s. s\<lparr>sv_companion_ports := ports, sv_companion_keep := keep_port\<rparr>))
    (andthen (for_each 0 (unat ports) (\<lambda>port. cond (of_nat port \<noteq> keep_port) (
       let index = (0x44 + of_nat port * 4) div 4 in bind (ehci_read index) (\<lambda>v.
         andthen (ehci_write index ((v AND NOT (0x2A OR 4)) OR push_bit 13 1))
         (andthen (ehci_read index)
         (ret ()))))))
    (modify (\<lambda>s. s\<lparr>sv_companions_ready := 1\<rparr>))))"

definition storage_map_mmio :: "u32 \<Rightarrow> (storage_vars, u32) prog" where
  "storage_map_mmio physical = bind (gets sv_mapped_mmio) (\<lambda>mapped.
    bind (storage_map_mmio_window physical mapped (\<lambda>v p f. kernel_call Map_page [v, p, f])) (\<lambda>(window, mapped2).
    andthen (modify (\<lambda>s. s\<lparr>sv_mapped_mmio := mapped2\<rparr>))
    (ret window)))"

definition kernel_hooks :: "storage_vars hooks" where
  "kernel_hooks = \<lparr>hk_screen = (\<lambda>_ _. ret ()), hk_capability = storage_map_mmio,
     hk_candidate = storage_usb_candidate,
     hk_accept = (\<lambda>ports port. andthen (storage_handoff_ports ports port) (ret True)),
     hk_release = (\<lambda>ports. storage_handoff_ports ports 0xFFFFFFFF)\<rparr>"

section \<open>Discovery\<close>

definition identify_ata :: "(storage_vars, bool) prog" where
  "identify_ata = andthen (ata_out8 0x206 2)
    (bind (gets bv_ata_device) (\<lambda>device.
    andthen (ata_out8 6 (ucast (0xA0 OR push_bit 4 (ucast device) :: u32)))
    (andthen (ata_settle)
    (bind (ata_in8 7) (\<lambda>status.
    if status = 0 \<or> status = 255 \<or> status AND 0x88 \<noteq> 0 then ret False
    else andthen (ata_out8 2 0)
    (andthen (ata_out8 3 0)
    (andthen (ata_out8 4 0)
    (andthen (ata_out8 5 0)
    (andthen (ata_out8 7 0xEC)
    (andthen (ata_settle)
    (bind (ata_wait 8 8) (\<lambda>ready.
    if \<not> ready then ret False
    else andthen (ata_fetch 0)
    (andthen (ata_settle)
    (ata_wait 0x88 0))))))))))))))"

definition ata_info :: "u16 list \<Rightarrow> u32 \<Rightarrow> storage_device_info" where
  "ata_info words capacity = \<lparr>sd_type = 2, sd_sector_size = 512, sd_block_count = capacity, sd_flags = 1,
     sd_model = concat (map (\<lambda>i. [ucast (drop_bit 8 (words ! (27 + i))), ucast (words ! (27 + i))]) [0..<20])\<rparr>"

definition transfer_words :: "('s, u16 list) prog" where
  "transfer_words = (\<lambda>e w. Done (map (\<lambda>i. ucast (mem w (0x30052000 + of_nat (2 * i))) OR
     push_bit 8 (ucast (mem w (0x30052000 + of_nat (2 * i + 1))))) [0..<256]) w)"

definition probe_ata :: "nat \<Rightarrow> nat \<Rightarrow> (storage_vars, unit) prog" where
  "probe_ata channel d = (let ident = 1 + channel * 2 + d in andthen (modify (\<lambda>s. s\<lparr>bv_ata_device := of_nat d\<rparr>))
    (bind (identify_ata) (\<lambda>ok.
    if \<not> ok then ret ()
    else bind (transfer_words) (\<lambda>words.
    let capacity = storage_identify_capacity words
    in if capacity = 0 then ret ()
    else modify (\<lambda>s. s\<lparr>sv_devices := (sv_devices s)[ident := ata_info words capacity],
       sv_device_mask := sv_device_mask s OR push_bit ident 1\<rparr>)))))"

text \<open>The bit set of channels already probed is threaded through the scan.\<close>

definition ata_channel :: "u32 \<Rightarrow> nat \<Rightarrow> u32 \<Rightarrow> (storage_vars, u32) prog" where
  "ata_channel mode channel seen =
    (if mode AND (if channel = 1 then 4 else 1) \<noteq> 0 \<or> seen AND push_bit channel 1 \<noteq> 0 then ret seen
     else andthen (modify (\<lambda>s. s\<lparr>bv_ata_port := if channel = 1 then 0x170 else 0x1F0\<rparr>))
       (andthen (for_each 0 2 (probe_ata channel))
       (andthen (modify (\<lambda>s. s\<lparr>bv_ata_device := 2\<rparr>))
       (ret (seen OR push_bit channel 1)))))"

fun ata_scan :: "nat \<Rightarrow> nat \<Rightarrow> u32 \<Rightarrow> (storage_vars, unit) prog" where
  "ata_scan i 0 seen = ret ()"
| "ata_scan i (Suc n) seen = (let pci = of_nat (256 * i) in bind (bind (pci_read pci 0) (\<lambda>ident.
       if ident AND 0xFFFF = 0xFFFF then ret seen
       else bind (pci_read pci 8) (\<lambda>code.
       if drop_bit 16 code \<noteq> 0x0101 then ret seen
       else bind (pci_read pci 4) (\<lambda>command.
       if command AND 1 = 0 then ret seen
       else bind (ata_channel (drop_bit 8 code AND 255) 0 seen) (\<lambda>primary.
       ata_channel (drop_bit 8 code AND 255) 1 primary))))) (\<lambda>seen2.
  ata_scan (Suc i) n seen2))"

definition discover_ata :: "(storage_vars, unit) prog" where
  "discover_ata = ata_scan 0 65536 0"

definition usb_info :: "u32 \<Rightarrow> storage_device_info" where
  "usb_info last_block = \<lparr>sd_type = 1, sd_sector_size = 512, sd_block_count = last_block + 1, sd_flags = 1,
     sd_model = map of_char ''USB mass storage'' @ replicate 24 32\<rparr>"

definition discover_usb :: "(storage_vars, unit) prog" where
  "discover_usb = bind (gets sv_usb_discovered) (\<lambda>before.
    if before \<noteq> 0 then ret ()
    else andthen (modify (\<lambda>s. s\<lparr>sv_usb_discovered := 1\<rparr>))
    (andthen (calibrate_timer kernel_hooks)
    (andthen (zero_mem DMA_BASE 0x7000)
    (bind (find_usb_disk kernel_hooks) (\<lambda>found.
    cond found (modify (\<lambda>s. s\<lparr>sv_devices := (sv_devices s)[0 := usb_info (bv_last_block s)],
       sv_device_mask := sv_device_mask s OR 1\<rparr>)))))))"

definition storage_prepare_usb_companions :: "u32 \<Rightarrow> (storage_vars, u32) prog" where
  "storage_prepare_usb_companions ehci_pci = bind (irq_save) (\<lambda>flags.
    bind (gets id) (\<lambda>s.
    andthen (if sv_initialized s = 0 \<or> sv_usb_discovered s \<noteq> 0 then ret ()
     else andthen (modify (\<lambda>s. s\<lparr>sv_companion_target := ehci_pci\<rparr>)) discover_usb)
    (andthen (irq_restore flags)
    (bind (gets id) (\<lambda>t.
    ret (if sv_companions_ready t \<noteq> 0 then bv_ticks_per_ms t else 0))))))"

definition storage_refresh_usb_companions :: "(storage_vars, unit) prog" where
  "storage_refresh_usb_companions = bind (irq_save) (\<lambda>flags.
    bind (gets id) (\<lambda>s.
    andthen (cond (sv_companions_ready s \<noteq> 0 \<and> bv_ehci s \<noteq> 0) (
       for_each 0 (unat (sv_companion_ports s)) (\<lambda>port. cond (of_nat port \<noteq> sv_companion_keep s) (
         let index = (0x44 + of_nat port * 4) div 4 in bind (ehci_read index) (\<lambda>v.
           cond (v AND 0x2001 = 1) (andthen (ehci_write index ((v AND NOT (0x2A OR 4)) OR 0x2000))
           (andthen (ehci_read index)
           (ret ()))))))))
    (irq_restore flags)))"

definition discover_storage :: "(storage_vars, unit) prog" where
  "discover_storage = bind (gets sv_discovered) (\<lambda>before.
    if before \<noteq> 0 then ret ()
    else andthen (modify (\<lambda>s. s\<lparr>sv_discovered := 1\<rparr>))
    (andthen (discover_usb)
    (discover_ata)))"

section \<open>The ring-0 interface\<close>

text \<open>\<open>entry\<close> is the link-time address of \<^verbatim>\<open>storage_syscall\<close>.\<close>

definition storage_initialize :: "u32 \<Rightarrow> (storage_vars, unit) prog" where
  "storage_initialize entry = bind (irq_save) (\<lambda>flags.
    bind (gets sv_initialized) (\<lambda>before.
    andthen (cond (before = 0) (bind (kernel_call Map_page [STORAGE_MMIO, 0x3004F000, 3]) (\<lambda>mapped.
       andthen (if mapped = 0 then panic ''Cannot reserve storage MMIO mapping'' else ret ())
       (andthen (store32 0x8000234C entry)
       (modify (\<lambda>s. s\<lparr>sv_initialized := 1\<rparr>))))))
    (irq_restore flags)))"

definition storage_device_mask :: "(storage_vars, u32) prog" where
  "storage_device_mask = bind (irq_save) (\<lambda>flags.
    bind (gets sv_initialized) (\<lambda>before.
    andthen (cond (before \<noteq> 0) discover_storage)
    (bind (gets sv_device_mask) (\<lambda>result.
    andthen (irq_restore flags)
    (ret result)))))"

definition storage_get_info :: "u32 \<Rightarrow> u32 \<Rightarrow> (storage_vars, u32) prog" where
  "storage_get_info device info = bind (gets sv_initialized) (\<lambda>before.
    if before = 0 then ret STORAGE_NOT_READY
    else if info = 0 \<or> device \<ge> 5 then ret STORAGE_BAD_ARGUMENT
    else bind (irq_save) (\<lambda>flags.
    andthen (discover_storage)
    (bind (gets id) (\<lambda>s.
    bind (if sv_device_mask s AND push_bit (unat device) 1 \<noteq> 0
       then andthen (store_list info (take 56 (info_bytes (sv_devices s ! unat device)))) (ret STORAGE_OK)
       else ret STORAGE_NO_DEVICE) (\<lambda>result.
    andthen (irq_restore flags)
    (ret result))))))"

text \<open>The body of \<^verbatim>\<open>storage_read\<close> with interrupts off, up to the label \<^verbatim>\<open>done\<close>.\<close>

definition read_ata_device :: "u32 \<Rightarrow> u32 \<Rightarrow> u32 \<Rightarrow> (storage_vars, bool) prog" where
  "read_ata_device device lba blocks = andthen (modify (\<lambda>s. s\<lparr>bv_ata_port := if device > 2 then 0x170 else 0x1F0,
       bv_ata_device := ucast ((device - 1) AND 1)\<rparr>))
    (bind (ata_read lba blocks) (\<lambda>success.
    andthen (cond (\<not> success) (let first = unat ((device - 1) AND NOT 1) in
       modify (\<lambda>s. s\<lparr>sv_ata_dead := (sv_ata_dead s)[first := 1, first + 1 := 1]\<rparr>)))
    (ret success)))"

definition storage_read_locked :: "u32 \<Rightarrow> u32 \<Rightarrow> u32 \<Rightarrow> u32 \<Rightarrow> (storage_vars, u32) prog" where
  "storage_read_locked device lba blocks buffer = bind (gets id) (\<lambda>s.
    if sv_device_mask s AND push_bit (unat device) 1 = 0 then ret STORAGE_NO_DEVICE
    else if \<not> storage_valid_range (sd_block_count (sv_devices s ! unat device)) lba blocks then ret STORAGE_BAD_ARGUMENT
    else if device \<noteq> 0 \<and> sv_ata_dead s ! unat (device - 1) \<noteq> 0 then ret STORAGE_IO_ERROR
    else bind (if device = 0 then usb_read kernel_hooks lba blocks else read_ata_device device lba blocks) (\<lambda>success.
    if \<not> success then ret STORAGE_IO_ERROR
    else andthen (mem_apply (\<lambda>m. memcpy m buffer TRANSFER_BUFFER (blocks * 512)))
    (ret STORAGE_OK)))"

definition storage_read :: "u32 \<Rightarrow> u32 \<Rightarrow> u32 \<Rightarrow> u32 \<Rightarrow> (storage_vars, u32) prog" where
  "storage_read device lba blocks buffer = bind (gets sv_initialized) (\<lambda>before.
    if before = 0 then ret STORAGE_NOT_READY
    else if buffer = 0 \<or> device \<ge> 5 \<or> blocks = 0 \<or> blocks > 32 then ret STORAGE_BAD_ARGUMENT
    else bind (irq_save) (\<lambda>flags.
    andthen (discover_storage)
    (bind (storage_read_locked device lba blocks buffer) (\<lambda>result.
    andthen (irq_restore flags)
    (ret result)))))"

definition storage_allow_process_reads :: "u32 \<Rightarrow> u32 \<Rightarrow> ('s, unit) prog" where
  "storage_allow_process_reads process allow =
     cond (process \<noteq> 0) (store32 (process + 4 * 17) (if allow \<noteq> 0 then 1 else 0))"

section \<open>System calls\<close>

definition valid_table :: "u32 \<Rightarrow> bool" where
  "valid_table physical \<longleftrightarrow> physical \<ge> 0x30500000 \<and> physical < 0x30800000 \<and> physical AND 4095 = 0"

definition user_page_ok :: "(u32 \<Rightarrow> u8) \<Rightarrow> u32 \<Rightarrow> u32 \<Rightarrow> bool" where
  "user_page_ok m pd page =
    (let pde = mem_load32 m (pd + 4 * drop_bit 22 page) in
     if pde AND 0x87 \<noteq> 7 \<or> \<not> valid_table (pde AND NOT 4095) then False
     else let pte = mem_load32 m ((pde AND NOT 4095) + 4 * (drop_bit 12 page AND 1023))
          in storage_user_page_writable pde pte)"

text \<open>
  The page loop of \<^verbatim>\<open>user_output\<close>: \<open>n\<close> pages from \<open>page\<close> on. The number of pages is
  at most 1281 because a valid range lies in a 5 MiB segment.
\<close>

fun user_pages_ok :: "(u32 \<Rightarrow> u8) \<Rightarrow> u32 \<Rightarrow> u32 \<Rightarrow> nat \<Rightarrow> bool" where
  "user_pages_ok m pd page 0 = True"
| "user_pages_ok m pd page (Suc n) = (if user_page_ok m pd page then user_pages_ok m pd (page + 4096) n else False)"

definition user_output :: "u32 \<Rightarrow> u32 \<Rightarrow> u32 \<Rightarrow> (storage_vars, u32) prog" where
  "user_output process offset extent = bind (load32 (process + 4 * 14)) (\<lambda>slot.
    let linear = storage_user_range slot offset extent
    in bind (load32 process) (\<lambda>pd.
    bind (get_cpu cpu_cr3) (\<lambda>cr3.
    bind (load32 (process + 4 * 15)) (\<lambda>kind.
    if linear = 0 \<or> kind \<noteq> 0 \<or> \<not> valid_table pd \<or> cr3 AND NOT 4095 \<noteq> pd then ret 0
    else bind ((\<lambda>e w. Done (mem w) w)) (\<lambda>m.
    let final_page = (linear + extent - 1) AND NOT 4095
    in let page = linear AND NOT 4095
    in ret (if user_pages_ok m pd page (unat ((final_page - page) div 4096) + 1) then linear else 0))))))"

definition storage_syscall :: "storage_registers \<Rightarrow> u32 \<Rightarrow> (storage_vars, u32) prog" where
  "storage_syscall r owner = bind (gets sv_initialized) (\<lambda>before.
    if before = 0 then ret STORAGE_NOT_READY
    else if owner = 0 then ret STORAGE_ACCESS_DENIED
    else bind (load32 (owner + 4 * 17)) (\<lambda>grant.
    bind (load32 (owner + 4 * 15)) (\<lambda>kind.
    if grant \<noteq> 1 \<or> kind \<noteq> 0 then ret STORAGE_ACCESS_DENIED
    else if eax r = 7 then storage_device_mask
    else if eax r \<noteq> 5 \<and> eax r \<noteq> 6 then ret STORAGE_BAD_ARGUMENT
    else bind (user_output owner (edi r) (if eax r = 5 then 56 else 512)) (\<lambda>buffer.
    if buffer = 0 then ret STORAGE_BAD_BUFFER
    else if eax r = 5 then storage_get_info (ebx r) buffer else storage_read (ebx r) (esi r) 1 buffer))))"

end
