(* ===== verification/Storage_Safety.thy ===== *)
theory Storage_Safety
  imports Storage
begin

text \<open>
  What the storage service may do. \<^verbatim>\<open>service_invariant\<close> extends the contract of
  \<^verbatim>\<open>transport_invariant\<close> by the accesses of \<^verbatim>\<open>Storage.c\<close> itself and shows that every
  entry point keeps the invariant; it is interpreted for the ATA command history, for the memory
  outside the service's buffers and for termination. The rest is about the check of user
  buffers and about ATA channels that have failed.
\<close>

section \<open>Invariants of the service\<close>

definition same_transport :: "(storage_vars \<Rightarrow> storage_vars) \<Rightarrow> bool" where
  "same_transport f \<longleftrightarrow> (\<forall>s. bv_ata_port (f s) = bv_ata_port s \<and> bv_ata_device (f s) = bv_ata_device s \<and>
     bv_backend (f s) = bv_backend s \<and> bv_ticks_per_ms (f s) = bv_ticks_per_ms s)"

text \<open>The hooks of the kernel build keep an invariant that their accesses keep.\<close>

lemma kernel_hooks_keep:
  assumes "\<And>a. keeps e I K J (mmio_read a)" "\<And>a v. keeps e I K J (mmio_write a v)"
    "\<And>fn args. keeps e I K J (kernel_call fn args)" "\<And>f. same_transport f \<Longrightarrow> keeps e I K J (modify f)"
  shows "keeps e I K J (hk_screen kernel_hooks msg v)" "keeps e I K J (hk_capability kernel_hooks v)"
    "keeps e I K J (hk_candidate kernel_hooks v)" "keeps e I K J (hk_accept kernel_hooks ports v)"
    "keeps e I K J (hk_release kernel_hooks v)"
proof -
  have handoff: "keeps e I K J (storage_handoff_ports ports keep)" for ports keep
    unfolding storage_handoff_ports_def ehci_read_def ehci_write_def Let_def
    by (intro keeps_intros assms) (simp_all add: same_transport_def)
  have "keeps e I K J (storage_map_mmio physical)" for physical
    unfolding storage_map_mmio_def storage_map_mmio_window_def Let_def
    by (intro keeps_bind keeps_gets) (auto intro!: keeps_intros assms simp: same_transport_def split: prod.split)
  then show "keeps e I K J (hk_screen kernel_hooks msg v)" "keeps e I K J (hk_capability kernel_hooks v)"
    "keeps e I K J (hk_candidate kernel_hooks v)" "keeps e I K J (hk_accept kernel_hooks ports v)"
    "keeps e I K J (hk_release kernel_hooks v)"
    by (auto simp: kernel_hooks_def storage_usb_candidate_def intro!: keeps_intros handoff)
qed

locale service_invariant = transport_invariant e I K J kernel_hooks
  for e and I K J :: "storage_vars world \<Rightarrow> bool" +
  assumes calls: "keeps e I K J (kernel_call fn args)" "keeps e I K J irq_save" "keeps e I K J (irq_restore b)"
    and identify: "keeps e I K J (ata_out8 7 0xEC)"
    and channel: "p = 0x170 \<or> p = 0x1F0 \<Longrightarrow>
      keeps e I K J (modify (\<lambda>s. s\<lparr>bv_ata_port := p\<rparr>))"
    and device: "keeps e I K J (modify (\<lambda>s. s\<lparr>bv_ata_device := d\<rparr>))"
    and own: "same_transport f \<Longrightarrow> keeps e I K J (modify f)"
begin

lemma identify_ata_keeps: "keeps e I K J identify_ata"
  unfolding identify_ata_def by (intro steps ata identify ata_keeps ata_fetch_keeps) auto

lemma discover_ata_keeps: "keeps e I K J discover_ata"
proof -
  have "keeps e I K J (probe_ata c d)" for c d
    unfolding probe_ata_def Let_def transfer_words_def
    by (intro steps identify_ata_keeps device own) (simp_all add: keeps_def same_transport_def)
  then have "keeps e I K J (ata_channel mode c seen)" for mode c seen
    unfolding ata_channel_def by (intro steps device channel) simp_all
  then have "keeps e I K J (ata_scan i n seen)" for i n seen
    by (induction n arbitrary: i seen) (auto simp: Let_def intro!: steps)
  then show ?thesis by (simp add: discover_ata_def)
qed

lemma discover_usb_keeps: "keeps e I K J discover_usb"
  unfolding discover_usb_def
  by (intro steps own find_usb_disk_keeps) (simp_all add: same_transport_def scratch_def)

lemma discover_storage_keeps: "keeps e I K J discover_storage"
  unfolding discover_storage_def
  by (intro steps own discover_usb_keeps discover_ata_keeps) (simp_all add: same_transport_def)

lemma companions_keep: "keeps e I K J (storage_prepare_usb_companions pci)" "keeps e I K J storage_refresh_usb_companions"
  unfolding storage_prepare_usb_companions_def storage_refresh_usb_companions_def Let_def
  by (intro steps own calls discover_usb_keeps; simp add: same_transport_def)+

lemma storage_device_mask_keeps: "keeps e I K J storage_device_mask"
  unfolding storage_device_mask_def by (intro steps calls discover_storage_keeps)

lemma storage_get_info_keeps:
  assumes "\<And>bs. length bs \<le> 56 \<Longrightarrow> keeps e I K J (store_list info bs)"
  shows "keeps e I K J (storage_get_info d info)"
  unfolding storage_get_info_def by (intro steps calls discover_storage_keeps assms) simp

lemma read_ata_device_keeps: "keeps e I K J (read_ata_device d lba blocks)"
proof -
  have "keeps e I K J (modify (\<lambda>s. s\<lparr>bv_ata_port := p, bv_ata_device := u\<rparr>))" if "p = 0x170 \<or> p = 0x1F0" for p u
  proof -
    have "modify (\<lambda>s :: storage_vars. s\<lparr>bv_ata_port := p, bv_ata_device := u\<rparr>) =
      andthen (modify (\<lambda>s. s\<lparr>bv_ata_port := p\<rparr>)) (modify (\<lambda>s. s\<lparr>bv_ata_device := u\<rparr>))"
      by (simp add: fun_eq_iff run_modify run_andthen)
    then show ?thesis using that by (simp add: keeps_andthen channel device)
  qed
  note choose = this
  show ?thesis unfolding read_ata_device_def Let_def
    by (rule keeps_andthen [OF choose], simp, intro steps ata_read_keeps own) (simp add: same_transport_def)
qed

lemma storage_read_keeps:
  assumes "keeps e I K J (mem_apply (\<lambda>m. memcpy m buffer TRANSFER_BUFFER (blocks * 512)))"
  shows "keeps e I K J (storage_read d lba blocks buffer)"
  unfolding storage_read_def storage_read_locked_def
  by (intro steps calls discover_storage_keeps read_ata_device_keeps usb_read_keeps assms)

end

section \<open>Calls of the service\<close>

text \<open>The entry points the rest of the kernel uses, in any order.\<close>

datatype storage_call =
    Prepare u32 | Refresh | Mask | Info u32 u32 | Read u32 u32 u32 u32 | Syscall storage_registers u32

fun storage_run :: "storage_call \<Rightarrow> (storage_vars, u32) prog" where
  "storage_run (Prepare pci) = storage_prepare_usb_companions pci"
| "storage_run Refresh = andthen storage_refresh_usb_companions (ret 0)"
| "storage_run Mask = storage_device_mask"
| "storage_run (Info d info) = storage_get_info d info"
| "storage_run (Read d lba blocks buffer) = storage_read d lba blocks buffer"
| "storage_run (Syscall r owner) = storage_syscall r owner"

fun storage_session :: "storage_call list \<Rightarrow> (storage_vars, unit) prog" where
  "storage_session [] = ret ()"
| "storage_session (c # cs) = andthen (storage_run c) (storage_session cs)"

text \<open>An invariant that does not look at the caller's buffer is kept by every call.\<close>

locale whole_service_invariant = service_invariant e I K J for e and I K J :: "storage_vars world \<Rightarrow> bool" +
  assumes any_memory: "keeps e I K J (store_list a bs)" "keeps e I K J (mem_apply g)"
begin

lemma storage_run_keeps: "keeps e I K J (storage_run c)"
proof (cases c)
  case (Syscall r owner)
  have "keeps e I K J (user_output owner x n)" for x n
    unfolding user_output_def Let_def by (intro keeps_intros) (simp add: keeps_def)
  then show ?thesis unfolding Syscall storage_run.simps storage_syscall_def
    by (intro keeps_intros storage_device_mask_keeps storage_get_info_keeps storage_read_keeps any_memory)
qed (simp_all add: companions_keep keeps_andthen keeps_ret storage_device_mask_keeps
    storage_get_info_keeps storage_read_keeps any_memory)

lemma storage_session_keeps: "keeps e I K J (storage_session cs)"
  by (induction cs) (simp_all add: keeps_ret keeps_andthen storage_run_keeps)

end

abbreviation (input) disk_reads :: "io_event list \<Rightarrow> storage_vars world \<Rightarrow> bool" where
  "disk_reads h \<equiv> disk_safe [0x20, 0xEC] h"

interpretation service_disk: whole_service_invariant e "disk_safe [0x20, 0xEC] h" "disk_safe [0x20, 0xEC] h"
  "disk_safe [0x20, 0xEC] h" for e h
proof (intro whole_service_invariant.intro whole_service_invariant_axioms.intro
    service_invariant.intro service_invariant_axioms.intro)
  have "keeps e (disk_reads h) (disk_reads h) (disk_reads h) (modify f)" if "same_transport f" for f
    by (rule disk_safe_modify) (use that in \<open>simp add: same_transport_def\<close>)
  then show "transport_invariant e (disk_reads h) (disk_reads h) (disk_reads h) kernel_hooks"
    "\<And>f. same_transport f \<Longrightarrow> keeps e (disk_reads h) (disk_reads h) (disk_reads h) (modify f)"
    by (auto intro!: disk_safe_invariant kernel_hooks_keep disk_safe_ports disk_safe_memory)
qed (auto intro!: disk_safe_memory disk_safe_modify disk_safe_ata)

interpretation service_live: whole_service_invariant e "\<lambda>w. steady_clock e \<longrightarrow> calibrated w" "\<lambda>w. True"
  "\<lambda>w. \<not> steady_clock e" for e
proof (intro whole_service_invariant.intro whole_service_invariant_axioms.intro
    service_invariant.intro service_invariant_axioms.intro)
  have own: "finishes e (modify f)" if "same_transport f" for f
    by (rule finishes_by_modify) (use that in \<open>simp add: same_transport_def\<close>)
  show "transport_invariant e (\<lambda>w. steady_clock e \<longrightarrow> calibrated w) (\<lambda>w. True) (\<lambda>w. \<not> steady_clock e) kernel_hooks"
  proof
    show "finishes e (modify f)" if "same_disk f" for f :: "storage_vars \<Rightarrow> storage_vars"
      by (rule finishes_by_modify) (use that in \<open>simp add: same_disk_def\<close>)
    show "finishes e (calibrate_timer kernel_hooks)"
      by (rule calibrate_timer_finishes) (simp add: kernel_hooks_def returns_prims)
  qed (simp_all add: kernel_hooks_keep own finish_rules)
qed (simp_all add: finish_rules finishes_by_modify same_transport_def)

lemma frame_own: "keeps e (frame e R m) (frame e R m) (frame e R m) (modify f)"
  "keeps e (frame e R m) (frame e R m) (frame e R m) (kernel_call fn args)"
  "keeps e (frame e R m) (frame e R m) (frame e R m) (mmio_read a)"
  "keeps e (frame e R m) (frame e R m) (frame e R m) (mmio_write a v)"
  by (simp_all add: frame_keeps_pure prog_simps)

interpretation service_frame: service_invariant e "frame e R m" "frame e R m" "frame e R m" for e R m
proof (intro service_invariant.intro service_invariant_axioms.intro)
  show "transport_invariant e (frame e R m) (frame e R m) (frame e R m) kernel_hooks"
  proof
    show "keeps e (frame e R m) (frame e R m) (frame e R m) dma_sync" by (rule frame_dma_sync)
    show "keeps e (frame e R m) (frame e R m) (frame e R m) (store_list a bs)" if "scratch a (length bs)" for a bs
      using that by (intro frame_store) (simp_all add: scratch_def loader_owned_def)
    show "keeps e (frame e R m) (frame e R m) (frame e R m) (calibrate_timer kernel_hooks)"
      by (intro calibrate_timer_keeps) (simp_all add: kernel_hooks_keep frame_own frame_keeps_pure prog_simps)
  qed (simp_all add: kernel_hooks_keep frame_own delay_keeps timed_loop_keeps frame_keeps_pure prog_simps ata_out8_def)
qed (simp_all add: frame_own frame_keeps_pure prog_simps ata_out8_def)

section \<open>User buffers\<close>

text \<open>The byte at \<open>a\<close> belongs to a private page that the page tables at \<open>pd\<close> let the user write.\<close>

definition user_byte :: "(u32 \<Rightarrow> u8) \<Rightarrow> u32 \<Rightarrow> u32 \<Rightarrow> bool" where
  "user_byte m pd a \<longleftrightarrow> user_page_ok m pd (a AND NOT 4095)"

lemma user_pages_ok_nth:
  "user_pages_ok m pd page n \<Longrightarrow> k < n \<Longrightarrow> user_page_ok m pd (page + of_nat (4096 * k))"
proof (induction n arbitrary: page k)
  case (Suc n)
  show ?case
  proof (cases k)
    case 0
    then show ?thesis using Suc.prems by (simp split: if_splits)
  next
    case (Suc j)
    then have "user_page_ok m pd ((page + 4096) + of_nat (4096 * j))"
      using Suc.IH [of "page + 4096" j] Suc.prems by (simp split: if_splits)
    then show ?thesis using Suc by (simp add: algebra_simps)
  qed
qed simp

lemma storage_user_range_bounds:
  assumes "storage_user_range slot offset n = linear" "linear \<noteq> 0"
  shows "unat linear = unat slot + 0x400000 + unat offset" "unat offset + unat n \<le> 0x500000"
    "unat slot + 0xA00000 \<le> 0x40000000" "0 < unat n"
proof -
  have c: "\<not> slot > 0x3F600000" "n \<noteq> 0" "\<not> offset \<ge> 0x500000" "\<not> n > 0x500000 - offset"
    and l: "linear = slot + 0x400000 + offset"
    using assms by (auto simp: storage_user_range_def split: if_splits)
  have o: "unat offset < 0x500000" using c(3) by (simp add: word_le_nat_alt)
  then have "unat (0x500000 - offset) = 0x500000 - unat offset" by (subst unat_sub_le) (simp_all add: word_le_nat_alt)
  then show n: "unat offset + unat n \<le> 0x500000" using c(4) o by (simp add: word_less_nat_alt)
  show "0 < unat n" using c(2) by (simp add: unat_gt_0)
  show s: "unat slot + 0xA00000 \<le> 0x40000000" using c(1) by (simp add: word_less_nat_alt)
  show "unat linear = unat slot + 0x400000 + unat offset"
    unfolding l using o s by (simp add: unat_word_ariths)
qed

lemma page_in_range:
  fixes a linear n :: u32
  assumes "a - linear < n" "unat linear + unat n \<le> 2 ^ 32" "0 < unat n"
  shows "\<exists>k < unat ((((linear + n - 1) AND NOT 4095) - (linear AND NOT 4095)) div 4096) + 1.
    a AND NOT 4095 = (linear AND NOT 4095) + of_nat (4096 * k)"
proof -
  have a: "unat linear \<le> unat a" "unat a < unat linear + unat n"
    using image_range [of a linear n] assms by (simp_all add: image_at_def)
  have top: "unat (linear + n - 1) = unat linear + unat n - 1"
  proof -
    have m: "unat (n - 1) = unat n - 1" using assms(3) by (intro unat_minus_one) auto
    have "unat (linear + (n - 1)) = unat linear + unat (n - 1)"
      using assms(2,3) m by (subst unat_plus_if') simp
    then show ?thesis using m assms(3) by (simp add: algebra_simps)
  qed
  let ?p = "unat linear div 4096" and ?q = "(unat linear + unat n - 1) div 4096" and ?r = "unat a div 4096"
  have r: "?p \<le> ?r" "?r \<le> ?q" using a by (auto intro!: div_le_mono)
  have "(linear AND NOT 4095) \<le> ((linear + n - 1) AND NOT 4095)"
    using r by (simp add: word_le_nat_alt unat_page top)
  then have "unat (((linear + n - 1) AND NOT 4095) - (linear AND NOT 4095)) = (?q - ?p) * 4096"
    by (simp add: unat_sub_le unat_page top diff_mult_distrib)
  then have d: "unat ((((linear + n - 1) AND NOT 4095) - (linear AND NOT 4095)) div 4096) = ?q - ?p"
    by (simp add: unat_div)
  have le: "(linear AND NOT 4095) \<le> (a AND NOT 4095)" using r by (simp add: word_le_nat_alt unat_page)
  have "unat ((a AND NOT 4095) - (linear AND NOT 4095)) = (?r - ?p) * 4096"
    using le by (simp add: unat_sub_le unat_page diff_mult_distrib)
  then have "of_nat (unat ((a AND NOT 4095) - (linear AND NOT 4095))) = (of_nat (4096 * (?r - ?p)) :: u32)"
    by (simp only: mult.commute)
  then have "(a AND NOT 4095) - (linear AND NOT 4095) = of_nat (4096 * (?r - ?p))"
    by (simp only: of_nat_unat ucast_id)
  then have "a AND NOT 4095 = (linear AND NOT 4095) + of_nat (4096 * (?r - ?p))"
    by (metis add.commute diff_add_cancel)
  moreover have "?r - ?p < ?q - ?p + 1" using r by linarith
  ultimately show ?thesis unfolding d by blast
qed

lemma user_output_run:
  "\<exists>p. user_output process offset n e w = Done p w \<and>
    (p = 0 \<or> unat p + unat n \<le> 0x40000000 \<and> (\<forall>a \<in> image_at p n. cpu_cr3 (cpu_regs w) AND NOT 4095 = mem_load32 (mem w) process \<and>
      user_byte (mem w) (mem_load32 (mem w) process) a \<and>
      unat (mem_load32 (mem w) (process + 56)) + 0x400000 \<le> unat a \<and>
      unat a < unat (mem_load32 (mem w) (process + 56)) + 0x900000))"
proof -
  let ?slot = "mem_load32 (mem w) (process + 56)" and ?pd = "mem_load32 (mem w) process"
  let ?l = "storage_user_range ?slot offset n"
  let ?bad = "?l = 0 \<or> mem_load32 (mem w) (process + 60) \<noteq> 0 \<or> \<not> valid_table ?pd \<or> cpu_cr3 (cpu_regs w) AND NOT 4095 \<noteq> ?pd"
  let ?pages = "user_pages_ok (mem w) ?pd (?l AND NOT 4095)
      (unat ((((?l + n - 1) AND NOT 4095) - (?l AND NOT 4095)) div 4096) + 1)"
  have run: "user_output process offset n e w = Done (if ?bad then 0 else if ?pages then ?l else 0) w"
    by (simp add: user_output_def prog_simps Let_def)
  show ?thesis
  proof (cases "\<not> ?bad \<and> ?pages")
    case True
    then have nz: "?l \<noteq> 0" by blast
    note b = storage_user_range_bounds [OF refl nz]
    have "user_byte (mem w) ?pd a \<and> unat ?slot + 0x400000 \<le> unat a \<and> unat a < unat ?slot + 0x900000"
      if "a \<in> image_at ?l n" for a
    proof -
      have r: "unat ?l \<le> unat a" "unat a < unat ?l + unat n"
        using image_range [OF that] b by simp_all
      have "a - ?l < n" using that by (simp add: image_at_def)
      then have "user_byte (mem w) ?pd a"
        using page_in_range [of a ?l n] user_pages_ok_nth True b unfolding user_byte_def by fastforce
      then show ?thesis using r b by linarith
    qed
    moreover have "user_output process offset n e w = Done ?l w" using run True by (simp only: if_False if_True)
    moreover have "unat ?l + unat n \<le> 0x40000000" using b by linarith
    ultimately show ?thesis using True by (intro exI [of _ ?l]) blast
  next
    case False
    then have "user_output process offset n e w = Done 0 w" using run by (simp only: if_False if_True split: if_split) blast
    then show ?thesis by (intro exI [of _ 0]) simp
  qed
qed

lemma memcpy_frame:
  "image_at buffer n \<subseteq> R \<Longrightarrow> keeps e (frame e R m) (frame e R m) (frame e R m) (mem_apply (\<lambda>m. memcpy m buffer s n))"
  unfolding memcpy_def by (intro frame_mem_apply copy_forward_outside) (auto simp: image_at_def)

lemma store_list_frame:
  assumes "image_at a 56 \<subseteq> R" "unat a + 56 \<le> 2 ^ 32" "length bs \<le> 56"
  shows "keeps e (frame e R m) (frame e R m) (frame e R m) (store_list a bs)"
proof (rule keepsI)
  fix w :: "'a boot_vars_scheme world"
  assume w: "frame e R m w"
  have "mem_store_list a bs f x = f x" if "x \<notin> R" for f x
  proof (rule mem_store_list_outside)
    show "unat a + length bs \<le> 2 ^ 32" using assms(2,3) by linarith
    have "\<not> x - a < 56" using that assms(1) by (auto simp: image_at_def)
    then show "unat x < unat a \<or> unat a + length bs \<le> unat x"
    proof (cases "a \<le> x")
      case True
      then have "unat (x - a) = unat x - unat a" by (rule unat_sub_le)
      then show ?thesis using \<open>\<not> x - a < 56\<close> assms(3) True by (auto simp: word_less_nat_alt word_le_nat_alt)
    qed (simp add: word_le_nat_alt)
  qed
  then show "frame e R m (final (store_list a bs e w))"
    using w by (simp add: frame_def store_list_def)
qed

lemma storage_syscall_run:
  assumes "user_output owner (edi r) (if eax r = 5 then 56 else 512) e w = Done p w"
  shows "storage_syscall r owner e w =
    (if sv_initialized (vars w) = 0 then Done STORAGE_NOT_READY w
     else if owner = 0 then Done STORAGE_ACCESS_DENIED w
     else if mem_load32 (mem w) (owner + 68) \<noteq> 1 \<or> mem_load32 (mem w) (owner + 60) \<noteq> 0 then Done STORAGE_ACCESS_DENIED w
     else if eax r = 7 then storage_device_mask e w
     else if eax r \<noteq> 5 \<and> eax r \<noteq> 6 then Done STORAGE_BAD_ARGUMENT w
     else if p = 0 then Done STORAGE_BAD_BUFFER w
     else if eax r = 5 then storage_get_info (ebx r) p e w else storage_read (ebx r) (esi r) 1 p e w)"
  using assms by (cases "eax r = 5") (simp_all add: storage_syscall_def run_bind run_gets run_ret load32_def)

section \<open>Properties\<close>


text \<open>The state after \<^verbatim>\<open>.bss\<close> is cleared.\<close>

definition storage_zero :: storage_vars where
  "storage_zero = boot_vars.extend boot_zero
    \<lparr>sv_devices = replicate 5 \<lparr>sd_type = 0, sd_sector_size = 0, sd_block_count = 0, sd_flags = 0, sd_model = replicate 40 0\<rparr>,
     sv_initialized = 0, sv_discovered = 0, sv_device_mask = 0, sv_mapped_mmio = 0, sv_ata_dead = replicate 4 0,
     sv_usb_discovered = 0, sv_companion_target = 0, sv_companions_ready = 0, sv_companion_ports = 0,
     sv_companion_keep = 0\<rparr>"

lemma storage_zero_simps:
  "bv_ata_port storage_zero = 0" "bv_ticks_per_ms storage_zero = 0" "sv_ata_dead storage_zero = [0, 0, 0, 0]"
  by (simp_all add: storage_zero_def boot_zero_def boot_vars.defs eval_nat_numeral)

text \<open>
  C27: the storage service never writes a disk. In any sequence of calls to the service (the
  system calls of user programs included), whatever the devices answer and however the sequence
  ends, the commands sent to the ATA channels are READ SECTORS and IDENTIFY only, and nothing
  is written to a data port.
\<close>

theorem storage_calls_only_read_disks:
  assumes "bv_ata_port (vars w) = 0 \<or> bv_ata_port (vars w) = 0x1F0 \<or> bv_ata_port (vars w) = 0x170"
  shows "\<exists>new. io (final (storage_session calls e w)) = new @ io w \<and> list_all (ata_quiet [0x20, 0xEC]) new"
proof -
  have "disk_safe [0x20, 0xEC] (io w) w" using assms by (simp add: disk_safe_def)
  then have "disk_safe [0x20, 0xEC] (io w) (final (storage_session calls e w))"
    by (rule keepsD [OF service_disk.storage_session_keeps])
  then show ?thesis by (simp add: disk_safe_def grown_def)
qed

theorem storage_calls_only_read_disks_witness:
  "\<exists>new. io (final (storage_session [Mask, Read 1 0 1 0x1000] null_env (start_world storage_zero))) = new @ [] \<and>
     list_all (ata_quiet [0x20, 0xEC]) new"
  using storage_calls_only_read_disks [of "start_world storage_zero" "[Mask, Read 1 0 1 0x1000]" null_env]
  by (simp add: storage_zero_simps)



lemma ata_read_vars: "keeps e (\<lambda>v. vars v = s) (\<lambda>v. vars v = s) (\<lambda>v. vars v = s) (ata_read lba blocks)"
proof -
  let ?k = "\<lambda>v. vars v = s"
  have p: "keeps e ?k ?k ?k (in8 p)" "keeps e ?k ?k ?k (in16 p)" "keeps e ?k ?k ?k (out8 p b)"
    "keeps e ?k ?k ?k (store16 a h)" "keeps e ?k ?k ?k tsc" for p b a h
    by (rule keepsI, simp add: prog_simps)+
  show ?thesis
    unfolding ata_read_def ata_settle_def ata_wait_def ata_fetch_def ata_in8_def ata_out8_def
    by (intro keeps_intros timed_loop_keeps p)
qed



section \<open>Companion ports without a USB disk\<close>

text \<open>
  When no USB disk is found the companion ports have been handed over, but the controller's address
  is forgotten: every later \<^verbatim>\<open>storage_refresh_usb_companions\<close> does nothing, and a port that
  EHCI has taken back on a disconnect is never handed over again.
\<close>

lemma probe_controller_forgets:
  assumes "probe_controller kernel_hooks i e w = Done None w'" "bv_ehci (vars w) = 0"
  shows "bv_ehci (vars w') = 0"
  using assms unfolding probe_controller_def kernel_hooks_def Let_def storage_usb_candidate_def pci_read_def
  by (auto simp: prog_simps bind_def andthen_def split: outcome.splits if_splits)

lemma for_until_invariant:
  assumes "for_until i n body e w = Done None w'" "P w"
    and "\<And>i w w'. body i e w = Done None w' \<Longrightarrow> P w \<Longrightarrow> P w'"
  shows "P w'"
  using assms by (induction n arbitrary: i w) (auto simp: prog_simps bind_def split: outcome.splits option.splits)

lemma find_usb_disk_forgets:
  assumes "find_usb_disk kernel_hooks e w = Done False w'" "bv_ehci (vars w) = 0"
  shows "bv_ehci (vars w') = 0"
proof -
  have "for_until 0 65536 (probe_controller kernel_hooks) e w = Done None w'"
  proof (cases "for_until 0 65536 (probe_controller kernel_hooks) e w")
    case (Done r w1)
    then show ?thesis using assms(1) by (cases r) (auto simp: find_usb_disk_def prog_simps)
  qed (use assms(1) in \<open>auto simp: find_usb_disk_def prog_simps\<close>)
  then show ?thesis
    by (rule for_until_invariant [where P = "\<lambda>w. bv_ehci (vars w) = 0"]) (use assms probe_controller_forgets in auto)
qed

lemma no_usb_disk_no_refresh:
  assumes "find_usb_disk kernel_hooks e w = Done False w'" "bv_ehci (vars w) = 0"
  shows "storage_refresh_usb_companions e' w' = Done () w'"
  using find_usb_disk_forgets [OF assms] by (simp add: storage_refresh_usb_companions_def prog_simps)

end
