(* ===== verification/Usb_Host.thy ===== *)
theory Usb_Host
  imports Storage_Safety Ring_Buffer
begin

text \<open>
  The UHCI host controller driver, \<^verbatim>\<open>Drivers/Usb/UsbHost.c\<close>: routing and packet helpers,
  discovery, root ports, control transfers, the periodic report stream with its interrupt handler
  and its report queue. Frame lists, queue heads and descriptors are bytes of the modelled memory;
  what the controller writes there is seen at the points where the code reads a descriptor. The
  report callback is a function pointer of the state: \<open>None\<close> or a function on the state of the
  client, which is a parameter of the record. The storage service, with which the driver shares the
  USB ports, is a field of the state.
\<close>

abbreviation (input) UHCI_READY :: u32 where "UHCI_READY \<equiv> 1"
abbreviation (input) UHCI_BAD_ROUTE :: u32 where "UHCI_BAD_ROUTE \<equiv> 2"
abbreviation (input) UHCI_BAD_BAR :: u32 where "UHCI_BAD_BAR \<equiv> 3"
abbreviation (input) UHCI_CONTROLLER_ERROR :: u32 where "UHCI_CONTROLLER_ERROR \<equiv> 4"
abbreviation (input) UHCI_TRANSFER_ERROR :: u32 where "UHCI_TRANSFER_ERROR \<equiv> 5"
abbreviation (input) UHCI_DISCONNECTED :: u32 where "UHCI_DISCONNECTED \<equiv> 6"
abbreviation (input) UHCI_ACTIVE :: u32 where "UHCI_ACTIVE \<equiv> 0x800000"
abbreviation (input) UHCI_ERRORS :: u32 where "UHCI_ERRORS \<equiv> 0x760000"
abbreviation (input) USB_RUN :: u16 where "USB_RUN \<equiv> 0xC1"
abbreviation (input) USB_HALTED :: u16 where "USB_HALTED \<equiv> 0x20"
abbreviation (input) IOAPIC_MASK :: u32 where "IOAPIC_MASK \<equiv> 0x10000"
abbreviation (input) REPORT_CONNECTED :: u32 where "REPORT_CONNECTED \<equiv> 1"
abbreviation (input) REPORT_DATA :: u32 where "REPORT_DATA \<equiv> 2"
abbreviation (input) REPORT_DISCONNECTED :: u32 where "REPORT_DISCONNECTED \<equiv> 3"

section \<open>Pure helpers\<close>

definition uhci_resolve_gsi :: "u32 \<Rightarrow> u32 \<Rightarrow> u32 \<Rightarrow> u32 \<Rightarrow> u32 \<Rightarrow> u32 \<Rightarrow> u32" where
  "uhci_resolve_gsi lpc_id controller_id fn pin d29ip d29ir =
    (if (lpc_id \<noteq> 0x26418086 \<and> lpc_id \<noteq> 0x26408086) \<or> fn \<ge> 4 \<or>
        controller_id \<noteq> 0x26588086 + push_bit 16 fn \<or> pin < 1 \<or> pin > 4 \<or>
        drop_bit (unat (fn * 4)) d29ip AND 15 \<noteq> pin then 0xFFFFFFFF
     else let pirq = drop_bit (unat ((pin - 1) * 4)) d29ir AND 15
          in if pirq < 8 then 16 + pirq else 0xFFFFFFFF)"

definition uhci_token :: "u32 \<Rightarrow> u32 \<Rightarrow> u32 \<Rightarrow> u32 \<Rightarrow> u32 \<Rightarrow> u32" where
  "uhci_token pid address endpoint toggle len =
    (if (pid \<noteq> 0x69 \<and> pid \<noteq> 0xE1 \<and> pid \<noteq> 0x2D) \<or> address > 127 \<or> endpoint > 15 \<or> toggle > 1 \<or> len > 64
     then 0xFFFFFFFF
     else pid OR push_bit 8 address OR push_bit 15 endpoint OR push_bit 19 toggle OR
          push_bit 21 ((len - 1) AND 0x7FF))"

text \<open>The doubling loop of \<^verbatim>\<open>uhci_interval\<close>, which ends after at most eight rounds.\<close>

function interval_from :: "u32 \<Rightarrow> u32 \<Rightarrow> u32" where
  "interval_from result ms =
    (if result \<noteq> 0 \<and> ms \<le> 255 \<and> result \<le> ms \<and> result * 2 \<le> ms then interval_from (result * 2) ms else result)"
  by pat_completeness auto
termination
proof (relation "measure (\<lambda>(result, ms). 256 - unat result)")
  fix result ms :: u32
  assume c: "result \<noteq> 0 \<and> ms \<le> 255 \<and> result \<le> ms \<and> result * 2 \<le> ms"
  then have "0 < unat result" "unat result \<le> 255" by (auto simp: word_le_nat_alt unat_gt_0)
  moreover from this have "unat (result * 2) = unat result * 2" by (simp add: unat_word_ariths)
  ultimately show "((result * 2, ms), result, ms) \<in> measure (\<lambda>(result, ms). 256 - unat result)" by simp
qed simp

declare interval_from.simps [simp del]

definition uhci_interval :: "u32 \<Rightarrow> u32" where
  "uhci_interval ms = (if ms = 0 \<or> ms > 255 then 0 else interval_from 1 ms)"

definition uhci_completed_length :: "u32 \<Rightarrow> u32 \<Rightarrow> int" where
  "uhci_completed_length status requested =
    (if status AND UHCI_ACTIVE \<noteq> 0 then - 2
     else if status AND UHCI_ERRORS \<noteq> 0 then - 1
     else let actual = ((status AND 0x7FF) + 1) AND 0x7FF
          in if actual \<le> requested then uint actual else - 1)"

definition uhci_port_update :: "u32 \<Rightarrow> u32 \<Rightarrow> u32 \<Rightarrow> u32" where
  "uhci_port_update previous clr st = (previous AND NOT (0x080A OR clr)) OR st"

section \<open>State\<close>

record uhci_controller_info =
  ci_pci :: u32
  ci_io_base :: u32
  ci_gsi :: u32
  ci_vector :: u32
  ci_status :: u32
  ci_interrupts :: u32
  ci_last_status :: u32
  ci_dma :: u32
  ci_port_status :: "u32 list"
  ci_reports :: u32
  ci_dropped :: u32

record uhci_controller =
  uc_frames :: u32
  uc_control_qh :: u32
  uc_interrupt_qh :: u32
  uc_control_td :: u32
  uc_interrupt_td :: u32
  uc_control_data :: u32
  uc_interrupt_data :: u32
  uc_queue :: u32
  uc_producer :: u32
  uc_consumer :: u32
  uc_address :: u32
  uc_endpoint :: u32
  uc_low_speed :: u32
  uc_packet :: u32
  uc_toggle :: u32
  uc_active :: u32
  uc_port :: u32
  uc_last_request :: u32
  uc_last_control_result :: u32

record 'm usb_host =
  uh_controller_count :: u32
  uh_route_mask :: u32
  uh_error :: u32
  uh_unclaimed_interrupts :: u32
  uh_info :: "uhci_controller_info list"
  uh_polls :: u32
  uh_poll_completions :: u32
  uh_last_td :: "u32 list"
  uh_port_generation :: "u32 list list"
  uh_ehci_bar :: u32
  uh_ctl :: "uhci_controller list"
  uh_ticks_per_ms :: u32
  uh_initialized :: u32
  uh_hotplug_time :: u32
  uh_unclaimed_streak :: "u32 list"
  uh_callback :: "(u32 \<Rightarrow> u32 \<Rightarrow> u8 list option \<Rightarrow> u32 \<Rightarrow> 'm \<Rightarrow> 'm) option"
  uh_client :: 'm
  uh_storage :: storage_vars

definition get_info :: "nat \<Rightarrow> ('m usb_host, uhci_controller_info) prog" where
  "get_info i = gets (\<lambda>s. uh_info s ! i)"

definition get_ctl :: "nat \<Rightarrow> ('m usb_host, uhci_controller) prog" where
  "get_ctl i = gets (\<lambda>s. uh_ctl s ! i)"

definition set_info :: "nat \<Rightarrow> (uhci_controller_info \<Rightarrow> uhci_controller_info) \<Rightarrow> ('m usb_host, unit) prog" where
  "set_info i f = modify (\<lambda>s. s\<lparr>uh_info := (uh_info s)[i := f (uh_info s ! i)]\<rparr>)"

definition set_ctl :: "nat \<Rightarrow> (uhci_controller \<Rightarrow> uhci_controller) \<Rightarrow> ('m usb_host, unit) prog" where
  "set_ctl i f = modify (\<lambda>s. s\<lparr>uh_ctl := (uh_ctl s)[i := f (uh_ctl s ! i)]\<rparr>)"

definition call_client :: "nat \<Rightarrow> u32 \<Rightarrow> u8 list option \<Rightarrow> u32 \<Rightarrow> ('m usb_host, unit) prog" where
  "call_client i event data len = modify (\<lambda>s. case uh_callback s of None \<Rightarrow> s
     | Some f \<Rightarrow> s\<lparr>uh_client := f (of_nat i) event data len (uh_client s)\<rparr>)"

definition usb_host_set_report_callback ::
  "(u32 \<Rightarrow> u32 \<Rightarrow> u8 list option \<Rightarrow> u32 \<Rightarrow> 'm \<Rightarrow> 'm) option \<Rightarrow> ('m usb_host, u32) prog" where
  "usb_host_set_report_callback callback = bind (irq_save) (\<lambda>flags.
    bind (gets uh_ctl) (\<lambda>ctl.
    let result = c_bool (\<forall>i \<in> {0..<4}. uc_active (ctl ! i) = 0)
    in andthen (cond (result \<noteq> 0) (modify (\<lambda>s. s\<lparr>uh_callback := callback\<rparr>)))
    (andthen (irq_restore flags)
    (ret result))))"

section \<open>Hardware access\<close>

definition pci_read :: "u32 \<Rightarrow> u32 \<Rightarrow> ('s, u32) prog" where
  "pci_read device reg = andthen (out32 0xCF8 (0x80000000 OR device OR (reg AND NOT 3))) (in32 0xCFC)"

definition pci_write16 :: "u32 \<Rightarrow> u32 \<Rightarrow> u16 \<Rightarrow> ('s, unit) prog" where
  "pci_write16 device reg value = andthen (out32 0xCF8 (0x80000000 OR device OR (reg AND NOT 3)))
     (out16 (ucast (0xCFC + (reg AND 2))) value)"

definition usb_delay :: "u32 \<Rightarrow> ('m usb_host, unit) prog" where
  "usb_delay = delay_by uh_ticks_per_ms"

definition ioapic_read :: "u32 \<Rightarrow> ('s, u32) prog" where
  "ioapic_read reg = andthen (mmio_write 0xFEC00000 reg) (mmio_read 0xFEC00010)"

definition ioapic_write :: "u32 \<Rightarrow> u32 \<Rightarrow> ('s, unit) prog" where
  "ioapic_write reg value = andthen (mmio_write 0xFEC00000 reg)
    (andthen (mmio_write 0xFEC00010 value)
    (andthen (mmio_read 0xFEC00010)
    (ret ())))"

definition wait_io :: "u16 \<Rightarrow> u16 \<Rightarrow> u16 \<Rightarrow> ('m usb_host, bool) prog" where
  "wait_io port m value = bind (timed_by uh_ticks_per_ms (bind (in16 port) (\<lambda>v. ret (if v AND m = value then Some () else None)))) (\<lambda>r.
    ret (r \<noteq> None))"

definition stop :: "nat \<Rightarrow> ('m usb_host, unit) prog" where
  "stop i = bind (get_info i) (\<lambda>info.
    let base = ucast (ci_io_base info)
    in andthen (out16 base 0)
    (bind (wait_io (base + 2) USB_HALTED USB_HALTED) (\<lambda>halted.
    if halted then ret ()
    else andthen (out16 (base + 4) 0)
    (panic ''UHCI cannot stop DMA safely''))))"

section \<open>The report stream\<close>

definition arm_interrupt :: "nat \<Rightarrow> ('m usb_host, unit) prog" where
  "arm_interrupt i = bind (get_ctl i) (\<lambda>c.
    andthen (store32 (uc_interrupt_td c) 1)
    (andthen (store32 (uc_interrupt_td c + 8) (uhci_token 0x69 (uc_address c) (uc_endpoint c) (uc_toggle c) (uc_packet c)))
    (andthen (store32 (uc_interrupt_td c + 12) (uc_interrupt_data c))
    (andthen (store32 (uc_interrupt_td c + 4) (0x7FF OR UHCI_ACTIVE OR push_bit 24 1 OR push_bit 27 3 OR
       push_bit 29 1 OR push_bit 26 (uc_low_speed c)))
    (andthen (fence)
    (store32 (uc_interrupt_qh c + 4) (uc_interrupt_td c)))))))"

text \<open>
  The software queue: sixteen reports of 68 bytes (a length and 64 data bytes) in memory, with
  free-running counters. First the memory, then the whole operation on a controller and memory.
\<close>

definition report_slot :: "uhci_controller \<Rightarrow> u32 \<Rightarrow> u32" where
  "report_slot c n = uc_queue c + 68 * (n AND 15)"

definition report_copy :: "uhci_controller \<Rightarrow> u32 \<Rightarrow> (u32 \<Rightarrow> u8) \<Rightarrow> (u32 \<Rightarrow> u8)" where
  "report_copy c len m = (let slot = report_slot c (uc_producer c) in
     memcpy (memset (mem_store32 slot len m) (slot + 4) 0 64) (slot + 4) (uc_interrupt_data c) len)"

definition uhci_enqueue :: "u32 \<Rightarrow> uhci_controller \<times> (u32 \<Rightarrow> u8) \<Rightarrow> (uhci_controller \<times> (u32 \<Rightarrow> u8)) option" where
  "uhci_enqueue len = (\<lambda>(c, m). if uc_producer c - uc_consumer c < 16
     then Some (c\<lparr>uc_producer := uc_producer c + 1\<rparr>, report_copy c len m) else None)"

definition store_report :: "nat \<Rightarrow> u32 \<Rightarrow> ('m usb_host, unit) prog" where
  "store_report i len = (\<lambda>e w. case uhci_enqueue len (uh_ctl (vars w) ! i, mem w) of
     Some (c, m) \<Rightarrow> Done () (w\<lparr>mem := m, vars := (vars w)\<lparr>uh_ctl := (uh_ctl (vars w))[i := c]\<rparr>\<rparr>)
   | None \<Rightarrow> set_info i (\<lambda>f. f\<lparr>ci_dropped := ci_dropped f + 1\<rparr>) e w)"

text \<open>The branch of \<^verbatim>\<open>service_controller\<close> for a host system error.\<close>

definition service_halt :: "nat \<Rightarrow> u16 \<Rightarrow> ('m usb_host, u32) prog" where
  "service_halt i base = andthen (out16 (base + 4) 0)
    (andthen (out16 base 0)
    (bind (get_info i) (\<lambda>info.
    bind (pci_read (ci_pci info) 4) (\<lambda>command.
    andthen (pci_write16 (ci_pci info) 4 (ucast (command OR 0x400)))
    (andthen (set_ctl i (\<lambda>c. c\<lparr>uc_active := 0\<rparr>))
    (andthen (set_info i (\<lambda>f. f\<lparr>ci_status := UHCI_CONTROLLER_ERROR\<rparr>))
    (andthen (call_client i REPORT_DISCONNECTED None 0)
    (ret 1))))))))"

text \<open>
  From line 263 on: the descriptor is no longer active, or the device is gone; \<open>c\<close> is the controller
  as the caller read it, which nothing has changed since.
\<close>

definition service_report :: "nat \<Rightarrow> uhci_controller \<Rightarrow> bool \<Rightarrow> u32 \<Rightarrow> ('m usb_host, u32) prog" where
  "service_report i c from_irq td_status =
    andthen (store32 (uc_interrupt_qh c + 4) 1)
    (bind (get_info i) (\<lambda>info.
    if ci_status info \<noteq> UHCI_READY then andthen (set_ctl i (\<lambda>c. c\<lparr>uc_active := 0\<rparr>))
       (andthen (call_client i REPORT_DISCONNECTED None 0)
       (ret 1))
    else let len = word_of_int (uhci_completed_length td_status (uc_packet c))
    in andthen (cond (\<not> from_irq) (modify (\<lambda>s. s\<lparr>uh_poll_completions := uh_poll_completions s + 1\<rparr>)))
    (andthen (set_info i (\<lambda>f. f\<lparr>ci_reports := ci_reports f + 1\<rparr>))
    (bind (load_list (uc_interrupt_data c) 64) (\<lambda>data.
    andthen (call_client i REPORT_DATA (Some data) len)
    (andthen (store_report i len)
    (andthen (set_ctl i (\<lambda>c. c\<lparr>uc_toggle := uc_toggle c XOR 1\<rparr>))
    (andthen (arm_interrupt i)
    (ret 1)))))))))"

text \<open>Lines 251 to 262: what the port and the descriptor say.\<close>

definition service_stream :: "nat \<Rightarrow> bool \<Rightarrow> u32 \<Rightarrow> ('m usb_host, u32) prog" where
  "service_stream i from_irq status = bind (get_info i) (\<lambda>info.
    bind (get_ctl i) (\<lambda>c.
    if uc_active c = 0 then ret (c_bool (status AND 0x1F \<noteq> 0))
    else bind (in16 (ucast (ci_io_base info) + 0x10 + ucast (uc_port c * 2))) (\<lambda>p.
    let port = ucast p :: u32
    in andthen (set_info i (\<lambda>f. f\<lparr>ci_port_status := (ci_port_status f)[unat (uc_port c) := port]\<rparr>))
    (bind (dma_load32 (uc_interrupt_td c + 4)) (\<lambda>td.
    andthen (modify (\<lambda>s. s\<lparr>uh_last_td := (uh_last_td s)[i := td]\<rparr>))
    (if port AND 5 \<noteq> 5 \<or> port AND 2 \<noteq> 0 then
       andthen (set_info i (\<lambda>f. f\<lparr>ci_status := UHCI_DISCONNECTED\<rparr>)) (service_report i c from_irq td)
     else if td AND UHCI_ACTIVE \<noteq> 0 then ret (c_bool (status AND 0x1F \<noteq> 0))
     else if uhci_completed_length td (uc_packet c) < 0 then
       andthen (set_info i (\<lambda>f. f\<lparr>ci_status := UHCI_TRANSFER_ERROR\<rparr>)) (service_report i c from_irq td)
     else service_report i c from_irq td))))))"

definition service_controller :: "nat \<Rightarrow> bool \<Rightarrow> ('m usb_host, u32) prog" where
  "service_controller i from_irq = bind (get_info i) (\<lambda>info.
    bind (get_ctl i) (\<lambda>c.
    if uc_frames c = 0 \<or> ci_status info = UHCI_CONTROLLER_ERROR then ret 0
    else let base = ucast (ci_io_base info)
    in bind (in16 (base + 2)) (\<lambda>st.
    let status = ucast st :: u32
    in andthen (cond (status AND 0x1F \<noteq> 0) (andthen (set_info i (\<lambda>f. f\<lparr>ci_interrupts := (if from_irq then ci_interrupts f + 1 else ci_interrupts f),
         ci_last_status := status\<rparr>))
       (out16 (base + 2) (ucast (status AND 0x1F)))))
    (if status AND 0x18 \<noteq> 0 then service_halt i base else service_stream i from_irq status))))"

section \<open>Interrupts and idle polling\<close>

text \<open>\<^verbatim>\<open>acc |= body(i)\<close> over consecutive indices.\<close>

fun or_each :: "nat \<Rightarrow> nat \<Rightarrow> (nat \<Rightarrow> ('s, u32) prog) \<Rightarrow> u32 \<Rightarrow> ('s, u32) prog" where
  "or_each i 0 body acc = ret acc"
| "or_each i (Suc n) body acc = bind (body i) (\<lambda>v. or_each (Suc i) n body (acc OR v))"

text \<open>
  The frame is \<open>None\<close> for a null pointer, otherwise its vector; the source reads no other field.
\<close>

definition usb_host_interrupt :: "u32 option \<Rightarrow> ('m usb_host, unit) prog" where
  "usb_host_interrupt fr = (case fr of
      None \<Rightarrow> panic ''Invalid UHCI interrupt frame''
    | Some vector \<Rightarrow> (if vector < 0x40 \<or> vector > 0x47 then panic ''Invalid UHCI interrupt frame''
       else let gsi = 16 + vector - 0x40
         in let line = unat (gsi - 16)
         in bind (or_each 0 4 (\<lambda>i. bind (get_info i) (\<lambda>info.
            if ci_gsi info = gsi then service_controller i True else ret 0)) 0) (\<lambda>claimed.
         if claimed \<noteq> 0 then modify (\<lambda>s. s\<lparr>uh_unclaimed_streak := (uh_unclaimed_streak s)[line := 0]\<rparr>)
         else andthen (modify (\<lambda>s. s\<lparr>uh_unclaimed_interrupts := uh_unclaimed_interrupts s + 1,
             uh_unclaimed_streak := (uh_unclaimed_streak s)[line := uh_unclaimed_streak s ! line + 1]\<rparr>))
           (bind (gets uh_unclaimed_streak) (\<lambda>streak.
           if streak ! line < 32 then ret ()
           else let reg = 0x10 + gsi * 2
           in bind (ioapic_read reg) (\<lambda>v.
           andthen (ioapic_write reg (v OR IOAPIC_MASK))
           (modify (\<lambda>s. s\<lparr>uh_route_mask := uh_route_mask s AND NOT (push_bit line 1)\<rparr>))))))))"

definition idle_frames :: "uhci_controller \<Rightarrow> ('s, unit) prog" where
  "idle_frames c = for_each 0 1024 (\<lambda>f. store32 (uc_frames c + 4 * of_nat f) (uc_control_qh c OR 2))"

text \<open>Lines 337 to 350: a broken stream is taken out of the schedule and the controller restarted.\<close>

definition poll_recover :: "nat \<Rightarrow> u16 \<Rightarrow> ('m usb_host, unit) prog" where
  "poll_recover i base = andthen (out16 (base + 4) 0)
    (andthen (stop i)
    (bind (get_ctl i) (\<lambda>c.
    andthen (store32 (uc_control_qh c + 4) 1)
    (andthen (store32 (uc_interrupt_qh c + 4) 1)
    (andthen (store32 (uc_interrupt_td c + 4) 0)
    (andthen (set_ctl i (\<lambda>c. c\<lparr>uc_producer := 0, uc_consumer := 0\<rparr>))
    (andthen (idle_frames c)
    (andthen (fence)
    (andthen (set_info i (\<lambda>f. f\<lparr>ci_status := UHCI_READY\<rparr>))
    (andthen (out16 (base + 2) 0x1F)
    (andthen (out16 base USB_RUN)
    (out16 (base + 4) 0x0D))))))))))))"

definition poll_port :: "nat \<Rightarrow> u16 \<Rightarrow> nat \<Rightarrow> ('m usb_host, unit) prog" where
  "poll_port i base port = (let reg = base + 0x10 + of_nat port * 2
    in bind (in16 reg) (\<lambda>v.
    let value = ucast v :: u32
    in andthen (set_info i (\<lambda>f. f\<lparr>ci_port_status := (ci_port_status f)[port := value]\<rparr>))
    (andthen (cond (value AND 2 \<noteq> 0) (modify (\<lambda>s. s\<lparr>uh_port_generation := (uh_port_generation s)[i :=
       (uh_port_generation s ! i)[port := uh_port_generation s ! i ! port + 1]]\<rparr>)))
    (cond (value AND 0x080A \<noteq> 0)
      (out16 reg (ucast (uhci_port_update value 0 0 OR (value AND 0x080A))))))))"

text \<open>The body of the loop of \<^verbatim>\<open>usb_host_poll\<close> from line 323 on.\<close>

definition poll_controller :: "nat \<Rightarrow> ('m usb_host, u32) prog" where
  "poll_controller i = bind (get_info i) (\<lambda>info.
    bind (get_ctl i) (\<lambda>c.
    if uc_frames c = 0 \<or> ci_status info = UHCI_CONTROLLER_ERROR then ret 0
    else let base = ucast (ci_io_base info)
    in bind ((if uc_active c = 0 then ret False
       else bind (dma_load32 (uc_interrupt_td c + 4)) (\<lambda>td. ret (td AND UHCI_ACTIVE = 0)))) (\<lambda>paused.
    andthen (cond paused (andthen (out16 (base + 4) 0)
      (stop i)))
    (andthen (service_controller i False)
    (bind (get_info i) (\<lambda>info.
    if ci_status info = UHCI_CONTROLLER_ERROR then ret 0
    else bind (get_ctl i) (\<lambda>c.
    andthen (cond (paused \<and> uc_active c \<noteq> 0) (andthen (out16 base USB_RUN)
      (out16 (base + 4) 0x0D)))
    (andthen (cond (ci_status info = UHCI_DISCONNECTED \<or> ci_status info = UHCI_TRANSFER_ERROR) (poll_recover i base))
    (andthen (for_each 0 2 (poll_port i base))
    (ret (if uc_active c \<noteq> 0 then push_bit i 1 else 0)))))))))))"

definition in_storage :: "(storage_vars, 'a) prog \<Rightarrow> ('m usb_host, 'a) prog" where
  "in_storage = zoom uh_storage (\<lambda>v s. s\<lparr>uh_storage := v\<rparr>)"

definition usb_host_poll :: "('m usb_host, u32) prog" where
  "usb_host_poll = bind (gets uh_ticks_per_ms) (\<lambda>ticks.
    if ticks = 0 then ret 0
    else bind (irq_save) (\<lambda>flags.
    andthen (modify (\<lambda>s. s\<lparr>uh_polls := uh_polls s + 1\<rparr>))
    (andthen (in_storage storage_refresh_usb_companions)
    (bind (or_each 0 4 poll_controller 0) (\<lambda>active.
    andthen (irq_restore flags)
    (ret active))))))"

definition usb_uhci_hotplug_due :: "('m usb_host, bool) prog" where
  "usb_uhci_hotplug_due = bind (gets uh_ticks_per_ms) (\<lambda>ticks.
    if ticks = 0 then ret False
    else bind (tsc) (\<lambda>now.
    bind (gets uh_hotplug_time) (\<lambda>before.
    if now - before < ticks * 100 then ret False
    else andthen (modify (\<lambda>s. s\<lparr>uh_hotplug_time := now\<rparr>))
    (ret True))))"

section \<open>Initialisation\<close>

text \<open>
  One controller, lines 418 to 495; the source's \<^verbatim>\<open>continue\<close> is a return. First the schedule
  (lines 457 to 473), then the interrupt route (lines 486 to 492).
\<close>

definition build_schedule :: "nat \<Rightarrow> u32 \<Rightarrow> ('m usb_host, unit) prog" where
  "build_schedule i dma = andthen (mem_apply (\<lambda>m. memset m dma 0 0x4000))
    (andthen (set_ctl i (\<lambda>c. c\<lparr>uc_frames := dma, uc_control_qh := dma + 0x1000, uc_interrupt_qh := dma + 0x1010,
      uc_control_td := dma + 0x1020, uc_interrupt_td := dma + 0x1030, uc_control_data := dma + 0x2000,
      uc_interrupt_data := dma + 0x2100, uc_queue := dma + 0x3000\<rparr>))
    (bind (get_ctl i) (\<lambda>c.
    andthen (store32 (uc_control_qh c + 4) 1)
    (andthen (store32 (uc_control_qh c) 1)
    (andthen (store32 (uc_interrupt_qh c) (uc_control_qh c OR 2))
    (andthen (store32 (uc_interrupt_qh c + 4) 1)
    (idle_frames c)))))))"

definition route_interrupt :: "u32 \<Rightarrow> u32 \<Rightarrow> u32 \<Rightarrow> u32 \<Rightarrow> ('m usb_host, unit) prog" where
  "route_interrupt b redir previous vector = bind (gets uh_route_mask) (\<lambda>mask.
    cond (mask AND b = 0) (andthen (ioapic_write redir (previous OR IOAPIC_MASK))
      (bind (mmio_read 0xFEE00020) (\<lambda>apic.
      andthen (ioapic_write (redir + 1) (apic AND 0xFF000000))
      (andthen (ioapic_write redir (IOAPIC_MASK OR 0xA000 OR vector))
      (modify (\<lambda>s. s\<lparr>uh_route_mask := uh_route_mask s OR b\<rparr>)))))))"

definition give_up :: "nat \<Rightarrow> u32 \<Rightarrow> ('m usb_host, unit) prog" where
  "give_up i status = set_info i (\<lambda>f. f\<lparr>ci_status := status\<rparr>)"

text \<open>Lines 440 to 495: a controller whose route and I/O base are acceptable is reset and started.\<close>

definition start_controller :: "nat \<Rightarrow> u32 \<Rightarrow> u32 \<Rightarrow> u32 \<Rightarrow> u32 \<Rightarrow> ('m usb_host, unit) prog" where
  "start_controller i pci gsi previous bar = (let io_base = bar AND NOT 0x1F
    in let vector = 0x40 + gsi - 16
    in let dma = 0x30060000 + of_nat i * 0x4000
    in let base = ucast io_base
    in andthen (set_info i (\<lambda>f. f\<lparr>ci_io_base := io_base, ci_gsi := gsi, ci_vector := vector, ci_dma := dma\<rparr>))
    (bind (pci_read pci 4) (\<lambda>command.
    andthen (pci_write16 pci 4 (ucast ((command OR 5) AND NOT 0x400)))
    (andthen (pci_write16 pci 0xC0 0x2000)
    (andthen (out16 (base + 4) 0)
    (andthen (stop i)
    (andthen (out16 base 2)
    (bind (wait_io base 2 0) (\<lambda>reset.
    if \<not> reset then give_up i UHCI_CONTROLLER_ERROR
    else andthen (build_schedule i dma)
    (andthen (out16 (base + 2) 0x1F)
    (andthen (out16 (base + 6) 0)
    (andthen (out32 (base + 8) dma)
    (andthen (fence)
    (andthen (out16 base USB_RUN)
    (bind (wait_io (base + 2) USB_HALTED 0) (\<lambda>running.
    if \<not> running then give_up i UHCI_CONTROLLER_ERROR
    else bind (in16 (base + 0x10)) (\<lambda>p0.
    bind (in16 (base + 0x12)) (\<lambda>p1.
    andthen (set_info i (\<lambda>f. f\<lparr>ci_port_status := [ucast p0, ucast p1]\<rparr>))
    (andthen (route_interrupt (push_bit (unat (gsi - 16)) 1) (0x10 + gsi * 2) previous vector)
    (andthen (set_info i (\<lambda>f. f\<lparr>ci_status := UHCI_READY\<rparr>))
    (andthen (out16 (base + 4) 0x0D)
    (modify (\<lambda>s. s\<lparr>uh_controller_count := uh_controller_count s + 1\<rparr>)))))))))))))))))))))))"

definition init_controller :: "u32 \<Rightarrow> u32 \<Rightarrow> u32 \<Rightarrow> u32 \<Rightarrow> nat \<Rightarrow> ('m usb_host, unit) prog" where
  "init_controller lpc d29ip d29ir max_gsi i = (let pci = 0xE800 OR push_bit 8 (of_nat i) :: u32
    in bind (pci_read pci 0) (\<lambda>device.
    if device AND 0xFFFF = 0xFFFF then ret ()
    else bind (pci_read pci 8) (\<lambda>cls.
    if drop_bit 8 cls \<noteq> 0x0C0300 then ret ()
    else andthen (set_info i (\<lambda>f. f\<lparr>ci_pci := pci\<rparr>))
    (bind (pci_read pci 0x3C) (\<lambda>line.
    let gsi = uhci_resolve_gsi lpc device (of_nat i) (drop_bit 8 line AND 255) d29ip d29ir
    in if gsi = 0xFFFFFFFF \<or> gsi > max_gsi then give_up i UHCI_BAD_ROUTE
    else bind (ioapic_read (0x10 + gsi * 2)) (\<lambda>previous.
    bind (gets uh_route_mask) (\<lambda>mask.
    if mask AND push_bit (unat (gsi - 16)) 1 = 0 \<and> (previous AND IOAPIC_MASK = 0 \<or> previous AND 0x5000 \<noteq> 0) then give_up i UHCI_BAD_ROUTE
    else bind (pci_read pci 0x20) (\<lambda>bar.
    if bar AND 1 = 0 \<or> bar AND 0xFFFF0000 \<noteq> 0 \<or> bar AND NOT 0x1F < 0x100 \<or> bar AND 0x1E \<noteq> 0 then give_up i UHCI_BAD_BAR
    else start_controller i pci gsi previous bar))))))))"

definition unmask_route :: "nat \<Rightarrow> ('m usb_host, unit) prog" where
  "unmask_route route = bind (gets uh_route_mask) (\<lambda>mask.
    cond (mask AND push_bit route 1 \<noteq> 0) (let reg = 0x10 + (16 + of_nat route) * 2
      in bind (ioapic_read reg) (\<lambda>v.
      ioapic_write reg (v AND NOT IOAPIC_MASK))))"

definition map_rcba :: "u32 \<Rightarrow> nat \<Rightarrow> ('s, unit) prog" where
  "map_rcba rcba k = bind (kernel_call Map_page [0x80D00000 + of_nat k * 4096, (rcba AND NOT 0x3FFF) + of_nat k * 4096, 0x1B]) (\<lambda>ok.
    cond (ok = 0) (panic ''Cannot map ICH6 routing registers''))"

text \<open>Lines 388 to 504, whose \<^verbatim>\<open>goto done\<close> are returns.\<close>

definition init_hardware :: "u32 \<Rightarrow> u32 \<Rightarrow> ('m usb_host, unit) prog" where
  "init_hardware host_address handler = andthen (store32 0x80002354 host_address)
    (andthen (store32 0x80002350 handler)
    (bind (pci_read 0xF800 0) (\<lambda>lpc.
    if lpc \<noteq> 0x26418086 \<and> lpc \<noteq> 0x26408086 then ret ()
    else bind (pci_read 0xF800 0xF0) (\<lambda>rcba.
    if rcba AND 1 = 0 \<or> rcba AND NOT 0x3FFF < 0x40000000 then modify (\<lambda>s. s\<lparr>uh_error := UHCI_BAD_ROUTE\<rparr>)
    else andthen (for_each 0 4 (map_rcba rcba))
    (bind (mmio_read (0x80D00000 + 0x3108)) (\<lambda>d29ip.
    bind (mmio_read (0x80D00000 + 0x3144)) (\<lambda>ir.
    bind (pci_read 0xEF00 0x10) (\<lambda>bar.
    andthen (modify (\<lambda>s. s\<lparr>uh_ehci_bar := bar\<rparr>))
    (bind (in_storage (storage_prepare_usb_companions 0xEF00)) (\<lambda>ticks.
    andthen (modify (\<lambda>s. s\<lparr>uh_ticks_per_ms := ticks\<rparr>))
    (if ticks = 0 then modify (\<lambda>s. s\<lparr>uh_error := UHCI_CONTROLLER_ERROR\<rparr>)
    else bind (ioapic_read 1) (\<lambda>version.
    andthen (for_each 0 4 (init_controller lpc d29ip (ir AND 0xFFFF) (drop_bit 16 version AND 255)))
    (for_each 0 8 unmask_route)))))))))))))"

definition usb_host_initialize :: "u32 \<Rightarrow> u32 \<Rightarrow> ('m usb_host, u32) prog" where
  "usb_host_initialize host_address handler = bind (irq_save) (\<lambda>flags.
    bind (gets uh_initialized) (\<lambda>done.
    andthen (cond (done = 0) (andthen (modify (\<lambda>s. s\<lparr>uh_initialized := 1\<rparr>))
      (init_hardware host_address handler)))
    (andthen (irq_restore flags)
    (gets uh_controller_count))))"

section \<open>Root ports\<close>

definition port_register :: "u32 \<Rightarrow> u32 \<Rightarrow> u16" where
  "port_register io_base port = ucast (io_base + 0x10 + port * 2)"

definition set_port_status :: "nat \<Rightarrow> u32 \<Rightarrow> u32 \<Rightarrow> ('m usb_host, unit) prog" where
  "set_port_status i port value = set_info i (\<lambda>f. f\<lparr>ci_port_status := (ci_port_status f)[unat port := value]\<rparr>)"

text \<open>Write a port register back with some bits cleared and some set.\<close>

definition update_port :: "u16 \<Rightarrow> u32 \<Rightarrow> u32 \<Rightarrow> ('s, unit) prog" where
  "update_port reg clr st = bind (in16 reg) (\<lambda>value.
    out16 reg (ucast (uhci_port_update (ucast value) clr st)))"

definition usb_uhci_reset_port :: "u32 \<Rightarrow> u32 \<Rightarrow> ('m usb_host, u32) prog" where
  "usb_uhci_reset_port ident port = (if ident \<ge> 4 \<or> port > 1 then ret 0
    else let i = unat ident
    in bind (get_info i) (\<lambda>info.
    if ci_status info \<noteq> UHCI_READY then ret 0
    else bind (irq_save) (\<lambda>flags.
    bind (get_ctl i) (\<lambda>c.
    if uc_active c \<noteq> 0 then andthen (irq_restore flags)
      (ret 0)
    else let reg = port_register (ci_io_base info) port
    in bind (in16 reg) (\<lambda>value.
    if value AND 1 = 0 then andthen (irq_restore flags)
      (ret 0)
    else andthen (out16 reg (ucast (uhci_port_update (ucast value) 4 0x200)))
    (andthen (usb_delay 50)
    (andthen (update_port reg 0x200 0)
    (andthen (usb_delay 10)
    (andthen (update_port reg 0 4)
    (andthen (usb_delay 10)
    (bind (in16 reg) (\<lambda>value.
    andthen (set_port_status i port (ucast value))
    (andthen (irq_restore flags)
    (ret (if value AND 5 = 5 then (if value AND 0x100 \<noteq> 0 then 2 else 1) else 0)))))))))))))))"

definition usb_uhci_debug_snapshot :: "u32 \<Rightarrow> u32 \<Rightarrow> ('m usb_host, unit) prog" where
  "usb_uhci_debug_snapshot ident snapshot = (if snapshot = 0 then ret ()
    else andthen (mem_apply (\<lambda>m. memset m snapshot 0 44))
    (if ident \<ge> 4 then ret ()
    else let i = unat ident
    in bind (get_ctl i) (\<lambda>c.
    if uc_frames c = 0 then ret ()
    else bind (irq_save) (\<lambda>flags.
    bind (get_info i) (\<lambda>info.
    let base = ucast (ci_io_base info) :: u16
    in bind (in16 base) (\<lambda>command.
    andthen (store32 snapshot (ucast command))
    (bind (in16 (base + 2)) (\<lambda>status.
    andthen (store32 (snapshot + 4) (ucast status))
    (bind (in16 (base + 4)) (\<lambda>enable.
    andthen (store32 (snapshot + 8) (ucast enable))
    (bind (in16 (base + 6)) (\<lambda>now.
    andthen (store32 (snapshot + 12) (ucast now))
    (bind (in16 (base + 0x10)) (\<lambda>p0.
    andthen (store32 (snapshot + 28) (ucast p0))
    (bind (in16 (base + 0x12)) (\<lambda>p1.
    andthen (store32 (snapshot + 32) (ucast p1))
    (bind (dma_load32 (uc_interrupt_td c + 4)) (\<lambda>td.
    andthen (store32 (snapshot + 16) td)
    (bind (dma_load32 (uc_interrupt_qh c + 4)) (\<lambda>qh.
    andthen (store32 (snapshot + 20) qh)
    (bind (dma_load32 (uc_control_td c + 4)) (\<lambda>ctd.
    andthen (store32 (snapshot + 24) ctd)
    (andthen (store32 (snapshot + 36) (uc_last_request c))
    (andthen (store32 (snapshot + 40) (uc_last_control_result c))
    (irq_restore flags)))))))))))))))))))))))))"

definition usb_uhci_delay :: "u32 \<Rightarrow> ('m usb_host, unit) prog" where
  "usb_uhci_delay milliseconds = for_each 0 (unat milliseconds) (\<lambda>_. usb_delay 1)"

definition usb_uhci_disable_port :: "u32 \<Rightarrow> u32 \<Rightarrow> ('m usb_host, unit) prog" where
  "usb_uhci_disable_port ident port = (if ident \<ge> 4 \<or> port > 1 then ret ()
    else let i = unat ident
    in bind (get_info i) (\<lambda>info.
    bind (get_ctl i) (\<lambda>c.
    if ci_io_base info = 0 \<or> uc_active c \<noteq> 0 then ret ()
    else bind (irq_save) (\<lambda>flags.
    let reg = port_register (ci_io_base info) port
    in andthen (update_port reg (4 OR 0x200) 0)
    (bind (in16 reg) (\<lambda>value.
    andthen (set_port_status i port (ucast value))
    (irq_restore flags)))))))"

section \<open>Control transfers\<close>

definition control_packet :: "nat \<Rightarrow> u32 \<Rightarrow> u32 \<Rightarrow> u32 \<Rightarrow> u32 \<Rightarrow> u32 \<Rightarrow> ('m usb_host, int) prog" where
  "control_packet i pid address low toggle len = bind (get_ctl i) (\<lambda>c.
    bind (get_info i) (\<lambda>info.
    let base = ucast (ci_io_base info)
    in andthen (stop i)
    (andthen (store32 (uc_control_td c) 1)
    (andthen (store32 (uc_control_td c + 8) (uhci_token pid address 0 toggle len))
    (andthen (store32 (uc_control_td c + 12) (uc_control_data c))
    (andthen (store32 (uc_control_td c + 4) (0x7FF OR UHCI_ACTIVE OR push_bit 27 3 OR push_bit 26 low))
    (andthen (store32 (uc_control_qh c + 4) (uc_control_td c))
    (andthen (fence)
    (andthen (out16 base USB_RUN)
    (andthen (timed_by uh_ticks_per_ms (bind (dma_load32 (uc_control_td c + 4)) (\<lambda>td.
      ret (if td AND UHCI_ACTIVE = 0 then Some () else None))))
    (andthen (stop i)
    (bind (dma_load32 (uc_control_td c + 4)) (\<lambda>td.
    bind (in16 (base + 2)) (\<lambda>status.
    andthen (cond (status AND 0x18 \<noteq> 0) (andthen (set_info i (\<lambda>f. f\<lparr>ci_status := UHCI_CONTROLLER_ERROR\<rparr>))
      (bind (pci_read (ci_pci info) 4) (\<lambda>command.
      pci_write16 (ci_pci info) 4 (ucast (command OR 0x400))))))
    (andthen (store32 (uc_control_qh c + 4) 1)
    (andthen (out16 (base + 2) 0x1F)
    (ret (if status AND 0x18 \<noteq> 0 then - 1 else uhci_completed_length td len))))))))))))))))))"

text \<open>
  The caller's buffer is a list of bytes. A copy that would leave it is undefined behaviour in C;
  here it stops the run with a message of its own, so that its absence can be stated.
\<close>

definition buffer_overrun :: string where
  "buffer_overrun = ''undefined: copy outside the caller's buffer''"

definition copy_into :: "u8 list \<Rightarrow> nat \<Rightarrow> u8 list \<Rightarrow> ('s, u8 list) prog" where
  "copy_into buffer offset bytes = (if offset + length bytes \<le> length buffer
     then ret (take offset buffer @ bytes @ drop (offset + length bytes) buffer)
     else panic buffer_overrun)"

text \<open>
  The data stage, the loop of lines 633 to 647. It returns \<open>None\<close> where the source goes to
  \<^verbatim>\<open>done\<close>, otherwise the bytes received; the first argument bounds the iterations, each of which
  moves at least one byte.
\<close>

fun data_stage :: "nat \<Rightarrow> nat \<Rightarrow> u32 \<Rightarrow> u32 \<Rightarrow> nat \<Rightarrow> bool \<Rightarrow> nat \<Rightarrow> nat \<Rightarrow> u32 \<Rightarrow> u8 list \<Rightarrow>
    ('m usb_host, (nat option \<times> u8 list)) prog" where
  "data_stage 0 i address low packet input len received toggle buffer = (\<lambda>e w. Unfinished w)"
| "data_stage (Suc n) i address low packet input len received toggle buffer = (if \<not> received < len then ret (Some received, buffer)
  else let count = min (len - received) packet
  in bind (get_ctl i) (\<lambda>c.
  andthen ((if input then ret ()
     else if received + count \<le> length buffer
       then store_list (uc_control_data c) (take count (drop received buffer))
       else panic buffer_overrun))
  (bind (control_packet i (if input then 0x69 else 0xE1) address low toggle (of_nat count)) (\<lambda>actual.
  if actual < 0 then ret (None, buffer)
  else bind (load_list (uc_control_data c) (nat actual)) (\<lambda>bytes.
  bind ((if input then copy_into buffer received bytes else ret buffer)) (\<lambda>buffer.
  let received = received + nat actual
  in if nat actual < count then ret (if input then Some received else None, buffer)
  else data_stage n i address low packet input len received (toggle XOR 1) buffer))))))"

text \<open>
  The three stages. The request and the data are \<open>None\<close> for null pointers; a null data pointer is
  allowed when the request has no data stage, and then no byte of the buffer is touched. The result
  is the value returned with the buffer's new contents.
\<close>

definition control_stages :: "nat \<Rightarrow> u32 \<Rightarrow> u32 \<Rightarrow> u32 \<Rightarrow> u8 list \<Rightarrow> u8 list \<Rightarrow> ('m usb_host, (int \<times> u8 list)) prog" where
  "control_stages i address low packet setup buffer = bind (get_ctl i) (\<lambda>c.
    let input = setup ! 0 AND 0x80 \<noteq> 0
    in let len = unat (setup ! 6) + 256 * unat (setup ! 7)
    in andthen (store_list (uc_control_data c) (take 8 setup))
    (bind (control_packet i 0x2D address low 0 8) (\<lambda>actual.
    if actual \<noteq> 8 then ret (- 1, buffer)
    else bind (data_stage (len + 1) i address low (unat packet) input len 0 1 buffer) (\<lambda>(moved, buffer).
    case moved of None \<Rightarrow> ret (- 1, buffer)
    | Some received \<Rightarrow> bind (control_packet i (if len \<noteq> 0 \<and> input then 0xE1 else 0x69) address low 1 0) (\<lambda>actual.
      ret (if actual \<noteq> 0 then - 1 else int received, buffer))))))"

definition usb_uhci_control ::
  "u32 \<Rightarrow> u32 \<Rightarrow> u32 \<Rightarrow> u32 \<Rightarrow> u8 list option \<Rightarrow> u8 list option \<Rightarrow> ('m usb_host, (int \<times> u8 list)) prog" where
  "usb_uhci_control ident address low packet setup_ptr data = (let buffer = (case data of None \<Rightarrow> [] | Some bytes \<Rightarrow> bytes)
    in case setup_ptr of None \<Rightarrow> ret (- 1, buffer) | Some setup \<Rightarrow> if ident \<ge> 4 \<or> address > 127 \<or> low > 1 then ret (- 1, buffer)
      else let i = unat ident
      in bind (get_info i) (\<lambda>info.
      if ci_status info \<noteq> UHCI_READY \<or> (packet \<noteq> 8 \<and> packet \<noteq> 16 \<and> packet \<noteq> 32 \<and> packet \<noteq> 64) \<or>
      (low \<noteq> 0 \<and> packet \<noteq> 8) then ret (- 1, buffer)
      else let len = unat (setup ! 6) + 256 * unat (setup ! 7)
      in if len > 4096 \<or> (len \<noteq> 0 \<and> data = None) then ret (- 1, buffer)
      else bind (irq_save) (\<lambda>flags.
      bind (get_ctl i) (\<lambda>c.
      if uc_active c \<noteq> 0 then andthen (irq_restore flags)
      (ret (- 1, buffer))
      else andthen (set_ctl i (\<lambda>c. c\<lparr>uc_last_request := push_bit 24 (ucast (setup ! 0)) OR push_bit 16 (ucast (setup ! 1)) OR
      push_bit 8 (ucast (setup ! 3)) OR ucast (setup ! 2)\<rparr>))
      (let base = ucast (ci_io_base info)
      in andthen (out16 (base + 4) 0)
      (bind (control_stages i address low packet setup buffer) (\<lambda>(result, buffer).
      andthen (set_ctl i (\<lambda>c. c\<lparr>uc_last_control_result := word_of_int result\<rparr>))
      (bind (get_info i) (\<lambda>info.
      andthen (cond (ci_status info = UHCI_READY) (andthen (out16 base USB_RUN)
      (out16 (base + 4) 0x0D)))
      (andthen (irq_restore flags)
      (ret (result, buffer))))))))))))"

section \<open>Starting and reading the stream\<close>

definition stream_frames :: "uhci_controller \<Rightarrow> u32 \<Rightarrow> ('s, unit) prog" where
  "stream_frames c interval = for_each 0 1024 (\<lambda>f. store32 (uc_frames c + 4 * of_nat f)
     ((if of_nat f mod interval \<noteq> 0 then uc_control_qh c else uc_interrupt_qh c) OR 2))"

definition usb_uhci_start_interrupt ::
  "u32 \<Rightarrow> u32 \<Rightarrow> u32 \<Rightarrow> u32 \<Rightarrow> u32 \<Rightarrow> u32 \<Rightarrow> u32 \<Rightarrow> ('m usb_host, u32) prog" where
  "usb_uhci_start_interrupt ident port address endpoint low packet ms = (let interval = uhci_interval ms
    in if ident \<ge> 4 \<or> port > 1 \<or> address < 1 \<or> address > 127 \<or> endpoint < 1 \<or> endpoint > 15 \<or>
      low > 1 \<or> packet = 0 \<or> packet > 64 \<or> (low \<noteq> 0 \<and> packet > 8) \<or> interval = 0 then ret 0
    else let i = unat ident
    in bind (get_info i) (\<lambda>info.
    if ci_status info \<noteq> UHCI_READY then ret 0
    else bind (irq_save) (\<lambda>flags.
    bind (get_ctl i) (\<lambda>c.
    if uc_active c \<noteq> 0 then andthen (irq_restore flags)
      (ret 0)
    else let base = ucast (ci_io_base info) :: u16
    in let reg = base + 0x10 + ucast (port * 2)
    in bind (in16 reg) (\<lambda>v.
    let value = ucast v :: u32
    in if value AND 5 \<noteq> 5 \<or> c_bool (value AND 0x100 \<noteq> 0) \<noteq> low then andthen (irq_restore flags)
      (ret 0)
    else andthen (stop i)
    (andthen (out16 reg (ucast (uhci_port_update value 0 0 OR (value AND 0x080A))))
    (andthen (set_ctl i (\<lambda>c. c\<lparr>uc_address := address, uc_endpoint := endpoint, uc_low_speed := low, uc_packet := packet,
      uc_toggle := 0, uc_port := port, uc_producer := 0, uc_consumer := 0, uc_active := 1\<rparr>))
    (andthen (call_client i REPORT_CONNECTED None 0)
    (andthen (stream_frames c interval)
    (andthen (arm_interrupt i)
    (andthen (out16 (base + 2) 0x1F)
    (andthen (out16 (base + 4) 0x0D)
    (andthen (out16 base USB_RUN)
    (andthen (irq_restore flags)
    (ret 1)))))))))))))))"

definition uhci_dequeue :: "u32 \<Rightarrow> uhci_controller \<times> (u32 \<Rightarrow> u8) \<Rightarrow> (uhci_controller \<times> (u32 \<Rightarrow> u8)) option" where
  "uhci_dequeue report = (\<lambda>(c, m). if uc_consumer c \<noteq> uc_producer c
     then Some (c\<lparr>uc_consumer := uc_consumer c + 1\<rparr>, memcpy m report (report_slot c (uc_consumer c)) 68) else None)"

definition take_report :: "nat \<Rightarrow> u32 \<Rightarrow> ('m usb_host, u32) prog" where
  "take_report i report = (\<lambda>e w. case uhci_dequeue report (uh_ctl (vars w) ! i, mem w) of
     Some (c, m) \<Rightarrow> Done 1 (w\<lparr>mem := m, vars := (vars w)\<lparr>uh_ctl := (uh_ctl (vars w))[i := c]\<rparr>\<rparr>)
   | None \<Rightarrow> Done 0 w)"

definition usb_uhci_read_report :: "u32 \<Rightarrow> u32 \<Rightarrow> ('m usb_host, u32) prog" where
  "usb_uhci_read_report ident report = (if ident \<ge> 4 \<or> report = 0 then ret 0
    else bind (irq_save) (\<lambda>flags.
    bind (take_report (unat ident) report) (\<lambda>result.
    andthen (irq_restore flags)
    (ret result))))"

end
