(* ===== verification/Usb_Safety.thy ===== *)
theory Usb_Safety
  imports Usb_Host
begin

text \<open>
  What every run of the USB host driver keeps, whatever the controllers, the devices and the callers
  do: its arrays keep their sizes and its counters their ranges, its schedule pointers are null or
  point into the controller's own 16 KiB window, nothing is written outside these windows, the
  storage service's area and the caller's report buffer, and with a clock that advances no run is
  left waiting. The three are one invariant, shown for every entry point.
\<close>

section \<open>The invariant\<close>

definition dma_of :: "nat \<Rightarrow> u32" where
  "dma_of i = 0x30060000 + of_nat i * 0x4000"

definition placed :: "nat \<Rightarrow> uhci_controller \<Rightarrow> bool" where
  "placed i c \<longleftrightarrow> uc_frames c = dma_of i \<and> uc_control_qh c = dma_of i + 0x1000 \<and>
     uc_interrupt_qh c = dma_of i + 0x1010 \<and> uc_control_td c = dma_of i + 0x1020 \<and>
     uc_interrupt_td c = dma_of i + 0x1030 \<and> uc_control_data c = dma_of i + 0x2000 \<and>
     uc_interrupt_data c = dma_of i + 0x2100 \<and> uc_queue c = dma_of i + 0x3000"

definition ctl_ok :: "nat \<Rightarrow> uhci_controller \<Rightarrow> bool" where
  "ctl_ok i c \<longleftrightarrow> (uc_frames c = 0 \<or> placed i c) \<and> uc_producer c - uc_consumer c \<le> 16 \<and>
     uc_packet c \<le> 64 \<and> uc_port c \<le> 1 \<and> uc_toggle c \<le> 1"

definition slot_ok :: "'m usb_host \<Rightarrow> nat \<Rightarrow> bool" where
  "slot_ok s i \<longleftrightarrow> ctl_ok i (uh_ctl s ! i) \<and> length (ci_port_status (uh_info s ! i)) = 2 \<and>
     length (uh_port_generation s ! i) = 2 \<and>
     (ci_status (uh_info s ! i) = UHCI_READY \<longrightarrow> placed i (uh_ctl s ! i))"

definition host_ok :: "'m usb_host \<Rightarrow> bool" where
  "host_ok s \<longleftrightarrow> length (uh_info s) = 4 \<and> length (uh_ctl s) = 4 \<and> length (uh_last_td s) = 4 \<and>
     length (uh_port_generation s) = 4 \<and> length (uh_unclaimed_streak s) = 8 \<and> (\<forall>i < 4. slot_ok s i)"

text \<open>The memory the driver and its controllers may write.\<close>

definition usb_owned :: "u32 \<Rightarrow> bool" where
  "usb_owned a \<longleftrightarrow> loader_owned a \<or> 0x30060000 \<le> unat a \<and> unat a < 0x30070000 \<or>
     0x80002350 \<le> unat a \<and> unat a < 0x80002358"

definition window :: "env \<Rightarrow> u32 set \<Rightarrow> (u32 \<Rightarrow> u8) \<Rightarrow> 's world \<Rightarrow> bool" where
  "window e R m w \<longleftrightarrow> ((\<forall>h a. env_dma e h a \<noteq> None \<longrightarrow> usb_owned a) \<longrightarrow>
     (\<forall>a. a \<notin> R \<longrightarrow> \<not> usb_owned a \<longrightarrow> mem w a = m a))"

definition ticks_ok :: "env \<Rightarrow> 'm usb_host world \<Rightarrow> bool" where
  "ticks_ok e w \<longleftrightarrow> (steady_clock e \<longrightarrow> calibrated_by uh_ticks_per_ms w)"

text \<open>
  The invariant of every run, and what a run that returns keeps in addition: the storage service's
  calibration, and the placement of the schedule of a controller that has been entered.
\<close>

definition usb_sound :: "env \<Rightarrow> u32 set \<Rightarrow> (u32 \<Rightarrow> u8) \<Rightarrow> 'm usb_host world \<Rightarrow> bool" where
  "usb_sound e R m w \<longleftrightarrow> host_ok (vars w) \<and> window e R m w"

definition usb_safe :: "env \<Rightarrow> u32 set \<Rightarrow> (u32 \<Rightarrow> u8) \<Rightarrow> nat option \<Rightarrow> 'm usb_host world \<Rightarrow> bool" where
  "usb_safe e R m x w \<longleftrightarrow> usb_sound e R m w \<and>
     (steady_clock e \<longrightarrow> unat (bv_ticks_per_ms (uh_storage (vars w))) \<le> 4000000) \<and>
     (\<forall>i. x = Some i \<longrightarrow> placed i (uh_ctl (vars w) ! i))"

abbreviation (input) usb_keeps ::
  "env \<Rightarrow> u32 set \<Rightarrow> (u32 \<Rightarrow> u8) \<Rightarrow> nat option \<Rightarrow> ('m usb_host, 'r) prog \<Rightarrow> bool" where
  "usb_keeps e R m x p \<equiv> keeps e (\<lambda>w. usb_safe e R m x w \<and> ticks_ok e w) (usb_sound e R m)
     (\<lambda>w. usb_sound e R m w \<and> \<not> steady_clock e) p"

section \<open>Programs that keep it\<close>

lemma window_pure: "mem w' = mem w \<Longrightarrow> window e R m w \<Longrightarrow> window e R m w'"
  by (simp add: window_def)

lemma window_dma: "window e R m w \<Longrightarrow> window e R m (final (dma_sync e w))"
  unfolding window_def dma_sync_def by (auto split: option.split)

lemma usb_direct:
  assumes "\<And>w. \<exists>r w'. p e w = Done r w' \<and> vars w' = vars w \<and> (window e R m w \<longrightarrow> window e R m w')"
  shows "usb_keeps e R m x p"
  unfolding keeps_def
proof (intro allI impI)
  fix w
  obtain r w' where "p e w = Done r w'" "vars w' = vars w" "window e R m w \<longrightarrow> window e R m w'"
    using assms by blast
  moreover assume "usb_safe e R m x w \<and> ticks_ok e w"
  ultimately show "case p e w of Done r w' \<Rightarrow> usb_safe e R m x w' \<and> ticks_ok e w'
    | Panicked msg w' \<Rightarrow> usb_sound e R m w' | Unfinished w' \<Rightarrow> usb_sound e R m w' \<and> \<not> steady_clock e"
    by (auto simp: usb_safe_def usb_sound_def ticks_ok_def calibrated_by_def)
qed

lemma usb_prims:
  "usb_keeps e R m x (in16 p)" "usb_keeps e R m x (in32 p)" "usb_keeps e R m x (out16 p h)"
  "usb_keeps e R m x (out32 p v)" "usb_keeps e R m x tsc" "usb_keeps e R m x (mmio_read a)"
  "usb_keeps e R m x (mmio_write a v)" "usb_keeps e R m x fence" "usb_keeps e R m x irq_save"
  "usb_keeps e R m x (irq_restore b)" "usb_keeps e R m x (kernel_call fn args)"
  by (rule usb_direct, simp add: prog_simps window_pure)+

lemma usb_dma_load32: "usb_keeps e R m x (dma_load32 a)"
proof (rule usb_direct)
  fix w :: "'a usb_host world"
  show "\<exists>r w'. dma_load32 a e w = Done r w' \<and> vars w' = vars w \<and> (window e R m w \<longrightarrow> window e R m w')"
    using window_dma [of e R m w] by (simp add: dma_load32_def dma_sync_def load32_def run_andthen)
qed

lemma usb_panic: "usb_keeps e R m x (panic msg)"
  by (rule keeps_panic) (auto simp: usb_safe_def usb_sound_def)

text \<open>Memory: a write inside the window of a controller.\<close>

lemma usb_mem:
  assumes "\<And>f a. a \<notin> R \<Longrightarrow> \<not> usb_owned a \<Longrightarrow> g f a = f a"
  shows "usb_keeps e R m x (mem_apply g)"
  by (rule usb_direct) (simp add: mem_apply_def window_def assms)

definition slab :: "u32 \<Rightarrow> nat \<Rightarrow> bool" where
  "slab a n \<longleftrightarrow> 0x30060000 \<le> unat a \<and> unat a + n \<le> 0x30070000"

lemma store_list_apply: "store_list a bs = mem_apply (mem_store_list a bs)"
  by (simp add: store_list_def mem_apply_def)

lemma usb_store_list:
  assumes "slab a (length bs)"
  shows "usb_keeps e R m x (store_list a bs)"
  unfolding store_list_apply
proof (rule usb_mem)
  fix f b
  assume "\<not> usb_owned b"
  then have "unat b < unat a \<or> unat a + length bs \<le> unat b" using assms by (auto simp: usb_owned_def slab_def)
  then show "mem_store_list a bs f b = f b" using assms by (intro mem_store_list_outside) (simp_all add: slab_def)
qed

lemma usb_store32: "slab a 4 \<Longrightarrow> usb_keeps e R m x (store32 a v)"
  unfolding store32_list by (rule usb_store_list) (simp add: eval_nat_numeral)

text \<open>Safety and termination of a wait, shown apart, are one invariant.\<close>

lemma keeps_both:
  assumes "keeps e I I I p" "keeps e C (\<lambda>_. True) N p" "\<And>w. I w \<Longrightarrow> K w"
  shows "keeps e (\<lambda>w. I w \<and> C w) K (\<lambda>w. K w \<and> N w) p"
  unfolding keeps_def
proof (intro allI impI)
  fix w
  assume w: "I w \<and> C w"
  have "I (final (p e w))" using keepsD [OF assms(1)] w by blast
  moreover have "case p e w of Done x w' \<Rightarrow> C w' | Panicked msg w' \<Rightarrow> True | Unfinished w' \<Rightarrow> N w'"
    using assms(2) w by (simp add: keeps_def)
  ultimately show "case p e w of Done x w' \<Rightarrow> I w' \<and> C w' | Panicked msg w' \<Rightarrow> K w' | Unfinished w' \<Rightarrow> K w' \<and> N w'"
    using assms(3) by (cases "p e w") auto
qed

lemma usb_keeps_both:
  assumes "keeps e (usb_safe e R m x) (usb_safe e R m x) (usb_safe e R m x) p" "finishes_by uh_ticks_per_ms e p"
  shows "usb_keeps e R m x p"
  unfolding ticks_ok_def
  by (rule keeps_both [OF assms]) (simp add: usb_safe_def usb_sound_def)

lemma safe_direct:
  fixes p :: "('m usb_host, 'r) prog"
  assumes "\<And>w. \<exists>r w'. p e w = Done r w' \<and> vars w' = vars w \<and> (window e R m w \<longrightarrow> window e R m w')"
  shows "keeps e (usb_safe e R m x) (usb_safe e R m x) (usb_safe e R m x) p"
proof (rule keepsI)
  fix w :: "'m usb_host world"
  assume w: "usb_safe e R m x w"
  obtain r w' where "p e w = Done r w'" "vars w' = vars w" "window e R m w \<longrightarrow> window e R m w'"
    using assms by blast
  then show "usb_safe e R m x (final (p e w))" using w by (simp add: usb_safe_def usb_sound_def)
qed

lemma usb_delay_keeps:
  assumes "unat ms \<le> 1000"
  shows "usb_keeps e R m x (usb_delay ms)"
  unfolding usb_delay_def
proof (rule usb_keeps_both)
  show "keeps e (usb_safe e R m x) (usb_safe e R m x) (usb_safe e R m x) (delay_by uh_ticks_per_ms ms)"
    by (rule delay_by_keeps, rule safe_direct) (simp add: run_tsc window_pure)
qed (rule delay_by_finishes [OF assms])

lemma usb_timed_keeps:
  fixes body :: "('m usb_host, 'r option) prog"
  assumes "short body" "\<And>w. \<exists>r w'. body e w = Done r w' \<and> vars w' = vars w \<and> (window e R m w \<longrightarrow> window e R m w')"
  shows "usb_keeps e R m x (timed_by uh_ticks_per_ms body)"
proof (rule usb_keeps_both)
  show "keeps e (usb_safe e R m x) (usb_safe e R m x) (usb_safe e R m x) (timed_by uh_ticks_per_ms body)"
    by (rule timed_by_keeps; rule safe_direct) (simp_all add: run_tsc window_pure assms(2))
  have "\<exists>r w'. body e w = Done r w' \<and> uh_ticks_per_ms (vars w') = uh_ticks_per_ms (vars w)" for w
    using assms(2) [of w] by (elim exE conjE) simp
  then show "finishes_by uh_ticks_per_ms e (timed_by uh_ticks_per_ms body)"
    by (intro timed_by_finishes assms(1) finishes_by_direct)
qed

lemma wait_io_keeps: "usb_keeps e R m x (wait_io p k v)"
  unfolding wait_io_def
  by (rule keeps_bind, rule usb_timed_keeps, rule shortI) (simp_all add: prog_simps window_pure keeps_ret)

lemma stop_keeps: "usb_keeps e R m x (stop i)"
  unfolding stop_def get_info_def Let_def by (intro keeps_intros usb_prims wait_io_keeps usb_panic)

section \<open>State changes\<close>

lemma usb_modify:
  fixes f :: "'m usb_host \<Rightarrow> 'm usb_host"
  assumes "\<And>s. host_ok s \<Longrightarrow> (\<forall>i. x = Some i \<longrightarrow> placed i (uh_ctl s ! i)) \<Longrightarrow>
      host_ok (f s) \<and> (\<forall>i. x = Some i \<longrightarrow> placed i (uh_ctl (f s) ! i))"
    and "\<And>s. uh_storage (f s) = uh_storage s" "\<And>s. uh_ticks_per_ms (f s) = uh_ticks_per_ms s"
  shows "usb_keeps e R m x (modify f)"
  unfolding keeps_def run_modify
proof (intro allI impI)
  fix w :: "'m usb_host world"
  assume w: "usb_safe e R m x w \<and> ticks_ok e w"
  have "host_ok (f (vars w)) \<and> (\<forall>i. x = Some i \<longrightarrow> placed i (uh_ctl (f (vars w)) ! i))"
    using w assms(1) [of "vars w"] by (simp add: usb_safe_def usb_sound_def)
  then have "usb_safe e R m x (w\<lparr>vars := f (vars w)\<rparr>)"
    using w by (simp add: usb_safe_def usb_sound_def window_def assms(2))
  moreover have "ticks_ok e (w\<lparr>vars := f (vars w)\<rparr>)"
    using w by (simp add: ticks_ok_def calibrated_by_def assms(3))
  ultimately show "case Done () (w\<lparr>vars := f (vars w)\<rparr>) of Done r w' \<Rightarrow> usb_safe e R m x w' \<and> ticks_ok e w'
    | Panicked msg w' \<Rightarrow> usb_sound e R m w' | Unfinished w' \<Rightarrow> usb_sound e R m w' \<and> \<not> steady_clock e"
    by simp
qed

lemma usb_plain:
  fixes f :: "'m usb_host \<Rightarrow> 'm usb_host"
  assumes "\<And>s. uh_info (f s) = uh_info s" "\<And>s. uh_ctl (f s) = uh_ctl s"
    "\<And>s. uh_storage (f s) = uh_storage s" "\<And>s. uh_ticks_per_ms (f s) = uh_ticks_per_ms s"
    "\<And>s. length (uh_last_td (f s)) = length (uh_last_td s)"
    "\<And>s. length (uh_unclaimed_streak (f s)) = length (uh_unclaimed_streak s)"
    "\<And>s. map length (uh_port_generation (f s)) = map length (uh_port_generation s)"
  shows "usb_keeps e R m x (modify f)"
proof (rule usb_modify)
  fix s :: "'m usb_host"
  assume s: "host_ok s" "\<forall>i. x = Some i \<longrightarrow> placed i (uh_ctl s ! i)"
  have len: "length (uh_port_generation (f s)) = length (uh_port_generation s)"
    using assms(7) [of s] by (metis length_map)
  have "length (uh_port_generation (f s) ! i) = length (uh_port_generation s ! i)" if "i < 4" for i
    using arg_cong [OF assms(7) [of s], of "\<lambda>l. l ! i"] s(1) that len by (simp add: host_ok_def)
  then show "host_ok (f s) \<and> (\<forall>i. x = Some i \<longrightarrow> placed i (uh_ctl (f s) ! i))"
    using s len by (simp add: host_ok_def slot_ok_def assms(1,2,5,6))
qed (rule assms(3,4))+

lemma call_client_keeps: "usb_keeps e R m x (call_client i ev data len)"
  unfolding call_client_def by (rule usb_plain) (simp_all split: option.split)

lemma set_info_keeps:
  assumes "i < 4" "\<And>c. length (ci_port_status c) = 2 \<Longrightarrow> length (ci_port_status (f c)) = 2"
    "\<And>c. ci_status (f c) = UHCI_READY \<Longrightarrow> ci_status c = UHCI_READY \<or> x = Some i"
  shows "usb_keeps e R m x (set_info i f)"
  unfolding set_info_def
proof (rule usb_modify)
  fix s :: "'a usb_host"
  assume s: "host_ok s" "\<forall>i. x = Some i \<longrightarrow> placed i (uh_ctl s ! i)"
  let ?s = "s\<lparr>uh_info := (uh_info s)[i := f (uh_info s ! i)]\<rparr>"
  have i: "slot_ok s i" using s(1) assms(1) by (simp add: host_ok_def)
  have "placed i (uh_ctl s ! i)" if "ci_status (f (uh_info s ! i)) = UHCI_READY"
    using assms(3) [OF that] s(2) i by (auto simp: slot_ok_def)
  then have "slot_ok ?s j" if "j < 4" for j
    using s(1) that i assms(2) by (cases "j = i") (simp_all add: host_ok_def slot_ok_def)
  then show "host_ok ?s \<and> (\<forall>i. x = Some i \<longrightarrow> placed i (uh_ctl ?s ! i))"
    using s by (simp add: host_ok_def)
qed simp_all

lemma host_ok_ctl:
  assumes "host_ok s" "i < 4" "ctl_ok i c" "placed i (uh_ctl s ! i) \<Longrightarrow> placed i c"
  shows "host_ok (s\<lparr>uh_ctl := (uh_ctl s)[i := c]\<rparr>)"
proof -
  have "slot_ok (s\<lparr>uh_ctl := (uh_ctl s)[i := c]\<rparr>) j" if "j < 4" for j
    using assms that by (cases "j = i") (simp_all add: host_ok_def slot_ok_def)
  then show ?thesis using assms(1) by (simp add: host_ok_def)
qed

lemma set_ctl_keeps:
  assumes "i < 4" "\<And>c. ctl_ok i c \<Longrightarrow> ctl_ok i (f c)" "\<And>c. placed i c \<Longrightarrow> placed i (f c)"
  shows "usb_keeps e R m x (set_ctl i f)"
  unfolding set_ctl_def
proof (rule usb_modify)
  fix s :: "'a usb_host"
  assume s: "host_ok s" "\<forall>i. x = Some i \<longrightarrow> placed i (uh_ctl s ! i)"
  have i: "ctl_ok i (uh_ctl s ! i)" "i < length (uh_ctl s)" using s(1) assms(1) by (auto simp: host_ok_def slot_ok_def)
  have "placed j ((uh_ctl s)[i := f (uh_ctl s ! i)] ! j)" if "x = Some j" for j
    using s(2) that i(2) assms(3) by (cases "j = i") auto
  then show "host_ok (s\<lparr>uh_ctl := (uh_ctl s)[i := f (uh_ctl s ! i)]\<rparr>) \<and>
      (\<forall>j. x = Some j \<longrightarrow> placed j (uh_ctl (s\<lparr>uh_ctl := (uh_ctl s)[i := f (uh_ctl s ! i)]\<rparr>) ! j))"
    using host_ok_ctl [OF s(1) assms(1) assms(2) [OF i(1)]] assms(3) by simp
qed simp_all

section \<open>Entering a controller\<close>

lemma usb_weaken:
  fixes g :: "'m usb_host \<Rightarrow> 'v" and f :: "'v \<Rightarrow> ('m usb_host, 'r) prog"
  assumes "\<And>w. usb_safe e R m None w \<Longrightarrow> P (g (vars w)) \<Longrightarrow> usb_safe e R m x w"
    and "\<And>v. P v \<Longrightarrow> usb_keeps e R m x (f v)" "\<And>v. \<not> P v \<Longrightarrow> usb_keeps e R m None (f v)"
  shows "usb_keeps e R m None (bind (gets g) f)"
  unfolding keeps_def
proof (intro allI impI)
  fix w :: "'m usb_host world"
  assume w: "usb_safe e R m None w \<and> ticks_ok e w"
  define v where "v = g (vars w)"
  have run: "bind (gets g) f e w = f v e w" by (simp add: run_bind run_gets v_def)
  show "case bind (gets g) f e w of Done r w' \<Rightarrow> usb_safe e R m None w' \<and> ticks_ok e w'
    | Panicked msg w' \<Rightarrow> usb_sound e R m w' | Unfinished w' \<Rightarrow> usb_sound e R m w' \<and> \<not> steady_clock e"
  proof (cases "P v")
    case True
    then have "usb_safe e R m x w" using assms(1) w by (simp add: v_def)
    then have "case f v e w of Done r w' \<Rightarrow> usb_safe e R m x w' \<and> ticks_ok e w'
      | Panicked msg w' \<Rightarrow> usb_sound e R m w' | Unfinished w' \<Rightarrow> usb_sound e R m w' \<and> \<not> steady_clock e"
      using assms(2) [OF True] w by (simp add: keeps_def)
    then show ?thesis unfolding run by (cases "f v e w") (simp_all add: usb_safe_def usb_sound_def)
  next
    case False
    then show ?thesis unfolding run using assms(3) w by (simp add: keeps_def)
  qed
qed

lemma enter_ready:
  assumes "i < 4" "\<And>info. ci_status info = UHCI_READY \<Longrightarrow> usb_keeps e R m (Some i) (f info)"
    "\<And>info. ci_status info \<noteq> UHCI_READY \<Longrightarrow> usb_keeps e R m None (f info)"
  shows "usb_keeps e R m None (bind (get_info i) f)"
  unfolding get_info_def
proof (rule usb_weaken [where P = "\<lambda>info. ci_status info = UHCI_READY" and x = "Some i"])
  show "usb_safe e R m (Some i) w" if "usb_safe e R m None w" "ci_status (uh_info (vars w) ! i) = UHCI_READY"
    for w :: "'a usb_host world"
    using that assms(1) by (auto simp: usb_safe_def usb_sound_def host_ok_def slot_ok_def)
qed (rule assms(2,3); assumption)+

lemma enter_frames:
  assumes "i < 4" "\<And>c. uc_frames c \<noteq> 0 \<Longrightarrow> usb_keeps e R m (Some i) (f c)"
    "\<And>c. uc_frames c = 0 \<Longrightarrow> usb_keeps e R m None (f c)"
  shows "usb_keeps e R m None (bind (get_ctl i) f)"
  unfolding get_ctl_def
proof (rule usb_weaken [where P = "\<lambda>c. uc_frames c \<noteq> 0" and x = "Some i"])
  show "usb_safe e R m (Some i) w" if "usb_safe e R m None w" "uc_frames (uh_ctl (vars w) ! i) \<noteq> 0"
    for w :: "'a usb_host world"
    using that assms(1) by (auto simp: usb_safe_def usb_sound_def host_ok_def slot_ok_def ctl_ok_def)
qed (simp_all add: assms(2,3))

lemma with_ctl:
  assumes "i < 4" "\<And>c. placed i c \<Longrightarrow> ctl_ok i c \<Longrightarrow> usb_keeps e R m (Some i) (f c)"
  shows "usb_keeps e R m (Some i) (bind (get_ctl i) f)"
  unfolding get_ctl_def
proof (rule keeps_bind_gets)
  fix w :: "'a usb_host world"
  assume "usb_safe e R m (Some i) w \<and> ticks_ok e w"
  then show "usb_keeps e R m (Some i) (f (uh_ctl (vars w) ! i))"
    using assms by (auto simp: usb_safe_def usb_sound_def host_ok_def slot_ok_def)
qed

lemma get_info_keeps: "usb_keeps e R m x (get_info i)"
  unfolding get_info_def by (rule keeps_gets)

section \<open>Memory of a controller\<close>

lemma unat_dma: "i < 4 \<Longrightarrow> unat (dma_of i) = 0x30060000 + i * 0x4000"
  by (simp add: dma_of_def unat_word_ariths unat_of_nat)

lemma slab_dma:
  assumes "i < 4" "unat k + n \<le> 0x4000"
  shows "slab (dma_of i + k) n"
proof -
  have "unat (dma_of i + k) = unat (dma_of i) + unat k"
    using assms by (subst unat_plus_if') (simp add: unat_dma)
  then show ?thesis using assms by (simp add: slab_def unat_dma)
qed

lemma slab_dma_0: "i < 4 \<Longrightarrow> n \<le> 0x4000 \<Longrightarrow> slab (dma_of i) n"
  using slab_dma [of i 0 n] by simp

lemma slab_parts:
  assumes "i < 4" "placed i c"
  shows "slab (uc_control_qh c) 4" "slab (uc_control_qh c + 4) 4" "slab (uc_interrupt_qh c) 4"
    "slab (uc_interrupt_qh c + 4) 4" "slab (uc_control_td c) 4" "slab (uc_control_td c + 4) 4"
    "slab (uc_control_td c + 8) 4" "slab (uc_control_td c + 12) 4" "slab (uc_interrupt_td c) 4"
    "slab (uc_interrupt_td c + 4) 4" "slab (uc_interrupt_td c + 8) 4" "slab (uc_interrupt_td c + 12) 4"
    "n \<le> 64 \<Longrightarrow> slab (uc_control_data c) n" "f < 1024 \<Longrightarrow> slab (uc_frames c + 4 * of_nat f) 4"
proof -
  show "slab (uc_frames c + 4 * of_nat f) 4" if "f < 1024"
    unfolding assms(2) [unfolded placed_def, THEN conjunct1]
    by (rule slab_dma [OF assms(1)]) (use that in \<open>simp add: unat_word_ariths unat_of_nat\<close>)
qed (use assms(2) in \<open>simp_all add: placed_def add.assoc slab_dma [OF assms(1)]\<close>)

lemma memset_outside: "\<not> a - d < n \<Longrightarrow> memset m d v n a = m a"
  by (simp add: memset_eq)

lemma memcpy_outside: "\<not> a - d < n \<Longrightarrow> memcpy m d src n a = m a"
  unfolding memcpy_def by (rule copy_forward_outside) simp

lemma slab_range:
  assumes "slab d (unat n)" "\<not> usb_owned a"
  shows "\<not> a - d < n"
proof
  assume "a - d < n"
  then have "unat d \<le> unat a \<and> unat a < unat d + unat n"
    using assms(1) image_range [of a d n] by (simp add: image_at_def slab_def)
  then show False using assms by (simp add: slab_def usb_owned_def)
qed

lemma idle_frames_keeps: "i < 4 \<Longrightarrow> placed i c \<Longrightarrow> usb_keeps e R m x (idle_frames c)"
  unfolding idle_frames_def by (intro keeps_for_each usb_store32 slab_parts) simp_all

lemma stream_frames_keeps: "i < 4 \<Longrightarrow> placed i c \<Longrightarrow> usb_keeps e R m x (stream_frames c interval)"
  unfolding stream_frames_def by (intro keeps_for_each usb_store32 slab_parts) simp_all

lemma arm_interrupt_keeps: "i < 4 \<Longrightarrow> usb_keeps e R m (Some i) (arm_interrupt i)"
  unfolding arm_interrupt_def
  by (rule with_ctl, assumption) (intro keeps_intros usb_prims usb_store32 slab_parts; assumption)

section \<open>The report stream\<close>

lemma mem_store32_outside:
  assumes "slab d 4" "\<not> usb_owned a"
  shows "mem_store32 d v f a = f a"
proof -
  have "store32 d v null_env (start_world ()\<lparr>mem := f\<rparr>) =
    store_list d [ucast v, ucast (drop_bit 8 v), ucast (drop_bit 16 v), ucast (drop_bit 24 v)] null_env (start_world ()\<lparr>mem := f\<rparr>)"
    by (simp only: store32_list)
  then have eq: "mem_store32 d v f = mem_store_list d [ucast v, ucast (drop_bit 8 v), ucast (drop_bit 16 v), ucast (drop_bit 24 v)] f"
    by (simp add: store32_def store_list_def start_world_def del: mem_store_list.simps)
  have "unat a < unat d \<or> unat d + 4 \<le> unat a" using assms by (auto simp: slab_def usb_owned_def)
  then show ?thesis unfolding eq using assms(1) by (intro mem_store_list_outside) (auto simp: slab_def)
qed

lemma slab_report:
  assumes "i < 4" "placed i c"
  shows "slab (report_slot c n) 4" "k \<le> 64 \<Longrightarrow> slab (report_slot c n + 4) k" "slab (report_slot c n) 68"
proof -
  have n: "unat (n AND 15) \<le> 15" using word_and_le1 [of n 15] by (simp add: word_le_nat_alt)
  then have k: "unat (0x3000 + 68 * (n AND 15)) = 0x3000 + 68 * unat (n AND 15)" by (simp add: unat_word_ariths)
  then have k4: "unat (0x3004 + 68 * (n AND 15)) = 0x3004 + 68 * unat (n AND 15)" using n by (simp add: unat_word_ariths)
  have slot: "report_slot c n = dma_of i + (0x3000 + 68 * (n AND 15))"
    "report_slot c n + 4 = dma_of i + (0x3004 + 68 * (n AND 15))"
    using assms(2) by (simp_all add: report_slot_def placed_def)
  show "slab (report_slot c n) 4" "slab (report_slot c n) 68"
    unfolding slot(1) by (rule slab_dma [OF assms(1)], use n k in simp)+
  show "slab (report_slot c n + 4) k" if "k \<le> 64"
    unfolding slot(2) by (rule slab_dma [OF assms(1)]) (use n k4 that in simp)
qed

lemma report_copy_outside:
  assumes "i < 4" "placed i c" "unat len \<le> 64" "\<not> usb_owned a"
  shows "report_copy c len f a = f a"
proof -
  let ?s = "report_slot c (uc_producer c)"
  have "\<not> a - (?s + 4) < len" "\<not> a - (?s + 4) < 64"
    using slab_range [OF slab_report(2) [OF assms(1,2)] assms(4)] assms(3) by simp_all
  then show ?thesis
    using mem_store32_outside [OF slab_report(1) [OF assms(1,2)] assms(4)]
    by (simp add: report_copy_def Let_def memcpy_outside memset_outside)
qed

lemma ctl_ok_produce:
  assumes "ctl_ok i c" "uc_producer c - uc_consumer c < 16"
  shows "ctl_ok i (c\<lparr>uc_producer := uc_producer c + 1\<rparr>)" "placed i c \<Longrightarrow> placed i (c\<lparr>uc_producer := uc_producer c + 1\<rparr>)"
proof -
  define d where "d = uc_producer c - uc_consumer c"
  have "uc_producer c + 1 - uc_consumer c = d + 1" by (simp add: d_def)
  moreover have "unat d < 16" using assms(2) by (simp add: word_less_nat_alt d_def)
  then have "d + 1 \<le> 16" by (simp add: word_le_nat_alt unat_word_ariths)
  ultimately have "uc_producer c + 1 - uc_consumer c \<le> 16" by (simp only:)
  then show "ctl_ok i (c\<lparr>uc_producer := uc_producer c + 1\<rparr>)" "placed i c \<Longrightarrow> placed i (c\<lparr>uc_producer := uc_producer c + 1\<rparr>)"
    using assms(1) by (auto simp: ctl_ok_def placed_def)
qed

lemma store_report_keeps:
  assumes "i < 4" "unat len \<le> 64"
  shows "usb_keeps e R m (Some i) (store_report i len)"
  unfolding keeps_def
proof (intro allI impI)
  fix w :: "'a usb_host world"
  assume w: "usb_safe e R m (Some i) w \<and> ticks_ok e w"
  let ?c = "uh_ctl (vars w) ! i"
  have c: "ctl_ok i ?c" "placed i ?c" "host_ok (vars w)" "length (uh_ctl (vars w)) = 4"
    using w assms(1) by (auto simp: usb_safe_def usb_sound_def host_ok_def slot_ok_def)
  show "case store_report i len e w of Done r w' \<Rightarrow> usb_safe e R m (Some i) w' \<and> ticks_ok e w'
    | Panicked msg w' \<Rightarrow> usb_sound e R m w' | Unfinished w' \<Rightarrow> usb_sound e R m w' \<and> \<not> steady_clock e"
  proof (cases "uc_producer ?c - uc_consumer ?c < 16")
    case True
    let ?d = "?c\<lparr>uc_producer := uc_producer ?c + 1\<rparr>"
    note ok = ctl_ok_produce [OF c(1) True]
    have "host_ok ((vars w)\<lparr>uh_ctl := (uh_ctl (vars w))[i := ?d]\<rparr>)"
      by (rule host_ok_ctl [OF c(3) assms(1) ok(1)]) (rule ok(2))
    moreover have "window e R m (w\<lparr>mem := report_copy ?c len (mem w), vars := v\<rparr>)" for v
      using w report_copy_outside [OF assms(1) c(2) assms(2)] by (simp add: usb_safe_def usb_sound_def window_def)
    ultimately show ?thesis
      using w True c(2,4) assms(1) ok(2) [OF c(2)]
      by (simp add: store_report_def uhci_enqueue_def usb_safe_def usb_sound_def ticks_ok_def calibrated_by_def)
  next
    case False
    have "usb_keeps e R m (Some i) (set_info i (\<lambda>f. f\<lparr>ci_dropped := ci_dropped f + 1\<rparr>) :: ('a usb_host, unit) prog)"
      by (rule set_info_keeps [OF assms(1)]) simp_all
    then show ?thesis using w False by (simp add: keeps_def store_report_def uhci_enqueue_def)
  qed
qed

lemma keeps_cong: "(\<And>w. I w \<Longrightarrow> p e w = q e w) \<Longrightarrow> keeps e I K J q \<Longrightarrow> keeps e I K J p"
  by (simp add: keeps_def)

lemma completed_length_bound: "uhci_completed_length td n \<le> uint n"
proof -
  have "uint a \<le> uint n" if "a \<le> n" for a :: u32 using that by (simp add: word_le_def)
  moreover have "- 1 \<le> uint n" "- 2 \<le> uint n" using uint_ge_0 [of n] by linarith+
  ultimately show ?thesis by (simp add: uhci_completed_length_def Let_def)
qed

lemma host_pci_keeps: "usb_keeps e R m x (pci_read d r)" "usb_keeps e R m x (pci_write16 d r h)"
  unfolding pci_read_def pci_write16_def by (intro keeps_intros usb_prims)+

lemma ioapic_keeps: "usb_keeps e R m x (ioapic_read r)" "usb_keeps e R m x (ioapic_write r v)"
  unfolding ioapic_read_def ioapic_write_def by (intro keeps_intros usb_prims)+

lemmas usb_steps = keeps_intros usb_prims usb_dma_load32 usb_panic stop_keeps wait_io_keeps call_client_keeps
  host_pci_keeps ioapic_keeps get_info_keeps

lemma deactivate: "i < 4 \<Longrightarrow> usb_keeps e R m x (set_ctl i (\<lambda>c. c\<lparr>uc_active := 0\<rparr>))"
  by (rule set_ctl_keeps) (auto simp: ctl_ok_def placed_def)

lemma service_halt_keeps: "i < 4 \<Longrightarrow> usb_keeps e R m x (service_halt i base)"
  unfolding service_halt_def by (intro usb_steps deactivate set_info_keeps) simp_all

text \<open>What \<^verbatim>\<open>service_report\<close> does once the status is not \<^verbatim>\<open>UHCI_READY\<close>.\<close>

definition service_lost :: "nat \<Rightarrow> uhci_controller \<Rightarrow> ('m usb_host, u32) prog" where
  "service_lost i c = andthen (store32 (uc_interrupt_qh c + 4) 1) (andthen (set_ctl i (\<lambda>c. c\<lparr>uc_active := 0\<rparr>))
     (andthen (call_client i REPORT_DISCONNECTED None 0) (ret 1)))"

lemma service_lost_keeps: "i < 4 \<Longrightarrow> placed i c \<Longrightarrow> usb_keeps e R m x (service_lost i c)"
  unfolding service_lost_def by (intro usb_steps usb_store32 slab_parts deactivate; assumption)

lemma service_lost_run:
  assumes "i < length (uh_info (vars w))" "status \<noteq> UHCI_READY"
  shows "andthen (set_info i (\<lambda>f. f\<lparr>ci_status := status\<rparr>)) (service_report i c from_irq td) e w =
    andthen (set_info i (\<lambda>f. f\<lparr>ci_status := status\<rparr>)) (service_lost i c) e w"
  using assms
  by (simp add: service_report_def service_lost_def set_info_def get_info_def run_andthen run_bind run_modify
      run_gets store32_def)

lemma service_lose_keeps:
  assumes "i < 4" "placed i c" "status \<noteq> UHCI_READY"
  shows "usb_keeps e R m x (andthen (set_info i (\<lambda>f. f\<lparr>ci_status := status\<rparr>)) (service_report i c from_irq td))"
proof (rule keeps_cong)
  show "usb_keeps e R m x (andthen (set_info i (\<lambda>f. f\<lparr>ci_status := status\<rparr>)) (service_lost i c) :: ('a usb_host, u32) prog)"
    using assms by (intro keeps_andthen set_info_keeps service_lost_keeps) simp_all
qed (rule service_lost_run, use assms in \<open>simp_all add: usb_safe_def usb_sound_def host_ok_def\<close>)

lemma flip_keeps: "i < 4 \<Longrightarrow> usb_keeps e R m x (set_ctl i (\<lambda>c. c\<lparr>uc_toggle := uc_toggle c XOR 1\<rparr>))"
proof (rule set_ctl_keeps)
  have "t = 0 \<or> t = 1" if "t \<le> 1" for t :: u32 using that by (auto simp: word_le_nat_alt word_unat_eq_iff)
  then show "ctl_ok i (c\<lparr>uc_toggle := uc_toggle c XOR 1\<rparr>)" if "ctl_ok i c" for c
    using that by (fastforce simp: ctl_ok_def placed_def)
qed (simp_all add: placed_def)

lemma service_report_keeps:
  assumes "i < 4" "placed i c" "0 \<le> uhci_completed_length td (uc_packet c)" "uc_packet c \<le> 64"
  shows "usb_keeps e R m (Some i) (service_report i c from_irq td)"
proof -
  have "uhci_completed_length td (uc_packet c) \<le> 64"
    using completed_length_bound [of td "uc_packet c"] assms(4) by (simp add: word_le_def)
  then have len: "unat (word_of_int (uhci_completed_length td (uc_packet c)) :: u32) \<le> 64"
    using assms(3) by (simp add: unat_eq_nat_uint uint_word_of_int)
  have drop: "usb_keeps e R m (Some i) (set_info i (\<lambda>f. f\<lparr>ci_reports := ci_reports f + 1\<rparr>) :: ('a usb_host, unit) prog)"
    using assms(1) by (rule set_info_keeps) simp_all
  show ?thesis
    unfolding service_report_def Let_def using assms(1,2) len
    by (intro usb_steps usb_store32 slab_parts deactivate drop store_report_keeps flip_keeps arm_interrupt_keeps usb_plain) simp_all
qed

lemma service_stream_keeps:
  assumes "i < 4"
  shows "usb_keeps e R m (Some i) (service_stream i from_irq status)"
  unfolding service_stream_def
proof (rule keeps_bind [OF get_info_keeps], rule with_ctl [OF assms])
  fix info c
  assume c: "placed i c" "ctl_ok i c"
  then have p: "uc_packet c \<le> 64" by (simp add: ctl_ok_def)
  have set: "usb_keeps e R m (Some i) (set_info i (\<lambda>f. f\<lparr>ci_port_status := (ci_port_status f)[unat (uc_port c) := v]\<rparr>) :: ('a usb_host, unit) prog)" for v
    using assms by (rule set_info_keeps) simp_all
  show "usb_keeps e R m (Some i) ((if uc_active c = 0 then ret (c_bool (status AND 0x1F \<noteq> 0))
    else bind (in16 (ucast (ci_io_base info) + 0x10 + ucast (uc_port c * 2))) (\<lambda>p.
    let port = ucast p :: u32
    in andthen (set_info i (\<lambda>f. f\<lparr>ci_port_status := (ci_port_status f)[unat (uc_port c) := port]\<rparr>))
    (bind (dma_load32 (uc_interrupt_td c + 4)) (\<lambda>td.
    andthen (modify (\<lambda>s. s\<lparr>uh_last_td := (uh_last_td s)[i := td]\<rparr>))
    (if port AND 5 \<noteq> 5 \<or> port AND 2 \<noteq> 0 then
       andthen (set_info i (\<lambda>f. f\<lparr>ci_status := UHCI_DISCONNECTED\<rparr>)) (service_report i c from_irq td)
     else if td AND UHCI_ACTIVE \<noteq> 0 then ret (c_bool (status AND 0x1F \<noteq> 0))
     else if uhci_completed_length td (uc_packet c) < 0 then
       andthen (set_info i (\<lambda>f. f\<lparr>ci_status := UHCI_TRANSFER_ERROR\<rparr>)) (service_report i c from_irq td)
     else service_report i c from_irq td))))) :: ('a usb_host, u32) prog)"
    unfolding Let_def
    by (intro keeps_if keeps_bind keeps_ret usb_prims, rule keeps_andthen [OF set], rule keeps_bind [OF usb_dma_load32],
        rule keeps_andthen, rule usb_plain, simp_all)
       (intro conjI impI keeps_ret service_lose_keeps service_report_keeps assms c(1) p; simp add: not_less)
qed

lemma service_controller_rest:
  assumes "i < 4"
  shows "usb_keeps e R m (Some i) (bind (in16 p) (\<lambda>st.
    let status = ucast st :: u32
    in andthen (cond (status AND 0x1F \<noteq> 0) (andthen (set_info i (\<lambda>f. f\<lparr>ci_interrupts := (if from_irq then ci_interrupts f + 1 else ci_interrupts f),
         ci_last_status := status\<rparr>))
       (out16 q (ucast (status AND 0x1F)))))
    (if status AND 0x18 \<noteq> 0 then service_halt i base else service_stream i from_irq status)))"
  unfolding Let_def
  by (intro usb_steps set_info_keeps service_halt_keeps service_stream_keeps assms) simp_all

lemma service_controller_keeps:
  assumes "i < 4"
  shows "usb_keeps e R m None (service_controller i from_irq)" "usb_keeps e R m (Some i) (service_controller i from_irq)"
proof -
  show "usb_keeps e R m None (service_controller i from_irq)"
    unfolding service_controller_def Let_def
    by (rule keeps_bind [OF get_info_keeps], rule enter_frames [OF assms])
       (intro keeps_if keeps_ret service_controller_rest [unfolded Let_def] assms, simp add: keeps_ret)
  show "usb_keeps e R m (Some i) (service_controller i from_irq)"
    unfolding service_controller_def Let_def
    by (rule keeps_bind [OF get_info_keeps], rule with_ctl [OF assms])
       (intro keeps_if keeps_ret service_controller_rest [unfolded Let_def] assms)
qed

section \<open>The storage service inside the driver\<close>

lemma window_keeps_pure:
  "(\<And>w. mem (final (p e w)) = mem w) \<Longrightarrow> keeps e (window e R m) (window e R m) (window e R m) p"
  by (rule keepsI) (simp add: window_def)

lemma window_keeps_dma: "keeps e (window e R m) (window e R m) (window e R m) dma_sync"
  by (rule keepsI) (rule window_dma)

lemma window_keeps_store:
  assumes "scratch a (length bs)"
  shows "keeps e (window e R m) (window e R m) (window e R m) (store_list a bs)"
proof (rule keepsI)
  fix w :: "'s world"
  assume w: "window e R m w"
  have "mem_store_list a bs (mem w) b = mem w b" if "\<not> usb_owned b" for b
    using assms that by (intro mem_store_list_outside) (auto simp: scratch_def usb_owned_def loader_owned_def)
  then show "window e R m (final (store_list a bs e w))" using w by (simp add: window_def store_list_def)
qed

interpretation service_window: service_invariant e "window e R m" "window e R m" "window e R m" for e R m
proof (intro service_invariant.intro service_invariant_axioms.intro)
  show "transport_invariant e (window e R m) (window e R m) (window e R m) kernel_hooks"
  proof
    show "keeps e (window e R m) (window e R m) (window e R m) dma_sync" by (rule window_keeps_dma)
    show "keeps e (window e R m) (window e R m) (window e R m) (store_list a bs)" if "scratch a (length bs)" for a bs
      by (rule window_keeps_store [OF that])
    show "keeps e (window e R m) (window e R m) (window e R m) (calibrate_timer kernel_hooks)"
      by (intro calibrate_timer_keeps) (simp_all add: kernel_hooks_keep window_keeps_pure prog_simps)
  qed (simp_all add: kernel_hooks_keep delay_keeps timed_loop_keeps window_keeps_pure prog_simps ata_out8_def)
qed (simp_all add: window_keeps_pure prog_simps ata_out8_def)

lemma host_ok_storage: "host_ok (s\<lparr>uh_storage := v\<rparr>) = host_ok s"
  by (simp add: host_ok_def slot_ok_def)

lemma in_storage_keeps:
  assumes "keeps e (window e R m) (window e R m) (window e R m) p" "finishes e p"
  shows "usb_keeps e R m x (in_storage p :: ('m usb_host, 'r) prog)"
  unfolding keeps_def
proof (intro allI impI)
  fix w :: "'m usb_host world"
  assume w: "usb_safe e R m x w \<and> ticks_ok e w"
  let ?v = "\<lparr>io = io w, mem = mem w, cpu_regs = cpu_regs w, vars = uh_storage (vars w)\<rparr>"
  have "window e R m ?v" "steady_clock e \<longrightarrow> calibrated ?v"
    using w by (simp_all add: usb_safe_def usb_sound_def window_def calibrated_def)
  then have run: "window e R m (final (p e ?v))" "case p e ?v of Done r v \<Rightarrow> steady_clock e \<longrightarrow> calibrated v
      | Panicked msg v \<Rightarrow> True | Unfinished v \<Rightarrow> \<not> steady_clock e"
    using keepsD [OF assms(1)] assms(2) by (simp_all add: keeps_def)
  show "case in_storage p e w of Done r w' \<Rightarrow> usb_safe e R m x w' \<and> ticks_ok e w'
    | Panicked msg w' \<Rightarrow> usb_sound e R m w' | Unfinished w' \<Rightarrow> usb_sound e R m w' \<and> \<not> steady_clock e"
    using w run by (cases "p e ?v") (auto simp: in_storage_def zoom_def Let_def usb_safe_def usb_sound_def window_def
      host_ok_storage ticks_ok_def calibrated_def)
qed

lemma refresh_keeps: "usb_keeps e R m x (in_storage storage_refresh_usb_companions)"
  by (intro in_storage_keeps service_window.companions_keep service_live.companions_keep)

lemma prepare_result:
  "storage_prepare_usb_companions pci e w = Done t w' \<Longrightarrow> t = 0 \<or> t = bv_ticks_per_ms (vars w')"
  by (auto simp: storage_prepare_usb_companions_def run_gets run_ret irq_restore_def split: if_splits
      elim!: Done_bindE Done_andthenE)

lemma calibrate_keeps:
  assumes "\<And>t. usb_keeps e R m None (rest t)"
  shows "usb_keeps e R m None (bind (in_storage (storage_prepare_usb_companions pci)) (\<lambda>t.
    andthen (modify (\<lambda>s. s\<lparr>uh_ticks_per_ms := t\<rparr>)) (rest t)))"
  unfolding keeps_def
proof (intro allI impI)
  fix w :: "'a usb_host world"
  assume w: "usb_safe e R m None w \<and> ticks_ok e w"
  let ?p = "in_storage (storage_prepare_usb_companions pci)"
  have "usb_keeps e R m None (?p :: ('a usb_host, u32) prog)"
    by (intro in_storage_keeps service_window.companions_keep service_live.companions_keep)
  then have run: "case ?p e w of Done r w' \<Rightarrow> usb_safe e R m None w' \<and> ticks_ok e w'
    | Panicked msg w' \<Rightarrow> usb_sound e R m w' | Unfinished w' \<Rightarrow> usb_sound e R m w' \<and> \<not> steady_clock e"
    using w by (simp add: keeps_def)
  show "case bind ?p (\<lambda>t. andthen (modify (\<lambda>s. s\<lparr>uh_ticks_per_ms := t\<rparr>)) (rest t)) e w of
      Done r w' \<Rightarrow> usb_safe e R m None w' \<and> ticks_ok e w'
    | Panicked msg w' \<Rightarrow> usb_sound e R m w' | Unfinished w' \<Rightarrow> usb_sound e R m w' \<and> \<not> steady_clock e"
  proof (cases "?p e w")
    case (Done t w')
    let ?w = "w'\<lparr>vars := (vars w')\<lparr>uh_ticks_per_ms := t\<rparr>\<rparr>"
    have "t = 0 \<or> t = bv_ticks_per_ms (uh_storage (vars w'))"
      using Done prepare_result by (fastforce simp: in_storage_def zoom_def Let_def split: outcome.splits)
    then have "ticks_ok e ?w" using run Done by (auto simp: ticks_ok_def calibrated_by_def usb_safe_def)
    moreover have "host_ok (vars ?w) = host_ok (vars w')" by (simp add: host_ok_def slot_ok_def)
    then have "usb_safe e R m None ?w" using run Done by (simp add: usb_safe_def usb_sound_def window_def)
    ultimately show ?thesis
      using assms [of t] Done by (simp add: keeps_def run_bind run_andthen run_modify)
  qed (use run in \<open>simp_all add: run_bind\<close>)
qed

section \<open>Entry points\<close>

lemma keeps_or_each:
  assumes "\<And>j. i \<le> j \<Longrightarrow> j < i + n \<Longrightarrow> keeps e I K J (body j)"
  shows "keeps e I K J (or_each i n body acc)"
  using assms
proof (induction n arbitrary: i acc)
  case (Suc n)
  have "keeps e I K J (or_each (Suc i) n body a)" for a by (rule Suc.IH) (auto intro: Suc.prems)
  moreover have "keeps e I K J (body i)" by (rule Suc.prems) simp_all
  ultimately show ?case by (simp add: keeps_bind)
qed (simp add: keeps_ret)

lemma usb_host_interrupt_keeps: "usb_keeps e R m None (usb_host_interrupt vector)"
proof -
  have "usb_keeps e R m None (or_each 0 4 (\<lambda>i. bind (get_info i) (\<lambda>info.
      if ci_gsi info = gsi then service_controller i True else ret 0)) acc :: ('a usb_host, u32) prog)" for gsi acc
    by (intro keeps_or_each usb_steps service_controller_keeps) simp_all
  then show ?thesis unfolding usb_host_interrupt_def Let_def
    by (intro keeps_case_option keeps_if usb_panic keeps_bind keeps_andthen keeps_gets keeps_ret ioapic_keeps usb_plain) simp_all
qed

lemma poll_recover_keeps:
  assumes "i < 4"
  shows "usb_keeps e R m (Some i) (poll_recover i base)"
proof -
  have reset: "usb_keeps e R m (Some i) (set_ctl i (\<lambda>c. c\<lparr>uc_producer := 0, uc_consumer := 0\<rparr>) :: ('a usb_host, unit) prog)"
    using assms by (rule set_ctl_keeps) (auto simp: ctl_ok_def placed_def)
  show ?thesis
    unfolding poll_recover_def
    by (intro keeps_andthen usb_prims stop_keeps with_ctl [OF assms] usb_store32 slab_parts [OF assms] reset
        idle_frames_keeps [OF assms] set_info_keeps [OF assms]; simp)
qed

lemma poll_port_keeps:
  assumes "i < 4"
  shows "usb_keeps e R m x (poll_port i base port)"
proof -
  have "map length (l[i := (l ! i)[port := v]]) = map length l" for l :: "u32 list list" and v
    by (simp add: map_update list_update_same_conv) (metis list_update_id length_list_update map_update)
  then show ?thesis
    unfolding poll_port_def Let_def by (intro usb_steps set_info_keeps assms usb_plain) simp_all
qed

lemma poll_controller_keeps:
  assumes "i < 4"
  shows "usb_keeps e R m None (poll_controller i)"
proof -
  note laws = usb_steps service_controller_keeps(2) [OF assms] poll_recover_keeps [OF assms] poll_port_keeps [OF assms]
  show ?thesis
    unfolding poll_controller_def Let_def
    by (rule keeps_bind [OF get_info_keeps], rule enter_frames [OF assms])
       (intro laws with_ctl [OF assms], simp add: keeps_ret)
qed

lemma usb_host_poll_keeps: "usb_keeps e R m None usb_host_poll"
  unfolding usb_host_poll_def
  by (intro usb_steps refresh_keeps keeps_or_each poll_controller_keeps usb_plain) simp_all

lemma usb_uhci_hotplug_due_keeps: "usb_keeps e R m x usb_uhci_hotplug_due"
  unfolding usb_uhci_hotplug_due_def by (intro usb_steps usb_plain) simp_all

subsection \<open>Initialisation\<close>

text \<open>Once the pointers are set the controller counts as entered.\<close>

lemma place_keeps:
  fixes p :: "('m usb_host, 'r) prog"
  assumes "i < 4" "\<And>c. ctl_ok i c \<Longrightarrow> ctl_ok i (f c) \<and> placed i (f c)" "usb_keeps e R m (Some i) p"
  shows "usb_keeps e R m None (andthen (set_ctl i f) p)"
  unfolding keeps_def
proof (intro allI impI)
  fix w :: "'m usb_host world"
  assume w: "usb_safe e R m None w \<and> ticks_ok e w"
  let ?w = "w\<lparr>vars := (vars w)\<lparr>uh_ctl := (uh_ctl (vars w))[i := f (uh_ctl (vars w) ! i)]\<rparr>\<rparr>"
  have ok: "host_ok (vars w)" "ctl_ok i (uh_ctl (vars w) ! i)" "length (uh_ctl (vars w)) = 4"
    using w assms(1) by (auto simp: usb_safe_def usb_sound_def host_ok_def slot_ok_def)
  note f = assms(2) [OF ok(2)]
  have "host_ok (vars ?w)" using host_ok_ctl [OF ok(1) assms(1) f [THEN conjunct1]] f by simp
  then have "usb_safe e R m (Some i) ?w \<and> ticks_ok e ?w"
    using w f ok(3) assms(1) by (simp add: usb_safe_def usb_sound_def window_def ticks_ok_def calibrated_by_def)
  then have "case p e ?w of Done r w' \<Rightarrow> usb_safe e R m (Some i) w' \<and> ticks_ok e w'
    | Panicked msg w' \<Rightarrow> usb_sound e R m w' | Unfinished w' \<Rightarrow> usb_sound e R m w' \<and> \<not> steady_clock e"
    using assms(3) by (simp add: keeps_def)
  then show "case andthen (set_ctl i f) p e w of Done r w' \<Rightarrow> usb_safe e R m None w' \<and> ticks_ok e w'
    | Panicked msg w' \<Rightarrow> usb_sound e R m w' | Unfinished w' \<Rightarrow> usb_sound e R m w' \<and> \<not> steady_clock e"
    by (cases "p e ?w") (simp_all add: run_andthen set_ctl_def run_modify usb_safe_def)
qed

lemma andthen_assoc: "andthen (andthen p q) r = andthen p (andthen q r)"
  by (simp add: andthen_def bind_assoc)

lemma andthen_bind: "andthen (bind p f) r = bind p (\<lambda>x. andthen (f x) r)"
  by (simp add: andthen_def bind_assoc)

lemma build_schedule_keeps:
  fixes rest :: "('m usb_host, unit) prog"
  assumes "i < 4" "usb_keeps e R m (Some i) rest"
  shows "usb_keeps e R m None (andthen (build_schedule i (dma_of i)) rest)"
proof -
  have wipe: "usb_keeps e R m None (mem_apply (\<lambda>m. memset m (dma_of i) 0 0x4000) :: ('m usb_host, unit) prog)"
    by (intro usb_mem memset_outside slab_range) (simp_all add: slab_dma_0 assms(1))
  show ?thesis
    unfolding build_schedule_def andthen_assoc andthen_bind
    by (intro keeps_andthen wipe place_keeps [OF assms(1)] with_ctl [OF assms(1)] usb_store32 slab_parts [OF assms(1)]
        idle_frames_keeps [OF assms(1)] assms(2)) (auto simp: ctl_ok_def placed_def)
qed

lemma route_interrupt_keeps: "usb_keeps e R m x (route_interrupt b redir previous vector)"
  unfolding route_interrupt_def by (intro usb_steps usb_plain) simp_all

lemma give_up_keeps: "i < 4 \<Longrightarrow> status \<noteq> UHCI_READY \<Longrightarrow> usb_keeps e R m x (give_up i status)"
  unfolding give_up_def by (rule set_info_keeps) simp_all

lemma uhci_start_keeps:
  assumes "i < 4"
  shows "usb_keeps e R m None (start_controller i pci gsi previous bar)"
  unfolding start_controller_def Let_def dma_of_def [symmetric]
  by (intro build_schedule_keeps [OF assms] usb_steps give_up_keeps route_interrupt_keeps set_info_keeps assms usb_plain; simp)

lemma init_controller_keeps: "i < 4 \<Longrightarrow> usb_keeps e R m None (init_controller lpc d29ip d29ir max_gsi i)"
  unfolding init_controller_def Let_def
  by (intro usb_steps give_up_keeps uhci_start_keeps set_info_keeps; simp)

lemma pointers_keeps: "a = 0x80002350 \<or> a = 0x80002354 \<Longrightarrow> usb_keeps e R m x (store32 a v)"
  unfolding store32_list store_list_apply
  by (rule usb_mem, rule mem_store_list_outside) (auto simp: usb_owned_def)

lemma init_hardware_keeps: "usb_keeps e R m None (init_hardware host_address handler)"
  unfolding init_hardware_def map_rcba_def unmask_route_def Let_def
  by (intro calibrate_keeps usb_steps init_controller_keeps pointers_keeps usb_plain; simp)

lemma usb_host_initialize_keeps: "usb_keeps e R m None (usb_host_initialize host_address handler)"
  unfolding usb_host_initialize_def by (intro usb_steps init_hardware_keeps usb_plain) simp_all

subsection \<open>Ports and control transfers\<close>

lemma update_port_keeps: "usb_keeps e R m x (update_port reg clr st)"
  unfolding update_port_def by (intro usb_steps)

lemma set_port_status_keeps: "i < 4 \<Longrightarrow> usb_keeps e R m x (set_port_status i port v)"
  unfolding set_port_status_def by (rule set_info_keeps) simp_all

lemma get_ctl_keeps: "usb_keeps e R m x (get_ctl i)"
  unfolding get_ctl_def by (rule keeps_gets)

lemma usb_uhci_reset_port_keeps: "usb_keeps e R m x (usb_uhci_reset_port ident port)"
  unfolding usb_uhci_reset_port_def Let_def
  by (intro usb_steps get_ctl_keeps update_port_keeps usb_delay_keeps set_port_status_keeps; simp add: word_le_nat_alt)

lemma usb_uhci_disable_port_keeps: "usb_keeps e R m x (usb_uhci_disable_port ident port)"
  unfolding usb_uhci_disable_port_def Let_def
  by (intro usb_steps get_ctl_keeps update_port_keeps set_port_status_keeps; simp add: word_le_nat_alt)

lemma usb_uhci_delay_keeps: "usb_keeps e R m x (usb_uhci_delay ms)"
  unfolding usb_uhci_delay_def by (intro usb_steps usb_delay_keeps) simp

lemma control_packet_keeps:
  assumes "i < 4"
  shows "usb_keeps e R m (Some i) (control_packet i pid address low toggle len)"
proof -
  have wait: "usb_keeps e R m (Some i) (timed_by uh_ticks_per_ms (bind (dma_load32 a) (\<lambda>td.
      ret (if td AND UHCI_ACTIVE = 0 then Some () else None))) :: ('a usb_host, unit option) prog)" for a
  proof (rule usb_timed_keeps, rule shortI)
    fix w :: "'a usb_host world"
    show "\<exists>r w'. bind (dma_load32 a) (\<lambda>td. ret (if td AND UHCI_ACTIVE = 0 then Some () else None)) e w = Done r w' \<and>
        vars w' = vars w \<and> (window e R m w \<longrightarrow> window e R m w')"
      using window_dma [of e R m w] by (simp add: dma_load32_def dma_sync_def load32_def run_andthen run_bind run_ret)
  qed (simp add: prog_simps)
  show ?thesis
    unfolding control_packet_def Let_def
    by (intro with_ctl [OF assms] usb_steps usb_store32 slab_parts [OF assms] set_info_keeps [OF assms] wait; simp)
qed

lemma copy_into_keeps: "usb_keeps e R m x (copy_into buffer offset bytes)"
  unfolding copy_into_def by (intro usb_steps)

lemma data_stage_keeps:
  assumes "i < 4" "0 < packet" "packet \<le> 64"
  shows "len - received < n \<Longrightarrow>
    usb_keeps e R m (Some i) (data_stage n i address low packet input len received toggle buffer :: ('m usb_host, nat option \<times> u8 list) prog)"
proof (induction n arbitrary: received toggle buffer)
  case (Suc n)
  have more: "usb_keeps e R m (Some i) (data_stage n i address low packet input len (received + nat actual) t b :: ('m usb_host, nat option \<times> u8 list) prog)"
    if "\<not> \<not> received < len" "\<not> nat actual < min (len - received) packet" for actual t b
    by (rule Suc.IH) (use Suc.prems that assms(2) in auto)
  show ?case
    unfolding data_stage.simps Let_def
    by (intro with_ctl [OF assms(1)] usb_steps usb_store_list slab_parts [OF assms(1)] control_packet_keeps [OF assms(1)]
        copy_into_keeps more) (use assms(3) in auto)
qed simp

lemma control_stages_keeps:
  assumes "i < 4" "packet = 8 \<or> packet = 16 \<or> packet = 32 \<or> packet = 64"
  shows "usb_keeps e R m (Some i) (control_stages i address low packet setup buffer)"
proof -
  have p: "0 < unat packet" "unat packet \<le> 64" using assms(2) by auto
  have d: "usb_keeps e R m (Some i) (data_stage (len + 1) i address low (unat packet) input len 0 1 buffer :: ('a usb_host, nat option \<times> u8 list) prog)" for len input
    by (rule data_stage_keeps [OF assms(1) p]) simp
  show ?thesis
    unfolding control_stages_def Let_def
    by (intro with_ctl [OF assms(1)] usb_steps usb_store_list slab_parts [OF assms(1)] control_packet_keeps [OF assms(1)] d;
        simp split: prod.split option.split add: keeps_ret keeps_bind control_packet_keeps [OF assms(1)])
qed

lemma usb_uhci_control_keeps: "usb_keeps e R m None (usb_uhci_control ident address low packet setup_ptr data)"
proof -
  have remember: "usb_keeps e R m (Some i) (set_ctl i (\<lambda>c. c\<lparr>uc_last_request := v\<rparr>) :: ('a usb_host, unit) prog)"
    "usb_keeps e R m (Some i) (set_ctl i (\<lambda>c. c\<lparr>uc_last_control_result := v\<rparr>) :: ('a usb_host, unit) prog)" if "i < 4" for i v
    by (rule set_ctl_keeps [OF that]; auto simp: ctl_ok_def placed_def)+
  have i: "unat ident < 4" if "\<not> (ident \<ge> 4 \<or> address > 127 \<or> low > 1)" using that by (simp add: word_le_nat_alt)
  have run: "usb_keeps e R m (Some j) (bind irq_save (\<lambda>flags. bind (get_ctl j) (\<lambda>c.
      if uc_active c \<noteq> 0 then andthen (irq_restore flags) (ret (- 1, b))
      else andthen (set_ctl j (\<lambda>c. c\<lparr>uc_last_request := r\<rparr>)) (andthen (out16 p 0)
        (bind (control_stages j address low packet request b) (\<lambda>(result, buffer).
          andthen (set_ctl j (\<lambda>c. c\<lparr>uc_last_control_result := word_of_int result\<rparr>)) (bind (get_info j) (\<lambda>info.
          andthen (cond (ci_status info = UHCI_READY) (andthen (out16 q USB_RUN) (out16 p 0x0D)))
          (andthen (irq_restore flags) (ret (result, buffer)))))))))) :: ('a usb_host, int \<times> u8 list) prog)"
    if "j < 4" "packet = 8 \<or> packet = 16 \<or> packet = 32 \<or> packet = 64" for j b r p q request
    by (intro usb_steps get_ctl_keeps remember [OF that(1)] control_stages_keeps [OF that])
       (auto intro!: usb_steps remember [OF that(1)])
  show ?thesis
    unfolding usb_uhci_control_def Let_def
    by (intro keeps_case_option keeps_ret keeps_if enter_ready i run; (assumption | auto simp: keeps_ret)?)
qed

subsection \<open>Streams and the caller's buffers\<close>

lemma usb_uhci_start_interrupt_keeps:
  "usb_keeps e R m None (usb_uhci_start_interrupt ident port address endpoint low packet ms)"
proof -
  have start: "usb_keeps e R m (Some i) (set_ctl i (\<lambda>c. c\<lparr>uc_address := address, uc_endpoint := endpoint, uc_low_speed := low,
      uc_packet := packet, uc_toggle := 0, uc_port := port, uc_producer := 0, uc_consumer := 0, uc_active := 1\<rparr>) :: ('a usb_host, unit) prog)"
    if "i < 4" "\<not> packet > 64" "\<not> port > 1" for i
    using that(1) by (rule set_ctl_keeps) (use that in \<open>auto simp: ctl_ok_def placed_def not_less\<close>)
  show ?thesis
    unfolding usb_uhci_start_interrupt_def Let_def
    by (intro keeps_if keeps_ret enter_ready usb_steps with_ctl start stream_frames_keeps arm_interrupt_keeps;
        simp add: word_le_nat_alt keeps_ret)
qed

text \<open>A copy into memory that the caller handed over.\<close>

lemma usb_set_bytes:
  assumes "image_at a n \<subseteq> R"
  shows "usb_keeps e R m x (mem_apply (\<lambda>f. memset f a v n))"
  by (rule usb_mem, rule memset_outside) (use assms in \<open>auto simp: image_at_def\<close>)

lemma usb_store32_at:
  assumes "image_at a 44 \<subseteq> R" "k \<le> 40"
  shows "usb_keeps e R m x (store32 (a + k) v)"
proof -
  have eq: "store32 (a + k) v = mem_apply (mem_store32 (a + k) v)" by (simp add: store32_def mem_apply_def)
  have "a + k + j \<in> R" if "j \<le> 3" for j
  proof -
    have "unat k \<le> 40" "unat j \<le> 3" using assms(2) that by (simp_all add: word_le_nat_alt)
    then have "a + k + j - a < 44" by (simp add: word_less_nat_alt unat_word_ariths)
    then show ?thesis using assms(1) by (auto simp: image_at_def)
  qed
  note inside = this
  have "mem_store32 (a + k) v f b = f b" if "b \<notin> R" for f b
    using that inside [of 0] inside [of 1] inside [of 2] inside [of 3] by (auto simp: mem_store32_def)
  then show ?thesis unfolding eq by (intro usb_mem)
qed

lemma usb_uhci_debug_snapshot_keeps:
  assumes "image_at snapshot 44 \<subseteq> R"
  shows "usb_keeps e R m x (usb_uhci_debug_snapshot ident snapshot)"
proof -
  note at = usb_store32_at [OF assms]
  have first: "usb_keeps e R m x (store32 snapshot v :: ('a usb_host, unit) prog)" for v
    using at [of 0] by simp
  show ?thesis
    unfolding usb_uhci_debug_snapshot_def Let_def
    by (intro usb_steps get_ctl_keeps usb_set_bytes assms at first; simp)
qed

lemma take_report_keeps:
  assumes "i < 4" "image_at report 68 \<subseteq> R"
  shows "usb_keeps e R m None (take_report i report)"
  unfolding keeps_def
proof (intro allI impI)
  fix w :: "'a usb_host world"
  assume w: "usb_safe e R m None w \<and> ticks_ok e w"
  let ?c = "uh_ctl (vars w) ! i" and ?d = "(uh_ctl (vars w) ! i)\<lparr>uc_consumer := uc_consumer (uh_ctl (vars w) ! i) + 1\<rparr>"
  have c: "ctl_ok i ?c" "host_ok (vars w)"
    using w assms(1) by (auto simp: usb_safe_def usb_sound_def host_ok_def slot_ok_def)
  have "ctl_ok i ?d" "placed i ?c \<Longrightarrow> placed i ?d" if "uc_consumer ?c \<noteq> uc_producer ?c"
  proof -
    define d where "d = uc_producer ?c - uc_consumer ?c"
    have "d \<noteq> 0" "d \<le> 16" using that c(1) by (auto simp: d_def ctl_ok_def)
    then have "d - 1 \<le> 16" by (simp add: word_le_nat_alt unat_minus_one)
    moreover have "uc_producer ?c - (uc_consumer ?c + 1) = d - 1" by (simp add: d_def)
    ultimately have "uc_producer ?c - (uc_consumer ?c + 1) \<le> 16" by (simp only:)
    then show "ctl_ok i ?d" "placed i ?c \<Longrightarrow> placed i ?d" using c(1) by (auto simp: ctl_ok_def placed_def)
  qed
  note d = this
  have "host_ok ((vars w)\<lparr>uh_ctl := (uh_ctl (vars w))[i := ?d]\<rparr>)" if "uc_consumer ?c \<noteq> uc_producer ?c"
    by (rule host_ok_ctl [OF c(2) assms(1)]) (rule d [OF that], assumption?)+
  moreover have "memcpy (mem w) report src 68 a = mem w a" if "a \<notin> R" for src a
    using that assms(2) by (intro memcpy_outside) (auto simp: image_at_def)
  then have "window e R m (w\<lparr>mem := memcpy (mem w) report src 68, vars := v\<rparr>)" for src v
    using w by (simp add: usb_safe_def usb_sound_def window_def)
  ultimately show "case take_report i report e w of Done r w' \<Rightarrow> usb_safe e R m None w' \<and> ticks_ok e w'
    | Panicked msg w' \<Rightarrow> usb_sound e R m w' | Unfinished w' \<Rightarrow> usb_sound e R m w' \<and> \<not> steady_clock e"
    using w by (simp add: take_report_def uhci_dequeue_def usb_safe_def usb_sound_def ticks_ok_def calibrated_by_def)
qed

lemma usb_uhci_read_report_keeps:
  assumes "image_at report 68 \<subseteq> R"
  shows "usb_keeps e R m None (usb_uhci_read_report ident report)"
  unfolding usb_uhci_read_report_def
  by (intro usb_steps take_report_keeps assms) (simp_all add: word_le_nat_alt)

lemma usb_host_set_report_callback_keeps: "usb_keeps e R m x (usb_host_set_report_callback f)"
  unfolding usb_host_set_report_callback_def Let_def by (intro usb_steps usb_plain) simp_all

section \<open>Sessions\<close>

text \<open>The entry points of the driver, called in any order by the kernel and by the interrupt stub.\<close>

datatype 'm host_call =
    Initialize u32 u32 | Poll | Interrupt "u32 option" | Hotplug_due | Reset_port u32 u32 | Disable_port u32 u32
  | Delay u32 | Control u32 u32 u32 u32 "u8 list option" "u8 list option"
  | Start u32 u32 u32 u32 u32 u32 u32 | Read_report u32 u32 | Snapshot u32 u32
  | Set_callback "(u32 \<Rightarrow> u32 \<Rightarrow> u8 list option \<Rightarrow> u32 \<Rightarrow> 'm \<Rightarrow> 'm) option"

fun host_run :: "'m host_call \<Rightarrow> ('m usb_host, unit) prog" where
  "host_run (Initialize host_address handler) = andthen (usb_host_initialize host_address handler) (ret ())"
| "host_run Poll = andthen usb_host_poll (ret ())"
| "host_run (Interrupt vector) = usb_host_interrupt vector"
| "host_run Hotplug_due = andthen usb_uhci_hotplug_due (ret ())"
| "host_run (Reset_port ident port) = andthen (usb_uhci_reset_port ident port) (ret ())"
| "host_run (Disable_port ident port) = usb_uhci_disable_port ident port"
| "host_run (Delay ms) = usb_uhci_delay ms"
| "host_run (Control ident address low packet request data) =
     andthen (usb_uhci_control ident address low packet request data) (ret ())"
| "host_run (Start ident port address endpoint low packet ms) =
     andthen (usb_uhci_start_interrupt ident port address endpoint low packet ms) (ret ())"
| "host_run (Read_report ident report) = andthen (usb_uhci_read_report ident report) (ret ())"
| "host_run (Snapshot ident snapshot) = usb_uhci_debug_snapshot ident snapshot"
| "host_run (Set_callback f) = andthen (usb_host_set_report_callback f) (ret ())"

fun host_session :: "'m host_call list \<Rightarrow> ('m usb_host, unit) prog" where
  "host_session [] = ret ()"
| "host_session (c # cs) = andthen (host_run c) (host_session cs)"

text \<open>The memory that a call hands to the driver.\<close>

fun call_buffer :: "'m host_call \<Rightarrow> u32 set" where
  "call_buffer (Read_report ident report) = {a. a - report < 68}"
| "call_buffer (Snapshot ident snapshot) = {a. a - snapshot < 44}"
| "call_buffer c = {}"

definition call_buffers :: "'m host_call list \<Rightarrow> u32 set" where
  "call_buffers cs = (\<Union>c \<in> set cs. call_buffer c)"

lemma host_run_keeps:
  assumes "call_buffer c \<subseteq> R"
  shows "usb_keeps e R m None (host_run c)"
proof -
  note entries = usb_host_initialize_keeps usb_host_poll_keeps usb_host_interrupt_keeps usb_uhci_hotplug_due_keeps
    usb_uhci_reset_port_keeps usb_uhci_disable_port_keeps usb_uhci_delay_keeps usb_uhci_control_keeps
    usb_uhci_start_interrupt_keeps usb_host_set_report_callback_keeps usb_uhci_read_report_keeps
    usb_uhci_debug_snapshot_keeps
  show ?thesis using assms by (cases c) (simp_all add: entries keeps_andthen keeps_ret image_at_def)
qed

lemma host_session_keeps: "call_buffers cs \<subseteq> R \<Longrightarrow> usb_keeps e R m None (host_session cs)"
  by (induction cs) (simp_all add: call_buffers_def keeps_ret keeps_andthen host_run_keeps)

text \<open>
  The driver's variables when \<^verbatim>\<open>.bss\<close> has been cleared, with a client and the storage service in
  any state.
\<close>

definition usb_zero :: "'m \<Rightarrow> storage_vars \<Rightarrow> 'm usb_host" where
  "usb_zero client st = \<lparr>uh_controller_count = 0, uh_route_mask = 0, uh_error = 0, uh_unclaimed_interrupts = 0,
     uh_info = replicate 4 \<lparr>ci_pci = 0, ci_io_base = 0, ci_gsi = 0, ci_vector = 0, ci_status = 0, ci_interrupts = 0,
       ci_last_status = 0, ci_dma = 0, ci_port_status = [0, 0], ci_reports = 0, ci_dropped = 0\<rparr>,
     uh_polls = 0, uh_poll_completions = 0, uh_last_td = replicate 4 0, uh_port_generation = replicate 4 [0, 0],
     uh_ehci_bar = 0,
     uh_ctl = replicate 4 \<lparr>uc_frames = 0, uc_control_qh = 0, uc_interrupt_qh = 0, uc_control_td = 0, uc_interrupt_td = 0,
       uc_control_data = 0, uc_interrupt_data = 0, uc_queue = 0, uc_producer = 0, uc_consumer = 0, uc_address = 0,
       uc_endpoint = 0, uc_low_speed = 0, uc_packet = 0, uc_toggle = 0, uc_active = 0, uc_port = 0,
       uc_last_request = 0, uc_last_control_result = 0\<rparr>,
     uh_ticks_per_ms = 0, uh_initialized = 0, uh_hotplug_time = 0, uh_unclaimed_streak = replicate 8 0,
     uh_callback = None, uh_client = client, uh_storage = st\<rparr>"

lemma usb_zero_ok: "host_ok (usb_zero client st)"
  by (simp add: usb_zero_def host_ok_def slot_ok_def ctl_ok_def)

text \<open>Every environment, with its bus masters restricted to the memory of the USB stack.\<close>

definition confine_usb :: "env \<Rightarrow> env" where
  "confine_usb e = e\<lparr>env_dma := \<lambda>h a. if usb_owned a then env_dma e h a else None\<rparr>"

lemma session_sound:
  assumes "vars w = usb_zero client st" "steady_clock e \<longrightarrow> unat (bv_ticks_per_ms st) \<le> 4000000"
  shows "usb_sound e (call_buffers cs) (mem w) (final (host_session cs e w))"
    "steady_clock e \<Longrightarrow> host_session cs e w \<noteq> Unfinished w'"
proof -
  have "usb_safe e (call_buffers cs) (mem w) None w \<and> ticks_ok e w"
    using assms usb_zero_ok [of client st]
    by (simp add: usb_safe_def usb_sound_def window_def ticks_ok_def calibrated_by_def usb_zero_def)
  then have run: "case host_session cs e w of
      Done r w' \<Rightarrow> usb_safe e (call_buffers cs) (mem w) None w' \<and> ticks_ok e w'
    | Panicked msg w' \<Rightarrow> usb_sound e (call_buffers cs) (mem w) w'
    | Unfinished w' \<Rightarrow> usb_sound e (call_buffers cs) (mem w) w' \<and> \<not> steady_clock e"
    using host_session_keeps [of cs "call_buffers cs" e "mem w"] by (simp add: keeps_def)
  then show "usb_sound e (call_buffers cs) (mem w) (final (host_session cs e w))"
    by (cases "host_session cs e w") (simp_all add: usb_safe_def)
  show "steady_clock e \<Longrightarrow> host_session cs e w \<noteq> Unfinished w'" using run by (auto split: outcome.splits)
qed

section \<open>Properties\<close>

text \<open>
  C30: the driver's data structures stay well formed. Start from cleared variables, with the storage
  service and the client in any state, and call the entry points in any order, from the kernel or from
  the interrupt stub, with any arguments: however the controllers and devices behave, and however
  the session ends, every array has its size, so that every index the code uses is in range, the report
  queues hold at most 16 reports, packet sizes and toggles are in range, and the schedule pointers
  of a controller are null or point to their places in the controller's own window; a
  controller that reports ready has been placed.
\<close>

theorem usb_host_stays_well_formed:
  "let w = w0\<lparr>vars := usb_zero client (st\<lparr>bv_ticks_per_ms := 0\<rparr>)\<rparr>
   in host_ok (vars (final (host_session cs e w)))"
  unfolding Let_def using session_sound(1) [of "w0\<lparr>vars := usb_zero client (st\<lparr>bv_ticks_per_ms := 0\<rparr>)\<rparr>" client "st\<lparr>bv_ticks_per_ms := 0\<rparr>" e cs]
  by (simp add: usb_sound_def)


text \<open>
  C32: the driver never hangs. With a time-stamp counter that advances at every access, by at
  most a million ticks, every session of calls comes back: it returns or stops at a panic, even if a
  controller never halts, never leaves reset or never completes a descriptor, and even if a
  device answers a control request with endless or short packets.
\<close>

theorem usb_host_calls_return:
  assumes "steady_clock e"
  shows "let w = w0\<lparr>vars := usb_zero client (st\<lparr>bv_ticks_per_ms := 0\<rparr>)\<rparr>
    in (\<exists>w'. host_session cs e w = Done () w') \<or> (\<exists>msg w'. host_session cs e w = Panicked msg w')"
proof -
  let ?w = "w0\<lparr>vars := usb_zero client (st\<lparr>bv_ticks_per_ms := 0\<rparr>)\<rparr>"
  have "host_session cs e ?w \<noteq> Unfinished w'" for w'
    by (rule session_sound(2) [OF _ _ assms], simp, simp)
  then show ?thesis unfolding Let_def by (cases "host_session cs e ?w") auto
qed

theorem usb_host_calls_return_witness:
  "let w = (start_world undefined)\<lparr>vars := usb_zero () (storage_zero\<lparr>bv_ticks_per_ms := 0\<rparr>)\<rparr>;
       cs = [Initialize 0x34001000 0x34002000, Poll, Control 0 0 0 8 (Some [0x80, 6, 0, 1, 0, 0, 8, 0]) (Some (replicate 8 0))]
   in (\<exists>w'. host_session cs ticking_env w = Done () w') \<or> (\<exists>msg w'. host_session cs ticking_env w = Panicked msg w')"
  unfolding Let_def using usb_host_calls_return [OF ticking_env_steady, unfolded Let_def] .

end
