(* ===== verification/Usb_Queue.thy ===== *)
theory Usb_Queue
  imports Usb_Safety
begin

text \<open>
  The report queue of a controller as a queue: sixteen slots of memory behind free-running 32-bit
  counters are an interpretation of the contract \<^verbatim>\<open>spsc_queue\<close>. The producer is the
  service routine, which copies a completed report out of the DMA buffer; the consumer is
  \<^verbatim>\<open>usb_uhci_read_report\<close>, which copies it into the caller's buffer.
\<close>

section \<open>What a slot holds\<close>

text \<open>The report at an address: the bytes that the length field says are there.\<close>

definition report_at :: "(u32 \<Rightarrow> u8) \<Rightarrow> u32 \<Rightarrow> u8 list" where
  "report_at m a = take (unat (mem_load32 m a)) (mem_load_list m (a + 4) 64)"

text \<open>A queue with the buffer its reader uses: buffer address, controller, memory.\<close>

type_synonym report_queue = "u32 \<times> uhci_controller \<times> (u32 \<Rightarrow> u8)"

fun uhci_content :: "report_queue \<Rightarrow> u8 list list" where
  "uhci_content (r, c, m) = map (\<lambda>k. report_at m (report_slot c (uc_consumer c + of_nat k)))
     [0..<unat (uc_producer c - uc_consumer c)]"

text \<open>The reader's buffer is outside the windows of the controllers.\<close>

fun uhci_queue_ok :: "report_queue \<Rightarrow> bool" where
  "uhci_queue_ok (r, c, m) \<longleftrightarrow> uc_producer c - uc_consumer c \<le> 16 \<and> (\<exists>i < 4. placed i c) \<and>
     (unat r + 68 \<le> 0x30060000 \<or> 0x30070000 \<le> unat r \<and> unat r + 68 \<le> 2 ^ 32)"

text \<open>
  The two ends as steps: a device completes a report of given bytes, which are then in the DMA
  buffer, and the service routine queues it; a reader takes the front report through its buffer.
\<close>

fun complete_report :: "u8 list \<Rightarrow> report_queue \<Rightarrow> report_queue" where
  "complete_report bytes (r, c, m) = (let m' = mem_store_list (uc_interrupt_data c) bytes m
     in (r, case uhci_enqueue (of_nat (length bytes)) (c, m') of Some q \<Rightarrow> q | None \<Rightarrow> (c, m')))"

fun read_step :: "report_queue \<Rightarrow> report_queue" where
  "read_step (r, c, m) = (r, case uhci_dequeue r (c, m) of Some q \<Rightarrow> q | None \<Rightarrow> (c, m))"

definition read_front :: "report_queue \<Rightarrow> u8 list" where
  "read_front q = report_at (snd (snd (read_step q))) (fst q)"

section \<open>Memory of the slots\<close>

lemma small_diff:
  assumes "a < 2 ^ 31" "b < 2 ^ 31" "n \<le> 2 ^ 31"
  shows "(of_nat a - of_nat b :: u32) < of_nat n \<longleftrightarrow> b \<le> a \<and> a - b < n"
proof (cases "b \<le> a")
  case True
  then have "(of_nat a - of_nat b :: u32) = of_nat (a - b)" by (simp add: of_nat_diff)
  then show ?thesis using True assms by (simp add: word_less_nat_alt unat_of_nat del: of_nat_diff)
next
  case False
  then have "unat (of_nat a - of_nat b :: u32) = 2 ^ 32 + a - b"
    using assms by (simp add: unat_sub_if' unat_of_nat word_less_nat_alt)
  then show ?thesis using False assms by (simp add: word_less_nat_alt unat_of_nat)
qed

text \<open>Addresses of the window of controller \<open>i\<close> by offset.\<close>

definition at :: "nat \<Rightarrow> nat \<Rightarrow> u32" where
  "at i x = dma_of i + of_nat x"

lemma at_range: "x < 0x4000 \<Longrightarrow> y < 0x4000 \<Longrightarrow> n \<le> 0x4000 \<Longrightarrow>
    at i x - at i y < of_nat n \<longleftrightarrow> y \<le> x \<and> x - y < n"
  using small_diff [of x y n] by (simp add: at_def)

lemma at_inject:
  assumes "x < 0x4000" "y < 0x4000"
  shows "at i x = at i y \<longleftrightarrow> x = y"
proof -
  have "(of_nat x :: u32) = of_nat y \<longleftrightarrow> x = y" using assms by (simp add: word_unat_eq_iff unat_of_nat)
  then show ?thesis by (simp add: at_def)
qed

lemma at_add: "at i x + of_nat y = at i (x + y)"
  by (simp add: at_def add.assoc)

lemma at_add_numeral: "at i x + numeral y = at i (x + numeral y)" "at i x + 1 = at i (x + 1)"
  using at_add [of i x "numeral y"] at_add [of i x 1] by simp_all

lemma report_slot_at:
  assumes "placed i c"
  shows "report_slot c n = at i (0x3000 + 68 * (unat n mod 16))"
proof -
  have "(n AND 15) = of_nat (unat n mod 16)"
    by (simp add: word_unat_eq_iff unat_and_numeral_mask unat_of_nat)
  then show ?thesis using assms by (simp add: report_slot_def placed_def at_def)
qed

lemma mem_load32_store32: "mem_load32 (mem_store32 a v m) a = v"
proof -
  have "a \<noteq> a + 1" "a \<noteq> a + 2" "a \<noteq> a + 3" "a + 1 \<noteq> a + 2" "a + 1 \<noteq> a + 3" "a + 2 \<noteq> a + 3" by simp_all
  then have "mem_load32 (mem_store32 a v m) a = ucast (ucast v :: u8) OR push_bit 8 (ucast (ucast (drop_bit 8 v) :: u8)) OR
      push_bit 16 (ucast (ucast (drop_bit 16 v) :: u8)) OR push_bit 24 (ucast (ucast (drop_bit 24 v) :: u8))"
    by (simp add: mem_load32_def mem_store32_def)
  also have "\<dots> = v"
  proof (rule bit_word_eqI)
    fix n
    assume "n < LENGTH(32)"
    then consider "n < 8" | "8 \<le> n" "n < 16" | "16 \<le> n" "n < 24" | "24 \<le> n" "n < 32" by fastforce
    then show "bit (ucast (ucast v :: u8) OR push_bit 8 (ucast (ucast (drop_bit 8 v) :: u8)) OR
      push_bit 16 (ucast (ucast (drop_bit 16 v) :: u8)) OR push_bit 24 (ucast (ucast (drop_bit 24 v) :: u8)) :: u32) n = bit v n"
      by cases (auto simp: bit_simps)
  qed
  finally show ?thesis .
qed

lemma mem_store32_at:
  assumes "x < 0x4000" "s + 4 \<le> 0x4000" "x < s \<or> s + 4 \<le> x"
  shows "mem_store32 (at i s) v m (at i x) = m (at i x)"
  using assms by (auto simp: mem_store32_def at_add_numeral at_inject)

lemma report_copy_at:
  assumes "placed i c" "len \<le> 64"
  defines "s \<equiv> 0x3000 + 68 * (unat (uc_producer c) mod 16)"
  shows "x < s \<or> s + 68 \<le> x \<Longrightarrow> x < 0x4000 \<Longrightarrow> report_copy c (of_nat len) m (at i x) = m (at i x)"
    and "mem_load32 (report_copy c (of_nat len) m) (at i s) = of_nat len"
    and "j < 64 \<Longrightarrow> report_copy c (of_nat len) m (at i (s + 4 + j)) = (if j < len then m (at i (0x2100 + j)) else 0)"
proof -
  let ?m1 = "mem_store32 (at i s) (of_nat len) m"
  let ?m2 = "memset ?m1 (at i (s + 4)) 0 64"
  have s: "s + 68 \<le> 0x4000" "0x3000 \<le> s" unfolding s_def by simp_all
  have set: "?m2 (at i x) = (if s + 4 \<le> x \<and> x < s + 68 then 0 else ?m1 (at i x))" if "x < 0x4000" for x
    using at_range [of x "s + 4" 64 i] that s by (auto simp: memset_eq)
  have apart: "of_nat len \<le> at i (s + 4) - at i 0x2100"
    using at_range [of "s + 4" "0x2100" len i] s assms(2) by (simp add: not_less [symmetric])
  have copy: "report_copy c (of_nat len) m = (\<lambda>a. if a - at i (s + 4) < of_nat len then ?m2 (at i 0x2100 + (a - at i (s + 4))) else ?m2 a)"
    using memcpy_eq [of "at i (s + 4)" "at i 0x2100" "of_nat len" ?m2] apart assms(1)
    by (simp add: report_copy_def report_slot_at [OF assms(1)] s_def [symmetric] at_add_numeral placed_def Let_def at_def add.assoc)
  have eq: "report_copy c (of_nat len) m (at i x) =
      (if s + 4 \<le> x \<and> x < s + 4 + len then ?m2 (at i (0x2100 + (x - (s + 4)))) else ?m2 (at i x))" if "x < 0x4000" for x
  proof -
    have "at i 0x2100 + (at i x - at i (s + 4)) = at i (0x2100 + (x - (s + 4)))" if "s + 4 \<le> x"
      using that by (simp add: at_def of_nat_diff)
    then show ?thesis unfolding copy using at_range [of x "s + 4" len i] that s assms(2) by auto
  qed
  show "report_copy c (of_nat len) m (at i x) = m (at i x)" if "x < s \<or> s + 68 \<le> x" "x < 0x4000"
    using that s assms(2) by (auto simp: eq set mem_store32_at)
  have "report_copy c (of_nat len) m (at i x) = ?m1 (at i x)" if "x < s + 4" "x < 0x4000" for x
    using that by (simp add: eq set)
  then have "mem_load32 (report_copy c (of_nat len) m) (at i s) = mem_load32 ?m1 (at i s)"
    using s by (simp add: mem_load32_def at_add_numeral)
  then show "mem_load32 (report_copy c (of_nat len) m) (at i s) = of_nat len" by (simp add: mem_load32_store32)
  show "report_copy c (of_nat len) m (at i (s + 4 + j)) = (if j < len then m (at i (0x2100 + j)) else 0)" if "j < 64"
    using that s assms(2) by (simp add: eq set mem_store32_at)
qed

lemma mem_store_list_nth:
  "unat a + length bs \<le> 2 ^ 32 \<Longrightarrow> j < length bs \<Longrightarrow> mem_store_list a bs m (a + of_nat j) = bs ! j"
proof (induction bs arbitrary: a m j)
  case (Cons b bs)
  have a: "unat (a + 1) + length bs \<le> 2 ^ 32" if "bs \<noteq> []"
    using Cons.prems(1) that by (simp add: unat_word_ariths)
  show ?case
  proof (cases j)
    case 0
    show ?thesis
    proof (cases "bs = []")
      case False
      then have "unat (a + 1) = unat a + 1" using Cons.prems(1) by (cases bs) (simp_all add: unat_word_ariths)
      then have "mem_store_list (a + 1) bs (m(a := b)) a = b"
        using mem_store_list_outside [of "a + 1" bs a "m(a := b)"] a [OF False] by simp
      then show ?thesis using 0 by simp
    qed (use 0 in simp)
  next
    case (Suc k)
    then have "mem_store_list (a + 1) bs (m(a := b)) (a + 1 + of_nat k) = bs ! k"
      using Cons.IH [of "a + 1" k] Cons.prems a by fastforce
    then show ?thesis using Suc by (simp add: add.assoc)
  qed
qed simp

lemma report_at_cong:
  assumes "\<And>j. j < 68 \<Longrightarrow> m (a + of_nat j) = m' (b + of_nat j)"
  shows "report_at m a = report_at m' b"
proof -
  have "m (a + 4 + of_nat j) = m' (b + 4 + of_nat j)" if "j < 64" for j
    using assms [of "4 + j"] that by (simp add: add.assoc)
  then have "mem_load_list m (a + 4) 64 = mem_load_list m' (b + 4) 64"
    unfolding mem_load_list_def by (intro map_cong [OF refl]) simp
  moreover have "m a = m' b" "m (a + 1) = m' (b + 1)" "m (a + 2) = m' (b + 2)" "m (a + 3) = m' (b + 3)"
    using assms [of 0] assms [of 1] assms [of 2] assms [of 3] by simp_all
  ultimately show ?thesis by (simp add: report_at_def mem_load32_def)
qed

lemma slot_index: "unat (a + of_nat k :: u32) mod 16 = (unat a + k) mod 16"
proof -
  have "unat (a + of_nat k :: u32) = (unat a + k) mod 2 ^ 32"
    by (simp add: unat_word_ariths unat_of_nat mod_add_right_eq)
  then show ?thesis by (simp add: mod_mod_cancel)
qed

lemma slots_apart:
  assumes "k < n" "n < (16 :: nat)"
  shows "(a + k) mod 16 \<noteq> (a + n) mod 16"
  using ring_index_inj [of k 16 n a] assms by auto

section \<open>The contract\<close>

lemma data_write:
  assumes "i < 4" "length bs \<le> 64"
  shows "x < 0x2100 \<or> 0x2140 \<le> x \<Longrightarrow> x < 0x4000 \<Longrightarrow> mem_store_list (at i 0x2100) bs m (at i x) = m (at i x)"
    and "j < length bs \<Longrightarrow> mem_store_list (at i 0x2100) bs m (at i (0x2100 + j)) = bs ! j"
proof -
  have u: "unat (at i y) = 0x30060000 + i * 0x4000 + y" if "y < 0x4000" for y
    using that assms(1) unat_dma [OF assms(1)] by (simp add: at_def unat_word_ariths unat_of_nat)
  show "mem_store_list (at i 0x2100) bs m (at i x) = m (at i x)" if "x < 0x2100 \<or> 0x2140 \<le> x" "x < 0x4000"
    by (rule mem_store_list_outside) (use that assms u in auto)
  show "mem_store_list (at i 0x2100) bs m (at i (0x2100 + j)) = bs ! j" if "j < length bs"
    using mem_store_list_nth [of "at i 0x2100" bs j m] that assms u [of "0x2100"] by (simp add: at_add)
qed

text \<open>The content by offsets, and what leaves it alone.\<close>

lemma content_eq:
  assumes "placed i c"
  shows "uhci_content (r, c, m) = map (\<lambda>k. report_at m (at i (0x3000 + 68 * ((unat (uc_consumer c) + k) mod 16))))
    [0..<unat (uc_producer c - uc_consumer c)]"
  by (simp add: report_slot_at [OF assms] slot_index)

lemma report_at_same:
  assumes "\<And>x. s \<le> x \<Longrightarrow> x < s + 68 \<Longrightarrow> m (at i x) = m' (at i x)"
  shows "report_at m (at i s) = report_at m' (at i s)"
  by (rule report_at_cong) (simp add: at_add assms)

lemma content_same:
  assumes "placed i c" "\<And>x. 0x3000 \<le> x \<Longrightarrow> x < 0x4000 \<Longrightarrow> m (at i x) = m' (at i x)"
  shows "uhci_content (r, c, m) = uhci_content (r', c, m')"
proof -
  have "report_at m (at i (0x3000 + 68 * (k mod 16))) = report_at m' (at i (0x3000 + 68 * (k mod 16)))" for k
  proof (rule report_at_same)
    fix x
    have "68 * (k mod 16) \<le> 1020" by simp
    moreover assume "0x3000 + 68 * (k mod 16) \<le> x" "x < 0x3000 + 68 * (k mod 16) + 68"
    ultimately show "m (at i x) = m' (at i x)" by (intro assms(2)) linarith+
  qed
  then show ?thesis unfolding content_eq [OF assms(1)] by simp
qed

lemma content_complete:
  assumes "i < 4" "placed i c" "uc_producer c - uc_consumer c \<le> 16" "length bs \<le> 64"
  shows "uhci_content (complete_report bs (r, c, m)) =
    (if length (uhci_content (r, c, m)) < 16 then uhci_content (r, c, m) @ [bs] else uhci_content (r, c, m))"
proof -
  let ?n = "unat (uc_producer c - uc_consumer c)"
  define m' where "m' = mem_store_list (at i 0x2100) bs m"
  have data: "uc_interrupt_data c = at i 0x2100" using assms(2) by (simp add: placed_def at_def)
  have same: "uhci_content (r, c, m') = uhci_content (r, c, m)"
    by (rule content_same [OF assms(2)]) (simp add: m'_def data_write(1) [OF assms(1,4)])
  have len: "length (uhci_content (r, c, m)) = ?n" by simp
  show ?thesis
  proof (cases "uc_producer c - uc_consumer c < 16")
    case False
    then have "complete_report bs (r, c, m) = (r, c, m')" by (simp add: uhci_enqueue_def data m'_def Let_def)
    moreover have "\<not> ?n < 16" using False by (simp add: word_less_nat_alt)
    ultimately show ?thesis using same len by simp
  next
    case True
    let ?c = "c\<lparr>uc_producer := uc_producer c + 1\<rparr>" and ?M = "report_copy c (of_nat (length bs)) m'"
    have n: "?n < 16" using True by (simp add: word_less_nat_alt)
    have run: "complete_report bs (r, c, m) = (r, ?c, ?M)"
      using True by (simp add: uhci_enqueue_def data m'_def Let_def)
    have "uc_producer c + 1 - uc_consumer c = (uc_producer c - uc_consumer c) + 1" by simp
    moreover have "unat ((uc_producer c - uc_consumer c) + 1) = Suc ?n" using n by (simp add: unat_word_ariths)
    ultimately have "unat (uc_producer c + 1 - uc_consumer c) = Suc ?n" by (simp only:)
    then have count: "unat (uc_producer ?c - uc_consumer ?c) = Suc ?n" by simp
    define p where "p = unat (uc_producer c) mod 16"
    have "uc_producer c = uc_consumer c + of_nat ?n" by simp
    then have p: "p = (unat (uc_consumer c) + ?n) mod 16" unfolding p_def by (metis slot_index)
    note copy = report_copy_at [OF assms(2,4), where m = m', folded p_def]
    have small: "p < 16" by (simp add: p_def)
    have other: "report_at ?M (at i (0x3000 + 68 * ((unat (uc_consumer c) + k) mod 16))) =
        report_at m' (at i (0x3000 + 68 * ((unat (uc_consumer c) + k) mod 16)))" if "k < ?n" for k
    proof (rule report_at_same)
      fix x
      let ?q = "(unat (uc_consumer c) + k) mod 16"
      assume x: "0x3000 + 68 * ?q \<le> x" "x < 0x3000 + 68 * ?q + 68"
      have "?q < 16" by simp
      moreover have "?q \<noteq> p" unfolding p by (rule slots_apart [OF that n])
      ultimately show "?M (at i x) = m' (at i x)" using x small by (intro copy(1)) linarith+
    qed
    have "mem_load_list ?M (at i (0x3000 + 68 * p) + 4) 64 = bs @ replicate (64 - length bs) 0"
    proof (rule nth_equalityI)
      fix j
      assume "j < length (mem_load_list ?M (at i (0x3000 + 68 * p) + 4) 64)"
      then have j: "j < 64" by (simp add: mem_load_list_def)
      then show "mem_load_list ?M (at i (0x3000 + 68 * p) + 4) 64 ! j = (bs @ replicate (64 - length bs) 0) ! j"
        using copy(3) [of j] data_write(2) [OF assms(1,4), of j m]
        by (simp add: mem_load_list_def at_add_numeral at_add nth_append m'_def [symmetric])
    qed (use assms(4) in \<open>simp add: mem_load_list_def\<close>)
    then have new: "report_at ?M (at i (0x3000 + 68 * p)) = bs"
      using copy(2) assms(4) by (simp add: report_at_def unat_of_nat)
    have place: "placed i ?c" using assms(2) by (simp add: placed_def)
    have "uhci_content (r, ?c, ?M) = map (\<lambda>k. report_at ?M (at i (0x3000 + 68 * ((unat (uc_consumer c) + k) mod 16)))) [0..<?n] @ [bs]"
      unfolding content_eq [OF place] count using new by (simp add: p)
    also have "\<dots> = uhci_content (r, c, m') @ [bs]"
      unfolding content_eq [OF assms(2)] using other by simp
    finally show ?thesis unfolding run using same len n by simp
  qed
qed

lemma read_copies:
  assumes "i < 4" "placed i c" "unat r + 68 \<le> 0x30060000 \<or> 0x30070000 \<le> unat r \<and> unat r + 68 \<le> 2 ^ 32"
  shows "report_at (memcpy m r (report_slot c n) 68) r = report_at m (report_slot c n)"
    and "x < 0x4000 \<Longrightarrow> memcpy m r (report_slot c n) 68 (at i x) = m (at i x)"
proof -
  let ?s = "report_slot c n"
  have s: "0x30060000 \<le> unat ?s" "unat ?s + 68 \<le> 0x30070000"
    using slab_report(3) [OF assms(1,2), of n] by (simp_all add: slab_def)
  have "68 \<le> r - ?s"
  proof (cases "r < ?s")
    case True
    then show ?thesis using wrap_distance [of r ?s 68] s by simp
  next
    case False
    then have "unat (r - ?s) = unat r - unat ?s" by (simp add: unat_sub_le not_less)
    then show ?thesis using False s assms(3) by (auto simp: word_le_nat_alt word_less_nat_alt)
  qed
  then have eq: "memcpy m r ?s 68 = (\<lambda>a. if a - r < 68 then m (?s + (a - r)) else m a)" by (simp add: memcpy_eq)
  show "report_at (memcpy m r ?s 68) r = report_at m ?s"
    by (rule report_at_cong) (simp add: eq word_less_nat_alt unat_of_nat)
  show "memcpy m r ?s 68 (at i x) = m (at i x)" if "x < 0x4000"
  proof -
    have u: "unat (at i x) = 0x30060000 + i * 0x4000 + x"
      using that assms(1) unat_dma [OF assms(1)] by (simp add: at_def unat_word_ariths unat_of_nat)
    have "\<not> at i x - r < 68"
    proof
      assume "at i x - r < 68"
      then have "unat r \<le> unat (at i x) \<and> unat (at i x) < unat r + 68"
        using image_range [of "at i x" r 68] assms(3) by (auto simp: image_at_def)
      then show False using u that assms(1,3) by auto
    qed
    then show ?thesis by (simp add: eq)
  qed
qed

lemma content_read:
  assumes "uhci_queue_ok (r, c, m)" "uhci_content (r, c, m) \<noteq> []"
  shows "uhci_content (r, c, m) = read_front (r, c, m) # uhci_content (read_step (r, c, m))"
    "uhci_queue_ok (read_step (r, c, m))"
proof -
  obtain i where i: "i < 4" "placed i c" using assms(1) by auto
  let ?c = "c\<lparr>uc_consumer := uc_consumer c + 1\<rparr>" and ?M = "memcpy m r (report_slot c (uc_consumer c)) 68"
  define d where "d = uc_producer c - uc_consumer c"
  have d: "unat d \<noteq> 0" "d \<le> 16" using assms by (auto simp: d_def)
  have run: "read_step (r, c, m) = (r, ?c, ?M)" using d by (auto simp: uhci_dequeue_def d_def)
  have "d \<noteq> 0" using d(1) by auto
  then have u: "unat (d - 1) = unat d - 1" by (rule unat_minus_one)
  have minus: "uc_producer c - (uc_consumer c + 1) = d - 1" by (simp add: d_def)
  have place: "placed i ?c" using i(2) by (simp add: placed_def)
  note copy = read_copies [OF i, where r = r and m = m and n = "uc_consumer c"]
  have next_slot: "uc_consumer c + 1 + of_nat k = uc_consumer c + of_nat (Suc k)" for k by simp
  have "uhci_content (r, c, m) = report_at m (report_slot c (uc_consumer c)) #
      map (\<lambda>k. report_at m (report_slot c (uc_consumer c + of_nat (Suc k)))) [0..<unat d - 1]"
  proof -
    obtain n where "unat d = Suc n" using d(1) not0_implies_Suc by blast
    then show ?thesis by (simp add: d_def [symmetric] map_upt_Suc del: upt_Suc)
  qed
  also have "\<dots> = report_at m (report_slot c (uc_consumer c)) # uhci_content (r, ?c, m)"
    by (simp add: minus u next_slot report_slot_def)
  also have "uhci_content (r, ?c, m) = uhci_content (r, ?c, ?M)"
    using assms(1) copy(2) by (intro content_same [OF place]) auto
  also have "report_at m (report_slot c (uc_consumer c)) = read_front (r, c, m)"
    unfolding read_front_def run using assms(1) copy(1) by auto
  finally show "uhci_content (r, c, m) = read_front (r, c, m) # uhci_content (read_step (r, c, m))" by (simp only: run)
  have "d - 1 \<le> 16" using d(2) u by (simp add: word_le_nat_alt)
  then show "uhci_queue_ok (read_step (r, c, m))"
    unfolding run using assms(1) place i(1) by (auto simp: minus)
qed

lemma complete_ok:
  assumes "uhci_queue_ok (r, c, m)"
  shows "uhci_queue_ok (complete_report bs (r, c, m))"
proof (cases "uc_producer c - uc_consumer c < 16")
  case True
  define d where "d = uc_producer c - uc_consumer c"
  have "d + 1 \<le> 16" using True by (simp add: d_def [symmetric] word_less_nat_alt word_le_nat_alt unat_word_ariths)
  moreover have "uc_producer c + 1 - uc_consumer c = d + 1" by (simp add: d_def)
  ultimately have "uc_producer c + 1 - uc_consumer c \<le> 16" by (simp only:)
  then show ?thesis using True assms by (auto simp: uhci_enqueue_def Let_def placed_def)
qed (use assms in \<open>auto simp: uhci_enqueue_def Let_def\<close>)

interpretation uhci_reports: spsc_queue 16 uhci_content uhci_queue_ok "\<lambda>bs. length bs \<le> 64" complete_report read_front read_step
proof unfold_locales
  fix q :: report_queue and bs :: "u8 list"
  obtain r c m where q: "q = (r, c, m)" by (cases q)
  assume ok: "uhci_queue_ok q"
  then show "length (uhci_content q) \<le> 16" unfolding q by (simp add: word_le_nat_alt)
  show "uhci_content q = read_front q # uhci_content (read_step q)" "uhci_queue_ok (read_step q)" if "uhci_content q \<noteq> []"
    using content_read [of r c m] ok that unfolding q by simp_all
  show "uhci_queue_ok (complete_report bs q)" unfolding q using ok complete_ok q by simp
  show "uhci_content (complete_report bs q) = (if length (uhci_content q) < 16 then uhci_content q @ [bs] else uhci_content q)"
    if "length bs \<le> 64"
  proof -
    obtain i where "i < 4" "placed i c" "uc_producer c - uc_consumer c \<le> 16" using ok q by auto
    then show ?thesis unfolding q using that by (rule content_complete)
  qed
qed

section \<open>Streams\<close>

text \<open>
  Device completions (\<open>Some\<close> bytes) and reads (\<open>None\<close>) in any order: the queue at the end, the reports
  accepted and the reports read.
\<close>

fun stream_run :: "report_queue \<Rightarrow> u8 list option list \<Rightarrow> report_queue \<times> u8 list list \<times> u8 list list" where
  "stream_run q [] = (q, [], [])"
| "stream_run (r, c, m) (Some bytes # ops) =
     (let (q', accepted, delivered) = stream_run (complete_report bytes (r, c, m)) ops
      in (q', if uc_producer c - uc_consumer c < 16 then bytes # accepted else accepted, delivered))"
| "stream_run (r, c, m) (None # ops) =
     (if uc_consumer c = uc_producer c then stream_run (r, c, m) ops
      else let (q', accepted, delivered) = stream_run (read_step (r, c, m)) ops
           in (q', accepted, read_front (r, c, m) # delivered))"

lemma stream_run_eq: "stream_run q ops = uhci_reports.run q ops"
proof (induction q ops rule: stream_run.induct)
  case (2 r c m bytes ops)
  then show ?case by (simp add: word_less_nat_alt del: complete_report.simps)
next
  case (3 r c m ops)
  have "uhci_content (r, c, m) = [] \<longleftrightarrow> uc_consumer c = uc_producer c"
    by (simp add: unat_eq_0 eq_commute [of "uc_producer c"])
  then show ?case using 3 by (simp del: uhci_content.simps read_step.simps)
qed simp

section \<open>Properties\<close>

text \<open>
  C33: mouse reports arrive in order and none is lost unseen. From an empty queue, for any interleaving
  of completed transfers (each of at most 64 bytes, stored by the service routine) and calls of
  \<^verbatim>\<open>usb_uhci_read_report\<close>, the reports read, followed by those still queued, are exactly the
  reports accepted, byte for byte and in order; at most 16 are queued, and a report is refused only
  when 16 are. The free-running 32-bit counters may wrap around.
\<close>

theorem usb_reports_fifo:
  assumes "uhci_queue_ok q" "uhci_content q = []" "list_all (\<lambda>op. case op of None \<Rightarrow> True | Some bytes \<Rightarrow> length bytes \<le> 64) ops"
    "stream_run q ops = (q', accepted, delivered)"
  shows "accepted = delivered @ uhci_content q' \<and> length (uhci_content q') \<le> 16"
proof -
  have "length x \<le> 64" if "Some x \<in> set ops" for x using assms(3) that by (auto simp: list_all_iff dest!: bspec [of _ _ "Some x"])
  then show ?thesis
    using uhci_reports.run_fifo [OF assms(1,2) _ assms(4) [unfolded stream_run_eq]] by blast
qed

text \<open>An idle controller after \<^verbatim>\<open>usb_uhci_start_interrupt\<close>, its counters about to wrap around.\<close>

definition wrapping_controller :: uhci_controller where
  "wrapping_controller = (uh_ctl (usb_zero () storage_zero) ! 0)\<lparr>uc_frames := dma_of 0, uc_control_qh := dma_of 0 + 0x1000,
     uc_interrupt_qh := dma_of 0 + 0x1010, uc_control_td := dma_of 0 + 0x1020, uc_interrupt_td := dma_of 0 + 0x1030,
     uc_control_data := dma_of 0 + 0x2000, uc_interrupt_data := dma_of 0 + 0x2100, uc_queue := dma_of 0 + 0x3000,
     uc_producer := 0xFFFFFFFF, uc_consumer := 0xFFFFFFFF, uc_packet := 8, uc_active := 1\<rparr>"

lemma wrapping_ok: "uhci_queue_ok (0x1000, wrapping_controller, \<lambda>_. 0)" "uhci_content (0x1000, wrapping_controller, \<lambda>_. 0) = []"
proof -
  have "placed 0 wrapping_controller" by (simp add: placed_def wrapping_controller_def)
  moreover have "uc_producer wrapping_controller = uc_consumer wrapping_controller" by (simp add: wrapping_controller_def)
  ultimately show "uhci_queue_ok (0x1000, wrapping_controller, \<lambda>_. 0)"
    "uhci_content (0x1000, wrapping_controller, \<lambda>_. 0) = []" by (auto intro: exI [of _ 0])
qed

theorem usb_reports_fifo_witness:
  "case stream_run (0x1000, wrapping_controller, \<lambda>_. 0) [Some [0, 5, 0xFB], Some [1, 0, 0], None, Some [0, 1, 1], None] of
     (q', accepted, delivered) \<Rightarrow> accepted = delivered @ uhci_content q' \<and> length (uhci_content q') \<le> 16"
proof -
  let ?ops = "[Some [0, 5, 0xFB], Some [1, 0, 0], None, Some [0, 1, 1], None] :: u8 list option list"
  obtain q' accepted delivered where run: "stream_run (0x1000, wrapping_controller, \<lambda>_. 0) ?ops = (q', accepted, delivered)"
    by (cases "stream_run (0x1000, wrapping_controller, \<lambda>_. 0) ?ops") (metis prod.exhaust)
  have "list_all (\<lambda>op. case op of None \<Rightarrow> True | Some bytes \<Rightarrow> length bytes \<le> 64) ?ops" by simp
  then show ?thesis unfolding run using usb_reports_fifo [OF wrapping_ok _ run] by simp
qed

end
