(* ===== verification/Usb_Mouse.thy ===== *)
theory Usb_Mouse
  imports Usb_Queue
begin

text \<open>
  Discovery of boot mice, \<^verbatim>\<open>Drivers/Usb/UsbMouse.c\<close>: the parser of configuration descriptors,
  the probe of a root port over control transfers of the host driver, the scan at boot and the
  idle task that handles hot plugging. The host driver is a field of the state.
\<close>

abbreviation (input) USB_MOUSE_ABSENT :: u32 where "USB_MOUSE_ABSENT \<equiv> 1"
abbreviation (input) USB_MOUSE_NOT_SUPPORTED :: u32 where "USB_MOUSE_NOT_SUPPORTED \<equiv> 2"
abbreviation (input) USB_MOUSE_BAD_DESCRIPTOR :: u32 where "USB_MOUSE_BAD_DESCRIPTOR \<equiv> 3"
abbreviation (input) USB_MOUSE_CONTROL_FAILED :: u32 where "USB_MOUSE_CONTROL_FAILED \<equiv> 4"
abbreviation (input) USB_MOUSE_START_FAILED :: u32 where "USB_MOUSE_START_FAILED \<equiv> 5"
abbreviation (input) USB_MOUSE_STREAMING :: u32 where "USB_MOUSE_STREAMING \<equiv> 6"

section \<open>State\<close>

record usb_mouse_interface =
  mi_configuration :: u32
  mi_interface_number :: u32
  mi_endpoint :: u32
  mi_packet :: u32
  mi_interval :: u32

record usb_mouse_port =
  pt_status :: u32
  pt_address :: u32
  pt_low_speed :: u32
  pt_vendor :: u32
  pt_product :: u32
  pt_interface :: usb_mouse_interface
  pt_scheduled_interval :: u32

record hotplug =
  hp_generation :: u32
  hp_connected :: u32
  hp_attempted :: u32

record 'm usb_mouse =
  um_host :: "'m usb_host"
  um_mouse_count :: u32
  um_port :: "usb_mouse_port list list"
  um_boot_mouse_count :: u32
  um_configuration_buffer :: "u8 list"
  um_initialized :: u32
  um_hotplug :: "hotplug list list"

definition no_interface :: usb_mouse_interface where
  "no_interface = \<lparr>mi_configuration = 0, mi_interface_number = 0, mi_endpoint = 0, mi_packet = 0, mi_interval = 0\<rparr>"

definition no_port :: usb_mouse_port where
  "no_port = \<lparr>pt_status = 0, pt_address = 0, pt_low_speed = 0, pt_vendor = 0, pt_product = 0,
     pt_interface = no_interface, pt_scheduled_interval = 0\<rparr>"

section \<open>Descriptors\<close>

text \<open>Two bytes of a buffer, low byte first.\<close>

definition read16 :: "u8 list \<Rightarrow> nat \<Rightarrow> u32" where
  "read16 bytes offset = ucast (bytes ! offset) OR push_bit 8 (ucast (bytes ! (offset + 1)))"

definition usb_mouse_poll_interval :: "u32 \<Rightarrow> u32 \<Rightarrow> u32" where
  "usb_mouse_poll_interval low_speed advertised_ms =
     (if low_speed > 1 \<or> advertised_ms = 0 \<or> advertised_ms > 255 then 0
      else if low_speed = 0 \<and> advertised_ms > 1 then 1 else advertised_ms)"

text \<open>
  The parser, as a function on the bytes. \<open>None\<close> is a read outside the buffer, which is undefined in
  C and is shown not to happen. Otherwise \<open>Inl ()\<close> is the result \<^verbatim>\<open>-1\<close>, and \<open>Inr\<close> the interface
  found, if any. The variables of the loop are a record.
\<close>

record scan_state =
  sc_candidate :: bool
  sc_number :: u32
  sc_found :: "usb_mouse_interface option"
  sc_have_interface :: bool
  sc_endpoints :: u32
  sc_expected :: u32

text \<open>An interface descriptor, lines 55 to 63.\<close>

definition scan_interface :: "u8 list \<Rightarrow> nat \<Rightarrow> nat \<Rightarrow> scan_state \<Rightarrow> (unit + scan_state) option" where
  "scan_interface data offset len s =
     (if len < 9 \<or> (sc_have_interface s \<and> sc_endpoints s \<noteq> sc_expected s) then Some (Inl ())
      else Option.bind (rd data (offset + 2)) (\<lambda>d2. Option.bind (rd data (offset + 3)) (\<lambda>d3.
           Option.bind (rd data (offset + 4)) (\<lambda>d4. Option.bind (rd data (offset + 5)) (\<lambda>d5.
           Option.bind (rd data (offset + 6)) (\<lambda>d6. Option.bind (rd data (offset + 7)) (\<lambda>d7.
             Some (Inr (s\<lparr>sc_have_interface := True, sc_endpoints := 0, sc_expected := ucast d4, sc_number := ucast d2,
               sc_candidate := (d3 = 0 \<and> d5 = 3 \<and> d6 = 1 \<and> d7 = 2)\<rparr>)))))))))"

text \<open>The endpoint of a candidate interface, lines 70 to 79.\<close>

definition select_endpoint :: "u8 \<Rightarrow> u32 \<Rightarrow> u8 \<Rightarrow> u8 \<Rightarrow> u32 \<Rightarrow> u8 \<Rightarrow> scan_state \<Rightarrow> unit + scan_state" where
  "select_endpoint d5 low d2 d3 packet d6 s =
     (if sc_candidate s \<and> sc_found s = None \<and> d2 AND 0x80 \<noteq> 0 \<and> d3 AND 3 = 3 then
        (if d2 AND 15 = 0 \<or> d2 AND 0x70 \<noteq> 0 \<or> packet < 3 \<or> packet > (if low \<noteq> 0 then 8 else 64) \<or> d6 = 0 \<or>
            (low \<noteq> 0 \<and> d6 < 10) then Inl ()
         else Inr (s\<lparr>sc_found := Some \<lparr>mi_configuration = ucast d5, mi_interface_number = sc_number s,
                mi_endpoint = ucast (d2 AND 15), mi_packet = packet, mi_interval = ucast d6\<rparr>\<rparr>))
      else Inr s)"

definition scan_endpoint :: "u8 list \<Rightarrow> nat \<Rightarrow> nat \<Rightarrow> u32 \<Rightarrow> scan_state \<Rightarrow> (unit + scan_state) option" where
  "scan_endpoint data offset len low s =
     (if len < 7 \<or> \<not> sc_have_interface s \<or> sc_endpoints s + 1 > sc_expected s then Some (Inl ())
      else Option.bind (rd data (offset + 2)) (\<lambda>d2. Option.bind (rd data (offset + 3)) (\<lambda>d3.
           Option.bind (rd data (offset + 4)) (\<lambda>p0. Option.bind (rd data (offset + 5)) (\<lambda>p1.
           Option.bind (rd data (offset + 6)) (\<lambda>d6. Option.bind (rd data 5) (\<lambda>d5.
             Some (select_endpoint d5 low d2 d3 (read16 [p0, p1] 0) d6
               (s\<lparr>sc_endpoints := sc_endpoints s + 1\<rparr>)))))))))"

definition scan_descriptor :: "u8 list \<Rightarrow> nat \<Rightarrow> nat \<Rightarrow> u32 \<Rightarrow> scan_state \<Rightarrow> (unit + scan_state) option" where
  "scan_descriptor data offset len low s = Option.bind (rd data (offset + 1)) (\<lambda>kind.
     if kind = 4 then scan_interface data offset len s
     else if kind = 5 then scan_endpoint data offset len low s
     else if kind = 2 \<or> kind = 1 then Some (Inl ())
     else Some (Inr s))"

function scan_from :: "u8 list \<Rightarrow> nat \<Rightarrow> nat \<Rightarrow> u32 \<Rightarrow> scan_state \<Rightarrow> (unit + usb_mouse_interface option) option" where
  "scan_from data extent offset low s =
     (if offset < extent then
        (if extent - offset < 2 then Some (Inl ())
         else case rd data offset of None \<Rightarrow> None
           | Some b \<Rightarrow> let len = unat b
               in if len < 2 \<or> len > extent - offset then Some (Inl ())
                  else case scan_descriptor data offset len low s of
                      None \<Rightarrow> None
                    | Some (Inl u) \<Rightarrow> Some (Inl ())
                    | Some (Inr t) \<Rightarrow> scan_from data extent (offset + len) low t)
      else if sc_have_interface s \<and> sc_endpoints s \<noteq> sc_expected s then Some (Inl ())
      else Some (Inr (sc_found s)))"
  by pat_completeness auto
termination
  by (relation "measure (\<lambda>(data, extent, offset, low, s). extent - offset)") auto

declare scan_from.simps [simp del]

definition usb_mouse_find_interface ::
  "u8 list option \<Rightarrow> u32 \<Rightarrow> u32 \<Rightarrow> (unit + usb_mouse_interface option) option" where
  "usb_mouse_find_interface pointer extent low = (case pointer of None \<Rightarrow> Some (Inl ())
     | Some data \<Rightarrow> (if low > 1 \<or> extent < 9 \<or> extent > 4096 then Some (Inl ())
       else Option.bind (rd data 0) (\<lambda>d0. Option.bind (rd data 1) (\<lambda>d1. Option.bind (rd data 2) (\<lambda>d2.
            Option.bind (rd data 3) (\<lambda>d3. Option.bind (rd data 5) (\<lambda>d5.
              if d0 \<noteq> 9 \<or> d1 \<noteq> 2 \<or> read16 [d2, d3] 0 \<noteq> extent \<or> d5 = 0 then Some (Inl ())
              else scan_from data (unat extent) 9 low
                \<lparr>sc_candidate = False, sc_number = 0, sc_found = None, sc_have_interface = False, sc_endpoints = 0,
                 sc_expected = 0\<rparr>)))))))"

section \<open>Probing a port\<close>

definition in_host :: "('m usb_host, 'a) prog \<Rightarrow> ('m usb_mouse, 'a) prog" where
  "in_host = zoom um_host (\<lambda>v s. s\<lparr>um_host := v\<rparr>)"

definition set_port :: "u32 \<Rightarrow> u32 \<Rightarrow> (usb_mouse_port \<Rightarrow> usb_mouse_port) \<Rightarrow> ('m usb_mouse, unit) prog" where
  "set_port controller port f = modify (\<lambda>s. s\<lparr>um_port := (um_port s)[unat controller :=
     (um_port s ! unat controller)[unat port := f (um_port s ! unat controller ! unat port)]]\<rparr>)"

definition get_port :: "u32 \<Rightarrow> u32 \<Rightarrow> ('m usb_mouse, usb_mouse_port) prog" where
  "get_port controller port = gets (\<lambda>s. um_port s ! unat controller ! unat port)"

definition set_status :: "u32 \<Rightarrow> u32 \<Rightarrow> u32 \<Rightarrow> ('m usb_mouse, unit) prog" where
  "set_status controller port status = set_port controller port (\<lambda>i. i\<lparr>pt_status := status\<rparr>)"

definition setup_bytes :: "u32 \<Rightarrow> u32 \<Rightarrow> u32 \<Rightarrow> u32 \<Rightarrow> u32 \<Rightarrow> u8 list" where
  "setup_bytes kind operation value index len = [ucast kind, ucast operation, ucast value, ucast (drop_bit 8 value),
     ucast index, ucast (drop_bit 8 index), ucast len, ucast (drop_bit 8 len)]"

definition request :: "u32 \<Rightarrow> u32 \<Rightarrow> u32 \<Rightarrow> u32 \<Rightarrow> u32 \<Rightarrow> u32 \<Rightarrow> u32 \<Rightarrow> u32 \<Rightarrow> u8 list option \<Rightarrow>
    ('m usb_mouse, int \<times> u8 list) prog" where
  "request controller port packet kind operation value index len data = bind (get_port controller port) (\<lambda>info.
     in_host (usb_uhci_control controller (pt_address info) (pt_low_speed info) packet
       (Some (setup_bytes kind operation value index len)) data))"

text \<open>The same into the static configuration buffer, \<^verbatim>\<open>scratch\<close> in the source.\<close>

definition request_scratch :: "u32 \<Rightarrow> u32 \<Rightarrow> u32 \<Rightarrow> u32 \<Rightarrow> u32 \<Rightarrow> ('m usb_mouse, int) prog" where
  "request_scratch controller port packet value len = bind (gets um_configuration_buffer) (\<lambda>buffer.
    bind (request controller port packet 0x80 6 value 0 len (Some buffer)) (\<lambda>(result, buffer).
    andthen (modify (\<lambda>s. s\<lparr>um_configuration_buffer := buffer\<rparr>))
    (ret result)))"

text \<open>
  Lines 116 to 146: reset, the two reads of the device descriptor and the new address. The result is
  \<open>None\<close> where the source goes to \<^verbatim>\<open>failed\<close>, else the packet size of endpoint zero and the
  number of configurations.
\<close>

definition probe_device :: "u32 \<Rightarrow> u32 \<Rightarrow> ('m usb_mouse, (u32 \<times> nat) option) prog" where
  "probe_device controller port = bind (in_host (usb_uhci_reset_port controller port)) (\<lambda>speed.
    if speed = 0 then ret None
    else andthen (set_port controller port (\<lambda>i. i\<lparr>pt_low_speed := c_bool (speed = 2), pt_status := USB_MOUSE_CONTROL_FAILED\<rparr>))
    (bind (request controller port 8 0x80 6 0x0100 0 8 (Some (replicate 18 0))) (\<lambda>(got, device).
    if got \<noteq> 8 then ret None
    else andthen (set_status controller port USB_MOUSE_BAD_DESCRIPTOR)
    (let packet = ucast (device ! 7) :: u32
    in if device ! 0 \<noteq> 18 \<or> device ! 1 \<noteq> 1 \<or> (packet \<noteq> 8 \<and> packet \<noteq> 16 \<and> packet \<noteq> 32 \<and> packet \<noteq> 64) \<or>
      (speed = 2 \<and> packet \<noteq> 8) then ret None
    else andthen (set_status controller port USB_MOUSE_CONTROL_FAILED)
    (let address = port + 1
    in bind (request controller port packet 0 5 address 0 0 None) (\<lambda>(got, ignored).
    if got \<noteq> 0 then ret None
    else andthen (in_host (usb_uhci_delay 2))
    (andthen (set_port controller port (\<lambda>i. i\<lparr>pt_address := address\<rparr>))
    (bind (request controller port packet 0x80 6 0x0100 0 18 (Some device)) (\<lambda>(got, device).
    if got \<noteq> 18 then ret None
    else andthen (set_status controller port USB_MOUSE_BAD_DESCRIPTOR)
    (if device ! 0 \<noteq> 18 \<or> device ! 1 \<noteq> 1 \<or> ucast (device ! 7) \<noteq> packet \<or> device ! 17 = 0 then ret None
    else andthen (set_port controller port (\<lambda>i. i\<lparr>pt_vendor := read16 device 8, pt_product := read16 device 10,
      pt_status := USB_MOUSE_NOT_SUPPORTED\<rparr>))
    (if device ! 4 = 9 \<or> device ! 17 > 8 then ret None
    else ret (Some (packet, unat (device ! 17))))))))))))))"

text \<open>
  Lines 166 to 187: the mouse interface is selected and its endpoint scheduled; \<open>True\<close> when the
  stream runs.
\<close>

definition configure_mouse :: "u32 \<Rightarrow> u32 \<Rightarrow> u32 \<Rightarrow> usb_mouse_interface \<Rightarrow> ('m usb_mouse, bool) prog" where
  "configure_mouse controller port packet face = andthen (set_status controller port USB_MOUSE_CONTROL_FAILED)
    (bind (request controller port packet 0 9 (mi_configuration face) 0 0 None) (\<lambda>(got, ignored).
    if got \<noteq> 0 then ret False
    else bind (request controller port packet 0x21 11 0 (mi_interface_number face) 0 None) (\<lambda>(got, ignored).
    if got \<noteq> 0 then ret False
    else andthen (request controller port packet 0x21 10 0 (mi_interface_number face) 0 None)
    (andthen (set_status controller port USB_MOUSE_START_FAILED)
    (bind (get_port controller port) (\<lambda>info.
    let interval = usb_mouse_poll_interval (pt_low_speed info) (mi_interval face)
    in andthen (set_port controller port (\<lambda>i. i\<lparr>pt_scheduled_interval := interval\<rparr>))
    (bind (in_host (usb_uhci_start_interrupt controller port (port + 1) (mi_endpoint face) (pt_low_speed info)
      (mi_packet face) interval)) (\<lambda>started.
    if started = 0 then ret False
    else andthen (set_status controller port USB_MOUSE_STREAMING)
    (ret True)))))))))"

text \<open>
  One round of the loop over configurations: \<open>Some True\<close> is the return with 1, \<open>Some False\<close> is
  \<^verbatim>\<open>goto failed\<close>, \<open>None\<close> continues with the next configuration.
\<close>

definition undefined_read :: string where
  "undefined_read = ''undefined: read outside the configuration buffer''"

definition try_mouse_configuration :: "u32 \<Rightarrow> u32 \<Rightarrow> u32 \<Rightarrow> nat \<Rightarrow> ('m usb_mouse, bool option) prog" where
  "try_mouse_configuration controller port packet config = andthen (set_status controller port USB_MOUSE_CONTROL_FAILED)
    (bind (request_scratch controller port packet (0x0200 OR of_nat config) 9) (\<lambda>got.
    if got \<noteq> 9 then ret (Some False)
    else bind (gets um_configuration_buffer) (\<lambda>scratch.
    let len = read16 scratch 2
    in andthen (set_status controller port USB_MOUSE_BAD_DESCRIPTOR)
    (if scratch ! 0 \<noteq> 9 \<or> scratch ! 1 \<noteq> 2 \<or> len < 9 \<or> scratch ! 5 = 0 then ret (Some False)
    else if len > 4096 then ret None
    else andthen (set_status controller port USB_MOUSE_CONTROL_FAILED)
    (bind (request_scratch controller port packet (0x0200 OR of_nat config) len) (\<lambda>got.
    if got \<noteq> uint len then ret (Some False)
    else bind (gets um_configuration_buffer) (\<lambda>scratch.
    bind (get_port controller port) (\<lambda>info.
    case usb_mouse_find_interface (Some scratch) len (pt_low_speed info) of
      None \<Rightarrow> panic undefined_read
    | Some (Inl u) \<Rightarrow> andthen (set_status controller port USB_MOUSE_BAD_DESCRIPTOR)
      (ret (Some False))
    | Some (Inr None) \<Rightarrow> andthen (set_status controller port USB_MOUSE_BAD_DESCRIPTOR)
      (ret None)
    | Some (Inr (Some face)) \<Rightarrow> andthen (set_port controller port (\<lambda>i. i\<lparr>pt_interface := face, pt_status := USB_MOUSE_BAD_DESCRIPTOR\<rparr>))
      (bind (configure_mouse controller port packet face) (\<lambda>ok.
      ret (Some ok)))))))))))"

definition probe_failed :: "u32 \<Rightarrow> u32 \<Rightarrow> ('m usb_mouse, u32) prog" where
  "probe_failed controller port = andthen (in_host (usb_uhci_disable_port controller port))
    (ret 0)"

definition usb_mouse_probe_port :: "u32 \<Rightarrow> u32 \<Rightarrow> ('m usb_mouse, u32) prog" where
  "usb_mouse_probe_port controller port = (if controller \<ge> 4 \<or> port > 1 then ret 0
    else andthen (set_port controller port (\<lambda>_. no_port\<lparr>pt_status := USB_MOUSE_ABSENT\<rparr>))
    (bind (probe_device controller port) (\<lambda>device.
    case device of None \<Rightarrow> probe_failed controller port
    | Some (packet, configurations) \<Rightarrow> bind (for_until 0 configurations (try_mouse_configuration controller port packet)) (\<lambda>result.
      case result of Some True \<Rightarrow> ret 1
        | Some False \<Rightarrow> probe_failed controller port
        | None \<Rightarrow> andthen (set_status controller port USB_MOUSE_NOT_SUPPORTED)
          (probe_failed controller port)))))"

section \<open>Boot and hot plug\<close>

definition host_status :: "u32 \<Rightarrow> ('m usb_mouse, u32) prog" where
  "host_status controller = gets (\<lambda>s. ci_status (uh_info (um_host s) ! unat controller))"

definition set_hotplug :: "u32 \<Rightarrow> u32 \<Rightarrow> (hotplug \<Rightarrow> hotplug) \<Rightarrow> ('m usb_mouse, unit) prog" where
  "set_hotplug controller port f = modify (\<lambda>s. s\<lparr>um_hotplug := (um_hotplug s)[unat controller :=
     (um_hotplug s ! unat controller)[unat port := f (um_hotplug s ! unat controller ! unat port)]]\<rparr>)"

text \<open>Lines 218 to 220, and lines 243 and 244.\<close>

definition port_view :: "'m usb_mouse \<Rightarrow> u32 \<Rightarrow> u32 \<Rightarrow> u32 \<times> u32" where
  "port_view s controller port = (ci_port_status (uh_info (um_host s) ! unat controller) ! unat port AND 1,
     uh_port_generation (um_host s) ! unat controller ! unat port)"

definition record_port :: "u32 \<Rightarrow> u32 \<Rightarrow> ('m usb_mouse, unit) prog" where
  "record_port controller port = bind (gets id) (\<lambda>s.
     set_hotplug controller port (\<lambda>h. h\<lparr>hp_connected := fst (port_view s controller port),
       hp_generation := snd (port_view s controller port),
       hp_attempted := c_bool (pt_status (um_port s ! unat controller ! unat port) \<noteq> 0)\<rparr>))"

definition boot_controller :: "nat \<Rightarrow> ('m usb_mouse, unit) prog" where
  "boot_controller n = (let controller = of_nat n :: u32
    in bind (host_status controller) (\<lambda>status.
    if status \<noteq> UHCI_READY then ret ()
    else andthen (in_host (usb_uhci_disable_port controller 0))
    (andthen (in_host (usb_uhci_disable_port controller 1))
    (andthen (in_host (usb_uhci_delay 100))
    (andthen (for_until 0 2 (\<lambda>k. bind (usb_mouse_probe_port controller (of_nat k)) (\<lambda>found.
      bind (host_status controller) (\<lambda>status.
      if found \<noteq> 0 then andthen (modify (\<lambda>s. s\<lparr>um_mouse_count := um_mouse_count s + 1\<rparr>))
        (ret (Some ()))
      else ret (if status \<noteq> UHCI_READY then Some () else None)))))
    (andthen (record_port controller 0)
    (record_port controller 1)))))))"

definition usb_mouse_initialize :: "('m usb_mouse, u32) prog" where
  "usb_mouse_initialize = bind (gets um_initialized) (\<lambda>done.
    andthen (cond (done = 0) (andthen (modify (\<lambda>s. s\<lparr>um_initialized := 1\<rparr>))
      (andthen (for_each 0 4 boot_controller)
      (modify (\<lambda>s. s\<lparr>um_boot_mouse_count := um_mouse_count s\<rparr>)))))
    (gets um_mouse_count))"

text \<open>The inner loop body of \<^verbatim>\<open>usb_mouse_service\<close>; it returns the mask of active controllers.\<close>

definition service_port :: "u32 \<Rightarrow> u32 \<Rightarrow> u32 \<Rightarrow> ('m usb_mouse, u32) prog" where
  "service_port ident port active = (let b = push_bit (unat ident) 1 :: u32
    in bind (get_port ident port) (\<lambda>info.
    andthen (cond (pt_status info = USB_MOUSE_STREAMING \<and> active AND b = 0) (andthen (set_status ident port USB_MOUSE_ABSENT)
      (set_hotplug ident port (\<lambda>h. h\<lparr>hp_connected := 0, hp_attempted := 0\<rparr>))))
    (bind (host_status ident) (\<lambda>status.
    if status \<noteq> UHCI_READY then ret active
    else bind (gets (\<lambda>s. port_view s ident port)) (\<lambda>view.
    bind (gets (\<lambda>s. um_hotplug s ! unat ident ! unat port)) (\<lambda>known.
    if fst view \<noteq> hp_connected known \<or> snd view \<noteq> hp_generation known then andthen (set_hotplug ident port (\<lambda>h. h\<lparr>hp_connected := fst view, hp_generation := snd view, hp_attempted := 0\<rparr>))
      (andthen (cond (fst view = 0) (set_status ident port USB_MOUSE_ABSENT))
      (ret active))
    else if fst view = 0 \<or> active AND b \<noteq> 0 \<or> hp_attempted known \<noteq> 0 then ret active
    else andthen (set_hotplug ident port (\<lambda>h. h\<lparr>hp_attempted := 1\<rparr>))
    (andthen (in_host (usb_uhci_disable_port ident 0))
    (andthen (in_host (usb_uhci_disable_port ident 1))
    (bind (usb_mouse_probe_port ident port) (\<lambda>found.
    ret (if found \<noteq> 0 then active OR b else active)))))))))))"

fun service_scan :: "nat \<Rightarrow> nat \<Rightarrow> u32 \<Rightarrow> u32 \<Rightarrow> ('m usb_mouse, u32) prog" where
  "service_scan i 0 active count = ret count"
| "service_scan i (Suc n) active count = bind (service_port (of_nat i) 0 active) (\<lambda>active.
  bind (service_port (of_nat i) 1 active) (\<lambda>active.
  service_scan (Suc i) n active (if active AND push_bit i 1 \<noteq> 0 then count + 1 else count)))"

definition usb_mouse_service :: "('m usb_mouse, unit) prog" where
  "usb_mouse_service = bind (gets um_initialized) (\<lambda>done.
    if done = 0 then ret ()
    else bind (in_host usb_host_poll) (\<lambda>active.
    bind (in_host usb_uhci_hotplug_due) (\<lambda>due.
    if \<not> due then ret ()
    else bind (service_scan 0 4 active 0) (\<lambda>count.
    modify (\<lambda>s. s\<lparr>um_mouse_count := count\<rparr>)))))"

section \<open>The parser\<close>

lemma interval_from_pos: "result \<noteq> 0 \<Longrightarrow> interval_from result ms \<noteq> 0"
proof (induction result ms rule: interval_from.induct)
  case (1 result ms)
  show ?case
  proof (cases "result \<noteq> 0 \<and> ms \<le> 255 \<and> result \<le> ms \<and> result * 2 \<le> ms")
    case True
    then have "unat result \<le> 255" "0 < unat result" by (auto simp: word_le_nat_alt unat_gt_0)
    then have "unat (result * 2) = unat result * 2" by (simp add: unat_word_ariths)
    then have "result * 2 \<noteq> 0" using \<open>0 < unat result\<close> by (metis mult_is_0 neq0_conv unat_0 zero_neq_numeral)
    then show ?thesis using "1.IH" [OF True] True by (subst interval_from.simps) simp
  qed (use "1.prems" in \<open>subst interval_from.simps, auto\<close>)
qed

lemma uhci_interval_pos: "ms \<noteq> 0 \<Longrightarrow> ms \<le> 255 \<Longrightarrow> uhci_interval ms \<noteq> 0"
  by (simp add: uhci_interval_def interval_from_pos not_less [symmetric])

text \<open>An endpoint that the host driver accepts for a stream.\<close>

definition face_ok :: "u8 \<Rightarrow> u32 \<Rightarrow> usb_mouse_interface \<Rightarrow> bool" where
  "face_ok d5 low i \<longleftrightarrow> mi_configuration i = ucast d5 \<and> 1 \<le> mi_endpoint i \<and> mi_endpoint i \<le> 15 \<and>
     3 \<le> mi_packet i \<and> mi_packet i \<le> (if low \<noteq> 0 then 8 else 64) \<and> mi_interval i \<noteq> 0 \<and> mi_interval i \<le> 255"

definition scan_ok :: "u8 \<Rightarrow> u32 \<Rightarrow> scan_state \<Rightarrow> bool" where
  "scan_ok d5 low s \<longleftrightarrow> (case sc_found s of None \<Rightarrow> True | Some i \<Rightarrow> face_ok d5 low i)"

lemma select_endpoint_ok:
  assumes "scan_ok d5 low s" "select_endpoint d5 low d2 d3 packet d6 s = Inr t"
  shows "scan_ok d5 low t"
proof -
  have "1 \<le> (ucast (d2 AND 15) :: u32) \<and> (ucast (d2 AND 15) :: u32) \<le> 15" if "d2 AND 15 \<noteq> 0"
  proof -
    have "unat (d2 AND 15) \<le> 15" using word_and_le1 [of d2 15] by (simp add: word_le_nat_alt)
    moreover have "0 < unat (d2 AND 15)" using that by (simp add: unat_gt_0)
    ultimately show ?thesis by (simp add: word_le_nat_alt unat_ucast_u8_u32)
  qed
  moreover have "(ucast d6 :: u32) \<noteq> 0" if "d6 \<noteq> 0" using that by (simp add: word_unat_eq_iff unat_ucast_u8_u32)
  moreover have "(ucast d6 :: u32) \<le> 255" using ucast_u8_less [of d6] by (simp add: word_le_nat_alt word_less_nat_alt)
  ultimately show ?thesis
    using assms by (auto simp: select_endpoint_def scan_ok_def face_ok_def not_less split: if_splits)
qed

lemma scan_descriptor_spec:
  assumes "offset + len \<le> length data" "9 \<le> length data" "2 \<le> len" "scan_ok (data ! 5) low s"
  shows "\<exists>r. scan_descriptor data offset len low s = Some r \<and> (\<forall>t. r = Inr t \<longrightarrow> scan_ok (data ! 5) low t)"
proof -
  have rd: "rd data (offset + k) = Some (data ! (offset + k))" if "k < len" for k using assms(1) that by (simp add: rd_def)
  have rd2: "rd data (Suc (Suc offset)) = Some (data ! (offset + 2))" if "2 < len" using rd [of 2] that by simp
  have rd5: "rd data 5 = Some (data ! 5)" using assms(2) by (simp add: rd_def)
  have "\<exists>r. scan_interface data offset len s = Some r \<and> (\<forall>t. r = Inr t \<longrightarrow> scan_ok (data ! 5) low t)"
    using assms(4) by (cases "len < 9") (auto simp: scan_interface_def rd rd2 scan_ok_def)
  moreover have "\<exists>r. scan_endpoint data offset len low s = Some r \<and> (\<forall>t. r = Inr t \<longrightarrow> scan_ok (data ! 5) low t)"
  proof (cases "len < 7 \<or> \<not> sc_have_interface s \<or> sc_endpoints s + 1 > sc_expected s")
    case False
    moreover have "scan_ok (data ! 5) low (s\<lparr>sc_endpoints := sc_endpoints s + 1\<rparr>)" using assms(4) by (simp add: scan_ok_def)
    ultimately show ?thesis by (auto simp: scan_endpoint_def rd rd2 rd5 intro: select_endpoint_ok)
  qed (auto simp: scan_endpoint_def)
  ultimately show ?thesis
    using assms(3,4) rd [of 1] by (simp add: scan_descriptor_def)
qed

lemma scan_from_spec:
  assumes "extent \<le> length data" "9 \<le> length data"
  shows "scan_ok (data ! 5) low s \<Longrightarrow> \<exists>r. scan_from data extent offset low s = Some r \<and>
    (\<forall>i. r = Inr (Some i) \<longrightarrow> face_ok (data ! 5) low i)"
proof (induction "extent - offset" arbitrary: offset s rule: less_induct)
  case less
  let ?len = "unat (data ! offset)"
  consider "\<not> offset < extent" | "offset < extent" "extent - offset < 2 \<or> ?len < 2 \<or> ?len > extent - offset"
    | "offset < extent" "\<not> extent - offset < 2" "2 \<le> ?len" "offset + ?len \<le> extent" by fastforce
  then show ?case
  proof cases
    case 1
    then show ?thesis using less.prems by (subst scan_from.simps) (auto simp: scan_ok_def split: option.splits)
  next
    case 2
    then have "rd data offset = Some (data ! offset)" using assms(1) by (simp add: rd_def)
    then show ?thesis using 2 by (subst scan_from.simps) (auto simp: Let_def)
  next
    case 3
    have rd: "rd data offset = Some (data ! offset)" using assms(1) 3 by (simp add: rd_def)
    have "offset + ?len \<le> length data" using 3 assms(1) by simp
    then obtain r where r: "scan_descriptor data offset ?len low s = Some r" "\<forall>t. r = Inr t \<longrightarrow> scan_ok (data ! 5) low t"
      using scan_descriptor_spec [OF _ assms(2) 3(3) less.prems] by blast
    show ?thesis
    proof (cases r)
      case (Inl u)
      then show ?thesis using 3 rd r(1) by (subst scan_from.simps) (simp add: Let_def)
    next
      case (Inr t)
      then have "scan_from data extent offset low s = scan_from data extent (offset + ?len) low t"
        using 3 rd r(1) by (subst scan_from.simps) (auto simp: Let_def)
      then show ?thesis using less.hyps [of "offset + ?len" t] 3 r(2) Inr by simp
    qed
  qed
qed

lemma find_interface_spec:
  assumes "unat extent \<le> length data"
  shows "\<exists>r. usb_mouse_find_interface (Some data) extent low = Some r \<and>
    (\<forall>i. r = Inr (Some i) \<longrightarrow> data ! 5 \<noteq> 0 \<and> low \<le> 1 \<and> face_ok (data ! 5) low i)"
proof (cases "low > 1 \<or> extent < 9 \<or> extent > 4096")
  case False
  then have n: "9 \<le> length data" using assms by (auto simp: word_less_nat_alt)
  then have rds: "rd data k = Some (data ! k)" if "k < 9" for k using that by (simp add: rd_def)
  let ?s = "\<lparr>sc_candidate = False, sc_number = 0, sc_found = None, sc_have_interface = False, sc_endpoints = 0, sc_expected = 0\<rparr>"
  have "scan_ok (data ! 5) low ?s" by (simp add: scan_ok_def)
  then obtain r where "scan_from data (unat extent) 9 low ?s = Some r" "\<forall>i. r = Inr (Some i) \<longrightarrow> face_ok (data ! 5) low i"
    using scan_from_spec [OF assms n] by blast
  then show ?thesis using False rds by (auto simp: usb_mouse_find_interface_def)
qed (auto simp: usb_mouse_find_interface_def)

lemma poll_interval_pos: "low \<le> 1 \<Longrightarrow> ms \<noteq> 0 \<Longrightarrow> ms \<le> 255 \<Longrightarrow> uhci_interval (usb_mouse_poll_interval low ms) \<noteq> 0"
  by (simp add: usb_mouse_poll_interval_def uhci_interval_pos not_less)

end
