(* ===== verification/Usb_Mouse_Safety.thy ===== *)
theory Usb_Mouse_Safety
  imports Usb_Mouse
begin

text \<open>
  Two facts about discovery that hold for every device: no control transfer and no descriptor read
  leaves its buffer, shown with a Hoare predicate that follows the lengths of the buffers, and every
  call comes back, shown in the locale \<^verbatim>\<open>mouse_bus\<close> over what the host driver promises.
\<close>

section \<open>Buffers\<close>

text \<open>
  \<^verbatim>\<open>clean I m Q\<close>: from a world with \<open>I\<close> a run of \<open>m\<close> that returns keeps \<open>I\<close> and returns a value with \<open>Q\<close>,
  and no run stops at one of the two marks for undefined behaviour.
\<close>

definition clean :: "('s world \<Rightarrow> bool) \<Rightarrow> ('s, 'r) prog \<Rightarrow> ('r \<Rightarrow> bool) \<Rightarrow> bool" where
  "clean I m Q \<longleftrightarrow> (\<forall>e w. I w \<longrightarrow> (case m e w of Done x w' \<Rightarrow> I w' \<and> Q x
     | Panicked msg w' \<Rightarrow> msg \<noteq> buffer_overrun \<and> msg \<noteq> undefined_read | Unfinished w' \<Rightarrow> True))"

abbreviation (input) tidy :: "('s, 'r) prog \<Rightarrow> bool" where
  "tidy m \<equiv> clean (\<lambda>_. True) m (\<lambda>_. True)"

lemma clean_returns: "returns m \<Longrightarrow> tidy m"
  unfolding clean_def by (auto dest: returnsD split: outcome.split) (metis outcome.distinct(1) returnsD)+

lemma clean_ret: "Q x \<Longrightarrow> clean I (ret x) Q"
  by (simp add: clean_def ret_def)

lemma clean_panic: "msg \<noteq> buffer_overrun \<Longrightarrow> msg \<noteq> undefined_read \<Longrightarrow> clean I (panic msg) Q"
  by (simp add: clean_def panic_def)

lemma clean_bind:
  assumes "clean I m P" "\<And>x. P x \<Longrightarrow> clean I (f x) Q"
  shows "clean I (bind m f) Q"
  unfolding clean_def
proof (intro allI impI)
  fix e w
  assume "I w"
  then have m: "case m e w of Done x w' \<Rightarrow> I w' \<and> P x
     | Panicked msg w' \<Rightarrow> msg \<noteq> buffer_overrun \<and> msg \<noteq> undefined_read | Unfinished w' \<Rightarrow> True"
    using assms(1) by (simp add: clean_def)
  show "case bind m f e w of Done x w' \<Rightarrow> I w' \<and> Q x
     | Panicked msg w' \<Rightarrow> msg \<noteq> buffer_overrun \<and> msg \<noteq> undefined_read | Unfinished w' \<Rightarrow> True"
  proof (cases "m e w")
    case (Done x v)
    then show ?thesis using m assms(2) [of x] by (simp add: bind_def clean_def)
  qed (use m in \<open>simp_all add: bind_def\<close>)
qed

lemma tidy_bind: "tidy m \<Longrightarrow> (\<And>x. clean (\<lambda>_. True) (f x) Q) \<Longrightarrow> clean (\<lambda>_. True) (bind m f) Q"
  by (rule clean_bind) auto

lemma clean_andthen: "clean I m (\<lambda>_. True) \<Longrightarrow> clean I n Q \<Longrightarrow> clean I (andthen m n) Q"
  unfolding andthen_def by (rule clean_bind)

lemma clean_if: "(b \<Longrightarrow> clean I m Q) \<Longrightarrow> (\<not> b \<Longrightarrow> clean I n Q) \<Longrightarrow> clean I (if b then m else n) Q"
  by simp

lemma clean_cond: "(b \<Longrightarrow> clean I m (\<lambda>_. True)) \<Longrightarrow> clean I (cond b m) (\<lambda>_. True)"
  by (simp add: cond_def clean_ret)

lemma clean_case_option:
  "(x = None \<Longrightarrow> clean I m Q) \<Longrightarrow> (\<And>y. x = Some y \<Longrightarrow> clean I (f y) Q) \<Longrightarrow>
   clean I (case x of None \<Rightarrow> m | Some y \<Rightarrow> f y) Q"
  by (simp split: option.split)

lemma clean_poll:
  assumes "clean I body (\<lambda>_. True)"
  shows "clean I (poll body) (\<lambda>_. True)"
proof -
  have "clean I (poll_fuel n body) (\<lambda>_. True)" for n
  proof (induction n)
    case 0
    then show ?case by (simp add: clean_def)
  next
    case (Suc n)
    then show ?case by (simp add: clean_bind [OF assms] clean_ret split: option.split)
  qed
  then show ?thesis by (simp add: clean_def poll_def)
qed

lemma clean_for_each: "(\<And>j. clean I (body j) (\<lambda>_. True)) \<Longrightarrow> clean I (for_each i n body) (\<lambda>_. True)"
  by (induction n arbitrary: i) (simp_all add: clean_ret clean_andthen)

lemma clean_for_until: "(\<And>j. clean I (body j) (\<lambda>_. True)) \<Longrightarrow> clean I (for_until i n body) (\<lambda>_. True)"
  by (induction n arbitrary: i) (auto intro!: clean_bind clean_ret split: option.split)

lemma clean_or_each: "(\<And>j. clean I (body j) (\<lambda>_. True)) \<Longrightarrow> clean I (or_each i n body acc) (\<lambda>_. True)"
  by (induction n arbitrary: i acc) (auto intro!: clean_bind clean_ret)

lemma clean_weaken: "clean I m P \<Longrightarrow> (\<And>x. P x \<Longrightarrow> Q x) \<Longrightarrow> clean I m Q"
  unfolding clean_def by (fastforce split: outcome.splits)

lemma tidy_prims: "tidy (gets f)" "tidy (modify g)" "tidy (in16 p)" "tidy (in32 p)" "tidy (out16 p b16)" "tidy (out32 p v)"
  "tidy tsc" "tidy (mmio_read a)" "tidy (mmio_write a v)" "tidy fence" "tidy irq_save" "tidy (irq_restore c)"
  "tidy (store32 a v)" "tidy (store_list a bs)" "tidy (load_list a n)" "tidy (dma_load32 a)" "tidy (mem_apply h)"
  by (rule clean_returns, intro returns_prims)+

lemmas clean_steps = clean_ret clean_andthen clean_if clean_cond clean_case_option clean_for_each tidy_prims tidy_bind

lemma tidy_waits: "tidy body \<Longrightarrow> tidy (timed_by ticks body)" "tidy (delay_by ticks ms)"
  unfolding timed_by_def delay_by_def by (intro clean_steps clean_poll TrueI; assumption?)+

lemma clean_zoom:
  fixes P :: "'t \<Rightarrow> bool"
  assumes "clean (\<lambda>_. True) m Q" "\<And>v s. P (upd v s) = P s"
  shows "clean (\<lambda>w. P (vars w)) (zoom get upd m) Q"
  unfolding clean_def
proof (intro allI impI)
  fix e and w :: "'t world"
  assume w: "P (vars w)"
  let ?v = "\<lparr>io = io w, mem = mem w, cpu_regs = cpu_regs w, vars = get (vars w)\<rparr>"
  have "case m e ?v of Done x w' \<Rightarrow> True \<and> Q x
     | Panicked msg w' \<Rightarrow> msg \<noteq> buffer_overrun \<and> msg \<noteq> undefined_read | Unfinished w' \<Rightarrow> True"
    using assms(1) by (simp add: clean_def)
  then show "case zoom get upd m e w of Done x w' \<Rightarrow> P (vars w') \<and> Q x
     | Panicked msg w' \<Rightarrow> msg \<noteq> buffer_overrun \<and> msg \<noteq> undefined_read | Unfinished w' \<Rightarrow> True"
    using w assms(2) by (cases "m e ?v") (auto simp: zoom_def Let_def)
qed

section \<open>The host driver keeps to its buffers\<close>

lemma tidy_host_prims:
  "tidy (get_info i)" "tidy (get_ctl i)" "tidy (set_info i f)" "tidy (set_ctl i g)" "tidy (call_client i ev data len)"
  "tidy (store_report i n)" "tidy (pci_read d r)" "tidy (pci_write16 d r h)"
proof -
  show "tidy (get_info i)" "tidy (get_ctl i)" "tidy (set_info i f)" "tidy (set_ctl i g)" "tidy (call_client i ev data len)"
    unfolding get_info_def get_ctl_def set_info_def set_ctl_def call_client_def by (rule tidy_prims)+
  show "tidy (store_report i n)"
    by (simp add: clean_def store_report_def set_info_def run_modify split: option.split prod.split)
  show "tidy (pci_read d r)" "tidy (pci_write16 d r h)"
    unfolding pci_read_def pci_write16_def by (intro clean_steps)+
qed

lemma tidy_stop: "tidy (wait_io p k v)" "tidy (stop i)"
proof -
  show "tidy (wait_io p k v)" for p k v
    unfolding wait_io_def by (intro clean_steps tidy_waits TrueI)
  then show "tidy (stop i)"
    unfolding stop_def Let_def by (intro clean_steps tidy_host_prims clean_panic TrueI) (simp_all add: buffer_overrun_def undefined_read_def)
qed

lemmas tidy_steps = clean_steps tidy_host_prims tidy_stop tidy_waits TrueI

lemma tidy_stream:
  "tidy (arm_interrupt i)" "tidy (idle_frames c)" "tidy (stream_frames c n)" "tidy (service_controller i irq)"
proof -
  show arm: "tidy (arm_interrupt i)" unfolding arm_interrupt_def by (intro tidy_steps)
  show "tidy (idle_frames c)" "tidy (stream_frames c n)" unfolding idle_frames_def stream_frames_def by (intro tidy_steps)+
  have "tidy (service_report i c irq td)" for c td
    unfolding service_report_def Let_def by (intro tidy_steps arm)
  then have "tidy (service_stream i irq status)" for status
    unfolding service_stream_def Let_def by (intro tidy_steps)
  then show "tidy (service_controller i irq)"
    unfolding service_controller_def service_halt_def Let_def by (intro tidy_steps)
qed

lemma tidy_poll: "tidy usb_host_poll" "tidy usb_uhci_hotplug_due"
proof -
  have "tidy (poll_port i base port)" "tidy (poll_recover i base)" for i base port
    unfolding poll_port_def poll_recover_def Let_def by (intro tidy_steps tidy_stream)+
  then have "tidy (poll_controller i)" for i
    unfolding poll_controller_def Let_def by (intro tidy_steps tidy_stream)
  moreover have "tidy (ehci_read k)" "tidy (ehci_write k v)" for k v
    unfolding ehci_read_def ehci_write_def by (intro clean_steps)+
  then have "tidy storage_refresh_usb_companions"
    unfolding storage_refresh_usb_companions_def Let_def by (intro clean_steps TrueI)
  then have "tidy (in_storage storage_refresh_usb_companions)"
    unfolding in_storage_def using clean_zoom [where P = "\<lambda>_. True"] by simp
  ultimately show "tidy usb_host_poll" unfolding usb_host_poll_def by (intro tidy_steps clean_or_each)
  show "tidy usb_uhci_hotplug_due" unfolding usb_uhci_hotplug_due_def by (intro tidy_steps)
qed

lemma tidy_ports: "tidy (usb_uhci_reset_port ident port)" "tidy (usb_uhci_disable_port ident port)" "tidy (usb_uhci_delay ms)"
  "tidy (usb_uhci_start_interrupt ident port address endpoint low packet t)"
  unfolding usb_uhci_reset_port_def usb_uhci_disable_port_def usb_uhci_delay_def usb_uhci_start_interrupt_def usb_delay_def
    update_port_def set_port_status_def Let_def
  by (intro tidy_steps tidy_stream)+

text \<open>A packet never reports more bytes than were asked for, so the data stage stays inside the buffer.\<close>

lemma control_packet_clean:
  "clean (\<lambda>_. True) (control_packet i pid address low toggle n) (\<lambda>actual. actual \<le> uint n)"
proof -
  have "- 1 \<le> uint n" using uint_ge_0 [of n] by linarith
  then show ?thesis
    unfolding control_packet_def Let_def
    by (intro tidy_steps) (auto simp: completed_length_bound)
qed

lemma data_stage_clean:
  assumes "packet \<le> 64" "len \<le> 65535"
  shows "len \<le> length buffer \<Longrightarrow> received \<le> len \<Longrightarrow>
    clean (\<lambda>_. True) (data_stage n i address low packet input len received toggle buffer :: ('m usb_host, nat option \<times> u8 list) prog)
      (\<lambda>(moved, b). length b = length buffer)"
proof (induction n arbitrary: received toggle buffer)
  case 0
  then show ?case by (simp add: clean_def)
next
  case (Suc n)
  let ?count = "min (len - received) packet"
  have count: "uint (of_nat ?count :: u32) = int ?count" using assms(1) by (simp add: uint_nat unat_of_nat)
  have next_round: "clean (\<lambda>_. True) (if nat actual < ?count then ret (if input then Some (received + nat actual) else None, b)
      else data_stage n i address low packet input len (received + nat actual) (toggle XOR 1) b :: ('m usb_host, nat option \<times> u8 list) prog)
      (\<lambda>(moved, b). length b = length buffer)" if "length b = length buffer" "actual \<le> int ?count" for actual b
  proof (rule clean_if)
    have "received + nat actual \<le> len" using that(2) Suc.prems(2) by auto
    then show "clean (\<lambda>_. True) (data_stage n i address low packet input len (received + nat actual) (toggle XOR 1) b :: ('m usb_host, nat option \<times> u8 list) prog)
      (\<lambda>(moved, b). length b = length buffer)"
      using Suc.IH [of b "received + nat actual"] Suc.prems(1) that(1) by simp
  qed (simp add: clean_ret that(1))
  have copy: "clean (\<lambda>_. True) (copy_into buffer received bytes :: ('m usb_host, u8 list) prog) (\<lambda>b. length b = length buffer)"
    if "length bytes \<le> ?count" for bytes
  proof -
    have "received + length bytes \<le> length buffer" using that Suc.prems by auto
    then show ?thesis by (simp add: copy_into_def clean_ret)
  qed
  have load: "clean (\<lambda>_. True) (load_list a k :: ('m usb_host, u8 list) prog) (\<lambda>bs. length bs = k)" for a k
    by (simp add: clean_def load_list_def mem_load_list_def)
  have inside: "received + ?count \<le> length buffer" using Suc.prems by simp
  have round: "clean (\<lambda>_. True) (bind (load_list (uc_control_data c) (nat actual)) (\<lambda>bytes.
      bind (if input then copy_into buffer received bytes else ret buffer) (\<lambda>buffer.
      if nat actual < ?count then ret (if input then Some (received + nat actual) else None, buffer)
      else data_stage n i address low packet input len (received + nat actual) (toggle XOR 1) buffer)) :: ('m usb_host, nat option \<times> u8 list) prog)
    (\<lambda>(moved, b). length b = length buffer)" if "actual \<le> uint (of_nat ?count :: u32)" for actual c
  proof (rule clean_bind [OF load], rule clean_bind)
    fix bytes :: "u8 list"
    assume "length bytes = nat actual"
    then have "length bytes \<le> ?count" using that count by linarith
    then show "clean (\<lambda>_. True) (if input then copy_into buffer received bytes else ret buffer :: ('m usb_host, u8 list) prog) (\<lambda>b. length b = length buffer)"
      using copy by (simp add: clean_ret)
  next
    fix b :: "u8 list"
    assume "length b = length buffer"
    then show "clean (\<lambda>_. True) (if nat actual < ?count then ret (if input then Some (received + nat actual) else None, b)
      else data_stage n i address low packet input len (received + nat actual) (toggle XOR 1) b :: ('m usb_host, nat option \<times> u8 list) prog)
      (\<lambda>(moved, b). length b = length buffer)"
      using that count by (intro next_round) simp_all
  qed
  show ?case
    unfolding data_stage.simps Let_def
    by (intro clean_if clean_ret tidy_bind [OF tidy_host_prims(2)] clean_andthen tidy_prims
        clean_bind [OF control_packet_clean] round TrueI) (use inside in auto)
qed

definition wanted :: "u8 list \<Rightarrow> nat" where
  "wanted rq = unat (rq ! 6) + 256 * unat (rq ! 7)"

lemma control_stages_clean:
  assumes "wanted rq \<le> length buffer" "wanted rq \<le> 4096" "unat packet \<le> 64"
  shows "clean (\<lambda>_. True) (control_stages i address low packet rq buffer) (\<lambda>(r, b). length b = length buffer)"
proof -
  have data: "clean (\<lambda>_. True) (data_stage (wanted rq + 1) i address low (unat packet) input (wanted rq) 0 1 buffer)
      (\<lambda>(moved, b). length b = length buffer)" for input
    using assms by (intro data_stage_clean) simp_all
  have final: "clean (\<lambda>_. True) (case x of (moved, b) \<Rightarrow> case moved of None \<Rightarrow> ret (- 1, b)
      | Some received \<Rightarrow> bind (control_packet i pid address low 1 0) (\<lambda>actual. ret (if actual \<noteq> 0 then - 1 else int received, b)))
      (\<lambda>(r, b). length b = length buffer)" if "case x of (moved, b) \<Rightarrow> length b = length buffer" for x pid
    using that by (auto intro!: clean_ret clean_bind [OF control_packet_clean] split: prod.split option.split)
  show ?thesis
    unfolding control_stages_def Let_def wanted_def [symmetric]
    by (intro tidy_bind [OF tidy_host_prims(2)] clean_andthen tidy_prims clean_bind [OF control_packet_clean] clean_if
        clean_ret clean_bind [OF data] final) simp_all
qed

lemma control_clean:
  assumes "case data of None \<Rightarrow> True | Some b \<Rightarrow> wanted rq \<le> length b"
  shows "clean (\<lambda>_. True) (usb_uhci_control ident address low packet (Some rq) data)
    (\<lambda>(r, b). length b = length (case data of None \<Rightarrow> [] | Some b \<Rightarrow> b))"
proof -
  let ?buffer = "case data of None \<Rightarrow> [] | Some b \<Rightarrow> b"
  have stages: "clean (\<lambda>_. True) (control_stages i address low packet rq ?buffer) (\<lambda>(r, b). length b = length ?buffer)"
    if "\<not> (wanted rq > 4096 \<or> wanted rq \<noteq> 0 \<and> data = None)"
      "\<not> (st \<noteq> UHCI_READY \<or> packet \<noteq> 8 \<and> packet \<noteq> 16 \<and> packet \<noteq> 32 \<and> packet \<noteq> 64 \<or> low \<noteq> 0 \<and> packet \<noteq> 8)" for i st
    using that assms by (intro control_stages_clean) (auto split: option.splits)
  have after: "clean (\<lambda>_. True) (case x of (result, b) \<Rightarrow> andthen (set_ctl i (f result)) (bind (get_info i) (\<lambda>info.
      andthen (cond (ci_status info = UHCI_READY) (andthen (out16 p v) (out16 q u))) (andthen (irq_restore flags) (ret (result, b))))))
      (\<lambda>(r, b). length b = length ?buffer)" if "case x of (r, b) \<Rightarrow> length b = length ?buffer" for x i f p q u v flags
    using that by (auto intro!: tidy_steps)
  show ?thesis
    unfolding usb_uhci_control_def Let_def option.case wanted_def [symmetric]
    by (intro clean_if clean_ret tidy_bind [OF tidy_host_prims(1)] tidy_bind [OF tidy_host_prims(2)] clean_andthen tidy_host_prims
        tidy_prims tidy_bind [OF tidy_prims(11)] clean_bind [OF stages] after) simp_all
qed

section \<open>Discovery keeps to its buffers\<close>

abbreviation (input) buffered :: "'m usb_mouse world \<Rightarrow> bool" where
  "buffered w \<equiv> length (um_configuration_buffer (vars w)) = 4096"

lemma clean_in_host: "clean (\<lambda>_. True) p Q \<Longrightarrow> clean buffered (in_host p) Q"
  unfolding in_host_def by (rule clean_zoom) simp_all

lemma clean_mouse_prims:
  "clean buffered (gets f) (\<lambda>_. True)" "clean buffered (set_port controller port g) (\<lambda>_. True)"
  "clean buffered (get_port controller port) (\<lambda>_. True)" "clean buffered (set_status controller port st) (\<lambda>_. True)"
  "clean buffered (set_hotplug controller port h) (\<lambda>_. True)" "clean buffered (host_status controller) (\<lambda>_. True)"
  "clean buffered (gets um_configuration_buffer) (\<lambda>b. length b = 4096)"
  by (simp_all add: clean_def set_port_def get_port_def set_status_def set_hotplug_def host_status_def run_modify run_gets)

lemma clean_mouse_modify:
  "(\<And>s. um_configuration_buffer (f s) = um_configuration_buffer s) \<Longrightarrow> clean buffered (modify f) (\<lambda>_. True)"
  by (simp add: clean_def run_modify)

lemma wanted_setup: "len \<le> 4096 \<Longrightarrow> wanted (setup_bytes k r v x len) = unat len"
proof -
  assume "len \<le> 4096"
  then have l: "unat len \<le> 4096" by (simp add: word_le_nat_alt)
  have "unat (ucast len :: u8) = unat len mod 256" by (simp add: unsigned_ucast_eq take_bit_eq_mod)
  moreover have "unat (ucast (drop_bit 8 len) :: u8) = unat len div 256"
    using l by (simp add: unsigned_ucast_eq take_bit_eq_mod drop_bit_eq_div unat_div)
  ultimately show ?thesis by (simp add: wanted_def setup_bytes_def)
qed

lemma request_clean:
  assumes "len \<le> 4096" "case data of None \<Rightarrow> True | Some b \<Rightarrow> unat len \<le> length b"
  shows "clean buffered (request controller port packet kind operation value index len data)
    (\<lambda>(r, b). length b = length (case data of None \<Rightarrow> [] | Some b \<Rightarrow> b))"
  unfolding request_def
proof (rule clean_bind [OF clean_mouse_prims(3)], rule clean_in_host, rule control_clean)
  show "case data of None \<Rightarrow> True | Some b \<Rightarrow> wanted (setup_bytes kind operation value index len) \<le> length b"
    using assms by (simp add: wanted_setup split: option.splits)
qed

lemma request_scratch_clean:
  assumes "len \<le> 4096"
  shows "clean buffered (request_scratch controller port packet value len) (\<lambda>_. True)"
  unfolding request_scratch_def
proof (rule clean_bind [OF clean_mouse_prims(7)])
  fix buffer :: "u8 list"
  assume b: "length buffer = 4096"
  have "unat len \<le> 4096" using assms by (simp add: word_le_nat_alt)
  then have rq: "clean buffered (request controller port packet 0x80 6 value 0 len (Some buffer) :: ('a usb_mouse, _) prog)
      (\<lambda>(r, b). length b = 4096)"
    using request_clean [OF assms, of "Some buffer" controller port packet "0x80" 6 "value" 0] b by simp
  show "clean buffered (bind (request controller port packet 0x80 6 value 0 len (Some buffer)) (\<lambda>(result, buffer).
      andthen (modify (\<lambda>s. s\<lparr>um_configuration_buffer := buffer\<rparr>)) (ret result)) :: ('a usb_mouse, int) prog) (\<lambda>_. True)"
    by (rule clean_bind [OF rq]) (auto simp: clean_def run_andthen run_modify run_ret)
qed

lemma clean_case_prod:
  "(\<And>a b. x = (a, b) \<Longrightarrow> clean I (f a b) Q) \<Longrightarrow> clean I (case x of (a, b) \<Rightarrow> f a b) Q"
  by (simp split: prod.split)

lemmas mouse_steps = clean_case_prod clean_mouse_prims(1-6) clean_ret clean_if clean_andthen clean_cond clean_in_host tidy_ports tidy_poll TrueI

text \<open>Requests with no data stage, and the two reads of the device descriptor.\<close>

lemma request_none_clean: "clean buffered (request controller port packet kind operation value index 0 None) (\<lambda>_. True)"
  using request_clean [of 0 None] by (rule clean_weaken) simp_all

lemma probe_device_clean: "clean buffered (probe_device controller port) (\<lambda>_. True)"
proof -
  have first: "clean buffered (request controller port 8 0x80 6 0x0100 0 8 (Some (replicate 18 0)) :: ('a usb_mouse, _) prog) (\<lambda>(r, b). length b = 18)"
    using request_clean [of 8 "Some (replicate 18 0)" controller port 8 "0x80" 6 "0x0100" 0] by simp
  have second: "clean buffered (request controller port packet 0x80 6 0x0100 0 18 (Some b) :: ('a usb_mouse, _) prog) (\<lambda>_. True)"
    if "length b = 18" for b packet
    by (rule clean_weaken [OF request_clean]) (use that in simp_all)
  show ?thesis
    unfolding probe_device_def Let_def
    by (intro mouse_steps clean_bind [OF first] clean_bind [where P = "\<lambda>_. True"] request_none_clean second) simp_all
qed

lemmas clean_any = clean_bind [where P = "\<lambda>_. True"]

lemma configure_mouse_clean: "clean buffered (configure_mouse controller port packet face) (\<lambda>_. True)"
  unfolding configure_mouse_def Let_def by (intro mouse_steps clean_any request_none_clean)

lemma try_mouse_configuration_clean: "clean buffered (try_mouse_configuration controller port packet config) (\<lambda>_. True)"
proof -
  have found: "clean buffered ((case usb_mouse_find_interface (Some buffer) len low of
      None \<Rightarrow> panic undefined_read
    | Some (Inl u) \<Rightarrow> andthen (set_status controller port USB_MOUSE_BAD_DESCRIPTOR) (ret (Some False))
    | Some (Inr None) \<Rightarrow> andthen (set_status controller port USB_MOUSE_BAD_DESCRIPTOR) (ret None)
    | Some (Inr (Some face)) \<Rightarrow> andthen (set_port controller port (\<lambda>i. i\<lparr>pt_interface := face, pt_status := USB_MOUSE_BAD_DESCRIPTOR\<rparr>))
        (bind (configure_mouse controller port packet face) (\<lambda>ok. ret (Some ok)))) :: ('a usb_mouse, bool option) prog) (\<lambda>_. True)"
    if "length buffer = 4096" "\<not> len > 4096" for buffer len low
  proof -
    have "unat len \<le> length buffer" using that by (simp add: word_less_nat_alt)
    then obtain r where r: "usb_mouse_find_interface (Some buffer) len low = Some r"
      using find_interface_spec [of len buffer low] by blast
    then show ?thesis
      by (auto intro!: mouse_steps clean_any configure_mouse_clean split: sum.split option.split)
  qed
  show ?thesis
    unfolding try_mouse_configuration_def Let_def
    by (intro mouse_steps clean_bind [OF clean_mouse_prims(7)] clean_any request_scratch_clean found; simp)
qed

lemma usb_mouse_probe_port_clean: "clean buffered (usb_mouse_probe_port controller port) (\<lambda>_. True)"
proof -
  have fail: "clean buffered (probe_failed controller port) (\<lambda>_. True)"
    unfolding probe_failed_def by (intro mouse_steps)
  show ?thesis
    unfolding usb_mouse_probe_port_def
    by (intro mouse_steps clean_any probe_device_clean clean_case_option fail clean_for_until try_mouse_configuration_clean)
       (simp split: bool.split, intro conjI impI mouse_steps fail)
qed

lemma mouse_calls_clean: "clean buffered usb_mouse_initialize (\<lambda>_. True)" "clean buffered usb_mouse_service (\<lambda>_. True)"
proof -
  have note_port: "clean buffered (record_port controller port) (\<lambda>_. True)" for controller port
    unfolding record_port_def by (intro mouse_steps clean_any)
  have "clean buffered (boot_controller n) (\<lambda>_. True)" for n
    unfolding boot_controller_def Let_def
    by (intro mouse_steps clean_any clean_for_until usb_mouse_probe_port_clean note_port clean_mouse_modify) simp
  then show "clean buffered usb_mouse_initialize (\<lambda>_. True)"
    unfolding usb_mouse_initialize_def by (intro mouse_steps clean_any clean_for_each clean_mouse_modify) simp_all
  have port: "clean buffered (service_port ident port active) (\<lambda>_. True)" for ident port active
    unfolding service_port_def Let_def by (intro mouse_steps clean_any usb_mouse_probe_port_clean)
  have "clean buffered (service_scan i n active count) (\<lambda>_. True)" for i n active count
    by (induction n arbitrary: i active count) (auto intro!: clean_any clean_ret port)
  then show "clean buffered usb_mouse_service (\<lambda>_. True)"
    unfolding usb_mouse_service_def by (intro mouse_steps clean_any clean_mouse_modify) simp_all
qed

section \<open>What discovery asks of the host driver\<close>

text \<open>
  The interface: the entry points of the host driver, run on the state of discovery, keep an
  invariant, and so does a change of discovery's own variables. Every call of discovery then keeps it.
\<close>

locale mouse_bus =
  fixes e :: env and I K J :: "'m usb_mouse world \<Rightarrow> bool"
  assumes bus_reset: "keeps e I K J (in_host (usb_uhci_reset_port ident port))"
    and bus_disable: "keeps e I K J (in_host (usb_uhci_disable_port ident port))"
    and bus_delay: "keeps e I K J (in_host (usb_uhci_delay ms))"
    and bus_control: "keeps e I K J (in_host (usb_uhci_control ident address low packet rq data))"
    and bus_start: "keeps e I K J (in_host (usb_uhci_start_interrupt ident port address endpoint low packet ms))"
    and bus_poll: "keeps e I K J (in_host usb_host_poll)"
    and bus_due: "keeps e I K J (in_host usb_uhci_hotplug_due)"
    and own_state: "I w \<Longrightarrow> um_host s = um_host (vars w) \<Longrightarrow> I (w\<lparr>vars := s\<rparr>)"
    and stopped: "I w \<Longrightarrow> K w"
begin

lemma own_modify: "(\<And>s. um_host (f s) = um_host s) \<Longrightarrow> keeps e I K J (modify f)"
  by (simp add: keeps_def run_modify own_state)

lemma own_setters:
  "keeps e I K J (set_port controller port g)" "keeps e I K J (set_status controller port st)"
  "keeps e I K J (set_hotplug controller port h)"
  unfolding set_status_def set_port_def set_hotplug_def by (rule own_modify, simp)+

lemma request_keeps: "keeps e I K J (request controller port packet kind operation value index len data)"
  unfolding request_def get_port_def by (intro keeps_intros bus_control)

lemma case_prod_keeps: "(\<And>a b. keeps e I K J (f a b)) \<Longrightarrow> keeps e I K J (case x of (a, b) \<Rightarrow> f a b)"
  by (simp split: prod.split)

lemma request_scratch_keeps: "keeps e I K J (request_scratch controller port packet value len)"
  unfolding request_scratch_def by (intro keeps_intros request_keeps case_prod_keeps own_modify) simp

lemma probe_device_keeps: "keeps e I K J (probe_device controller port)"
  unfolding probe_device_def Let_def
  by (intro keeps_intros case_prod_keeps bus_reset bus_delay own_setters request_keeps)

lemma configure_mouse_keeps: "keeps e I K J (configure_mouse controller port packet face)"
  unfolding configure_mouse_def Let_def get_port_def
  by (intro keeps_intros case_prod_keeps bus_start own_setters request_keeps)

lemma try_mouse_configuration_keeps: "keeps e I K J (try_mouse_configuration controller port packet config)"
proof -
  have found: "keeps e I K J (case r of
      None \<Rightarrow> panic undefined_read
    | Some (Inl u) \<Rightarrow> andthen (set_status controller port USB_MOUSE_BAD_DESCRIPTOR) (ret (Some False))
    | Some (Inr None) \<Rightarrow> andthen (set_status controller port USB_MOUSE_BAD_DESCRIPTOR) (ret None)
    | Some (Inr (Some face)) \<Rightarrow> andthen (set_port controller port (\<lambda>i. i\<lparr>pt_interface := face, pt_status := USB_MOUSE_BAD_DESCRIPTOR\<rparr>))
        (bind (configure_mouse controller port packet face) (\<lambda>ok. ret (Some ok))))" for r :: "(unit + usb_mouse_interface option) option"
    by (auto intro!: keeps_intros keeps_panic stopped own_setters configure_mouse_keeps split: option.split sum.split)
  show ?thesis
    unfolding try_mouse_configuration_def Let_def get_port_def
    by (intro found keeps_bind keeps_gets keeps_andthen keeps_if keeps_ret own_setters request_scratch_keeps)
qed

lemma probe_port_keeps: "keeps e I K J (usb_mouse_probe_port controller port)"
proof -
  have "keeps e I K J (probe_failed controller port)"
    unfolding probe_failed_def by (intro keeps_intros bus_disable)
  then show ?thesis
    unfolding usb_mouse_probe_port_def
    by (auto intro!: keeps_intros own_setters probe_device_keeps try_mouse_configuration_keeps split: option.split bool.split)
qed

lemma initialize_keeps: "keeps e I K J usb_mouse_initialize"
proof -
  have "keeps e I K J (record_port controller port)" for controller port
    unfolding record_port_def by (intro keeps_intros own_setters)
  then have "keeps e I K J (boot_controller n)" for n
    unfolding boot_controller_def host_status_def Let_def
    by (intro keeps_intros bus_disable bus_delay probe_port_keeps own_modify) simp
  then show ?thesis
    unfolding usb_mouse_initialize_def by (intro keeps_intros own_modify) simp_all
qed

lemma service_keeps: "keeps e I K J usb_mouse_service"
proof -
  have port: "keeps e I K J (service_port ident port active)" for ident port active
    unfolding service_port_def get_port_def host_status_def Let_def
    by (intro keeps_intros own_setters bus_disable probe_port_keeps)
  have "keeps e I K J (service_scan i n active count)" for i n active count
    by (induction n arbitrary: i active count) (auto intro!: keeps_bind keeps_ret port)
  then show ?thesis
    unfolding usb_mouse_service_def by (intro keeps_intros bus_poll bus_due own_modify) simp_all
qed

end

text \<open>The host driver provides it: its invariant, read on the host's part of the state.\<close>

definition host_world :: "'m usb_mouse world \<Rightarrow> 'm usb_host world" where
  "host_world w = \<lparr>io = io w, mem = mem w, cpu_regs = cpu_regs w, vars = um_host (vars w)\<rparr>"

lemma world_eta: "\<lparr>io = io w, mem = mem w, cpu_regs = cpu_regs w, vars = vars w\<rparr> = (w :: 's world)"
  by simp

lemma in_host_keeps:
  assumes "keeps e I K J p"
  shows "keeps e (\<lambda>w. I (host_world w)) (\<lambda>w. K (host_world w)) (\<lambda>w. J (host_world w)) (in_host p)"
  unfolding keeps_def
proof (intro allI impI)
  fix w
  assume "I (host_world w)"
  then show "case in_host p e w of Done r w' \<Rightarrow> I (host_world w') | Panicked msg w' \<Rightarrow> K (host_world w')
    | Unfinished w' \<Rightarrow> J (host_world w')"
    using assms by (cases "p e (host_world w)")
      (auto simp: keeps_def in_host_def zoom_def Let_def host_world_def world_eta dest!: spec [of _ "host_world w"])
qed

lemma uhci_in_host:
  "usb_keeps e R m None p \<Longrightarrow> keeps e (\<lambda>w. usb_safe e R m None (host_world w) \<and> ticks_ok e (host_world w))
    (\<lambda>w. usb_sound e R m (host_world w)) (\<lambda>w. usb_sound e R m (host_world w) \<and> \<not> steady_clock e) (in_host p)"
  by (rule in_host_keeps)

interpretation uhci_bus: mouse_bus e "\<lambda>w. usb_safe e R m None (host_world w) \<and> ticks_ok e (host_world w)"
  "\<lambda>w. usb_sound e R m (host_world w)" "\<lambda>w. usb_sound e R m (host_world w) \<and> \<not> steady_clock e"
proof unfold_locales
  fix w :: "'a usb_mouse world" and s :: "'a usb_mouse"
  assume "usb_safe e R m None (host_world w) \<and> ticks_ok e (host_world w)" "um_host s = um_host (vars w)"
  then show "usb_safe e R m None (host_world (w\<lparr>vars := s\<rparr>)) \<and> ticks_ok e (host_world (w\<lparr>vars := s\<rparr>))"
    by (simp add: host_world_def)
qed (rule in_host_keeps, rule usb_uhci_reset_port_keeps usb_uhci_disable_port_keeps usb_uhci_delay_keeps
    usb_uhci_control_keeps usb_uhci_start_interrupt_keeps usb_host_poll_keeps usb_uhci_hotplug_due_keeps
    | simp add: usb_safe_def)+

section \<open>Sessions\<close>

text \<open>
  What reaches discovery and the host driver once the host driver has been initialised: the scan at
  boot, the idle task, the interrupts, and the desktop that takes reports.
\<close>

datatype mouse_call = Discover | Service | Uhci_interrupt u32 | Take_report u32 u32

fun mouse_run :: "mouse_call \<Rightarrow> ('m usb_mouse, unit) prog" where
  "mouse_run Discover = andthen usb_mouse_initialize (ret ())"
| "mouse_run Service = usb_mouse_service"
| "mouse_run (Uhci_interrupt vector) = in_host (usb_host_interrupt (Some vector))"
| "mouse_run (Take_report ident report) = andthen (in_host (usb_uhci_read_report ident report)) (ret ())"

fun mouse_session :: "mouse_call list \<Rightarrow> ('m usb_mouse, unit) prog" where
  "mouse_session [] = ret ()"
| "mouse_session (c # cs) = andthen (mouse_run c) (mouse_session cs)"

text \<open>Discovery's variables in cleared \<^verbatim>\<open>.bss\<close>, beside a host driver in any state.\<close>

definition mouse_zero :: "'m usb_host \<Rightarrow> 'm usb_mouse" where
  "mouse_zero host = \<lparr>um_host = host, um_mouse_count = 0, um_port = replicate 4 [no_port, no_port], um_boot_mouse_count = 0,
     um_configuration_buffer = replicate 4096 0, um_initialized = 0,
     um_hotplug = replicate 4 (replicate 2 \<lparr>hp_generation = 0, hp_connected = 0, hp_attempted = 0\<rparr>)\<rparr>"

lemma mouse_session_clean: "clean buffered (mouse_session cs) (\<lambda>_. True)"
proof -
  have "tidy (ioapic_read r)" "tidy (ioapic_write r v)" for r v
    unfolding ioapic_read_def ioapic_write_def by (intro tidy_steps)+
  then have interrupt: "tidy (usb_host_interrupt (Some vector))" for vector
    unfolding usb_host_interrupt_def Let_def option.case
    by (intro tidy_steps tidy_stream clean_or_each clean_panic) (simp_all add: buffer_overrun_def undefined_read_def)
  have "tidy (take_report i report)" for i report
    by (simp add: clean_def take_report_def split: option.split prod.split)
  then have take_one: "tidy (usb_uhci_read_report ident report)" for ident report
    unfolding usb_uhci_read_report_def Let_def by (intro tidy_steps clean_case_prod)
  have calls: "clean buffered (mouse_run c) (\<lambda>_. True)" for c
    by (cases c) (simp_all add: clean_andthen clean_ret mouse_calls_clean clean_in_host interrupt take_one)
  show ?thesis by (induction cs) (simp_all add: clean_ret clean_andthen calls)
qed

fun taken_reports :: "mouse_call list \<Rightarrow> u32 set" where
  "taken_reports [] = {}"
| "taken_reports (Take_report ident report # cs) = {a. a - report < 68} \<union> taken_reports cs"
| "taken_reports (c # cs) = taken_reports cs"

lemma mouse_session_keeps:
  "taken_reports cs \<subseteq> R \<Longrightarrow>
   keeps e (\<lambda>w. usb_safe e R m None (host_world w) \<and> ticks_ok e (host_world w))
    (\<lambda>w. usb_sound e R m (host_world w)) (\<lambda>w. usb_sound e R m (host_world w) \<and> \<not> steady_clock e) (mouse_session cs)"
  by (induction cs rule: taken_reports.induct)
    (simp_all add: keeps_ret keeps_andthen uhci_bus.initialize_keeps uhci_bus.service_keeps uhci_in_host
      usb_host_interrupt_keeps usb_uhci_read_report_keeps image_at_def)

section \<open>Properties\<close>

text \<open>
  C34: the descriptor parser is safe on hostile input, and what it accepts can be scheduled. For any bytes of
  a device and any claimed length inside the buffer, \<^verbatim>\<open>usb_mouse_find_interface\<close> reads no byte
  outside the buffer and terminates; and when it reports a mouse, the configuration to select is not
  zero, the endpoint number is 1 to 15, the packet size is 3 to 64 bytes (3 to 8 at low speed), and the interval that
  \<^verbatim>\<open>usb_mouse_poll_interval\<close> derives from it is one that the UHCI schedule can hold, so that
  \<^verbatim>\<open>usb_uhci_start_interrupt\<close> refuses none of its arguments.
\<close>

theorem usb_mouse_parser_safe:
  assumes "unat extent \<le> length data"
  shows "\<exists>r. usb_mouse_find_interface (Some data) extent low = Some r \<and>
    (\<forall>face. r = Inr (Some face) \<longrightarrow> mi_configuration face \<noteq> 0 \<and> low \<le> 1 \<and>
      1 \<le> mi_endpoint face \<and> mi_endpoint face \<le> 15 \<and>
      3 \<le> mi_packet face \<and> mi_packet face \<le> (if low \<noteq> 0 then 8 else 64) \<and>
      uhci_interval (usb_mouse_poll_interval low (mi_interval face)) \<noteq> 0)"
proof -
  obtain r where r: "usb_mouse_find_interface (Some data) extent low = Some r"
    "\<forall>face. r = Inr (Some face) \<longrightarrow> data ! 5 \<noteq> 0 \<and> low \<le> 1 \<and> face_ok (data ! 5) low face"
    using find_interface_spec [OF assms] by blast
  have "(ucast b :: u32) \<noteq> 0" if "b \<noteq> 0" for b :: u8 using that by (simp add: word_unat_eq_iff unat_ucast_u8_u32)
  then show ?thesis using r by (fastforce simp: face_ok_def poll_interval_pos)
qed

text \<open>A low-speed mouse: one interface with its HID descriptor and one endpoint.\<close>

definition mouse_descriptor :: "u8 list" where
  "mouse_descriptor = [9, 2, 34, 0, 1, 1, 0, 0xA0, 50, 9, 4, 0, 0, 1, 3, 1, 2, 0, 9, 0x21, 0x11, 1, 0, 1, 0x22, 52, 0,
     7, 5, 0x81, 3, 4, 0, 10]"

theorem usb_mouse_parser_safe_witness:
  "usb_mouse_find_interface (Some mouse_descriptor) 34 1 = Some (Inr (Some \<lparr>mi_configuration = 1, mi_interface_number = 0,
     mi_endpoint = 1, mi_packet = 4, mi_interval = 10\<rparr>)) \<and> uhci_interval (usb_mouse_poll_interval 1 10) \<noteq> 0"
proof -
  have run: "usb_mouse_find_interface (Some mouse_descriptor) 34 1 = Some (Inr (Some \<lparr>mi_configuration = 1, mi_interface_number = 0,
     mi_endpoint = 1, mi_packet = 4, mi_interval = 10\<rparr>))" by code_simp
  then show ?thesis using usb_mouse_parser_safe [of 34 mouse_descriptor 1] by (simp add: mouse_descriptor_def)
qed

text \<open>
  C35: discovery cannot be broken by a device. Take any session of the host driver that returned, then the
  scan at boot, the idle task, interrupts and reads of reports in any order: with a clock that
  advances, every such session comes back, whatever the devices answer to the control requests; it
  returns, or it stops at one of the driver's own panics, and never because a control transfer
  overran the caller's buffer or because the parser read outside the configuration buffer. The host
  driver's state is well formed at the end.
\<close>

theorem usb_mouse_calls_safe:
  assumes "steady_clock e"
    and "host_session cs e (w0\<lparr>vars := usb_zero client (st\<lparr>bv_ticks_per_ms := 0\<rparr>)\<rparr>) = Done () v"
  shows "let run = mouse_session calls e \<lparr>io = io v, mem = mem v, cpu_regs = cpu_regs v, vars = mouse_zero (vars v)\<rparr>
    in host_ok (um_host (vars (final run))) \<and>
       ((\<exists>w'. run = Done () w') \<or> (\<exists>msg w'. run = Panicked msg w' \<and> msg \<noteq> buffer_overrun \<and> msg \<noteq> undefined_read))"
proof -
  let ?R = "call_buffers cs \<union> taken_reports calls"
  let ?v = "\<lparr>io = io v, mem = mem v, cpu_regs = cpu_regs v, vars = mouse_zero (vars v)\<rparr>"
  let ?w = "w0\<lparr>vars := usb_zero client (st\<lparr>bv_ticks_per_ms := 0\<rparr>)\<rparr>"
  have "usb_safe e ?R (mem w0) None ?w \<and> ticks_ok e ?w"
    using usb_zero_ok [of client] by (simp add: usb_safe_def usb_sound_def window_def ticks_ok_def calibrated_by_def usb_zero_def)
  then have "usb_safe e ?R (mem w0) None v \<and> ticks_ok e v"
    using host_session_keeps [of cs ?R e "mem w0"] assms(2) by (fastforce dest: keeps_Done)
  then have "usb_safe e ?R (mem w0) None (host_world ?v) \<and> ticks_ok e (host_world ?v)"
    by (simp add: host_world_def mouse_zero_def world_eta)
  then have "case mouse_session calls e ?v of
      Done r w' \<Rightarrow> usb_safe e ?R (mem w0) None (host_world w') \<and> ticks_ok e (host_world w')
    | Panicked msg w' \<Rightarrow> usb_sound e ?R (mem w0) (host_world w')
    | Unfinished w' \<Rightarrow> usb_sound e ?R (mem w0) (host_world w') \<and> \<not> steady_clock e"
    using mouse_session_keeps [of calls ?R e "mem w0"] unfolding keeps_def by blast
  moreover have "case mouse_session calls e ?v of Done x w' \<Rightarrow> buffered w' \<and> True
     | Panicked msg w' \<Rightarrow> msg \<noteq> buffer_overrun \<and> msg \<noteq> undefined_read | Unfinished w' \<Rightarrow> True"
    using mouse_session_clean [of calls, unfolded clean_def, rule_format, of ?v e] by (simp add: mouse_zero_def)
  ultimately show ?thesis
    using assms(1) unfolding Let_def
    by (cases "mouse_session calls e ?v") (auto simp: usb_safe_def usb_sound_def host_world_def)
qed

theorem usb_mouse_calls_safe_witness:
  "let w = (start_world undefined)\<lparr>vars := usb_zero () (storage_zero\<lparr>bv_ticks_per_ms := 0\<rparr>)\<rparr>;
       v = final (host_session [Disable_port 4 0, Poll] ticking_env w);
       run = mouse_session [Discover, Service, Uhci_interrupt 0x41, Service] ticking_env
         \<lparr>io = io v, mem = mem v, cpu_regs = cpu_regs v, vars = mouse_zero (vars v)\<rparr>
   in host_ok (um_host (vars (final run))) \<and>
       ((\<exists>w'. run = Done () w') \<or> (\<exists>msg w'. run = Panicked msg w' \<and> msg \<noteq> buffer_overrun \<and> msg \<noteq> undefined_read))"
proof -
  let ?w = "(start_world undefined)\<lparr>vars := usb_zero () (storage_zero\<lparr>bv_ticks_per_ms := 0\<rparr>)\<rparr>"
  have "host_session [Disable_port 4 0, Poll] ticking_env ?w = Done () (final (host_session [Disable_port 4 0, Poll] ticking_env ?w))"
    by (simp add: usb_uhci_disable_port_def usb_host_poll_def usb_zero_def run_andthen run_bind run_gets run_ret)
  from usb_mouse_calls_safe [OF ticking_env_steady this] show ?thesis unfolding Let_def .
qed

end
