(* ===== verification/Intel915.thy ===== *)
theory Intel915
  imports Machine
begin

text \<open>
  The part of \<^verbatim>\<open>Drivers/Intel915/Intel915.c\<close> shared by the kernel and the ring-1
  build: cursor motion and the kernel's cursor flush, the search for contiguous cursor
  pages, the cursor bitmap, the framebuffer layout and the GPU command scene. The state is
  the shared page \<^verbatim>\<open>struct intel915_shared\<close> of \<^verbatim>\<open>Intel915.h\<close>.
\<close>

section \<open>State\<close>

abbreviation (input) I915_READY :: u32 where "I915_READY \<equiv> 1"
abbreviation (input) I915_DRAWN :: u32 where "I915_DRAWN \<equiv> 2"
abbreviation (input) I915_CURSOR_BATCH :: u32 where "I915_CURSOR_BATCH \<equiv> 64"
abbreviation (input) I915_FB_MAX_SIZE :: u32 where "I915_FB_MAX_SIZE \<equiv> 0x800000"
abbreviation (input) I915_RING_DWORDS :: u32 where "I915_RING_DWORDS \<equiv> 1024"
abbreviation (input) I915_RECTANGLE :: u32 where "I915_RECTANGLE \<equiv> 0x246C80"
abbreviation (input) I915_CURSOR_WIDTH :: u32 where "I915_CURSOR_WIDTH \<equiv> 12"
abbreviation (input) I915_CURSOR_HEIGHT :: u32 where "I915_CURSOR_HEIGHT \<equiv> 16"
abbreviation (input) CURSOR_CONTROL :: u32 where "CURSOR_CONTROL \<equiv> 0x70080"
abbreviation (input) CURSOR_BASE :: u32 where "CURSOR_BASE \<equiv> 0x70084"
abbreviation (input) CURSOR_POSITION :: u32 where "CURSOR_POSITION \<equiv> 0x70088"
abbreviation (input) CURSOR_STRIDE :: u32 where "CURSOR_STRIDE \<equiv> 0x40"

record cursor_motion =
  cm_dx :: u32
  cm_dy :: u32

record intel915_shared =
  g_owner_tss_selector :: u32
  g_request_count :: u32
  g_code_selector :: u32
  g_data_selector :: u32
  g_entry_gate :: u32
  g_status :: u32
  g_stage :: u32
  g_observed_cs :: u32
  g_pci_address :: u32
  g_mmio_physical :: u32
  g_gtt_physical :: u32
  g_aperture_physical :: u32
  g_aperture_size :: u32
  g_stolen_base :: u32
  g_width :: u32
  g_height :: u32
  g_pitch :: u32
  g_framebuffer_bytes :: u32
  g_framebuffer_gtt :: u32
  g_ring_gtt :: u32
  g_hws_physical :: u32
  g_ring_physical :: u32
  g_pipe :: u32
  g_command_bytes :: u32
  g_ring_head :: u32
  g_ring_tail :: u32
  g_completion :: u32
  g_pgtbl_control :: u32
  g_old_vga_control :: u32
  g_old_plane_a :: u32
  g_old_plane_b :: u32
  g_old_plane_base_a :: u32
  g_old_plane_base_b :: u32
  g_busy :: u32
  g_cursor_physical :: u32
  g_cursor_x :: u32
  g_cursor_y :: u32
  g_cursor_enabled :: u32
  g_cursor_updates :: u32

section \<open>Cursor motion\<close>

definition intel915_cursor_position :: "u32 \<Rightarrow> u32 \<Rightarrow> u32 \<Rightarrow> u32 \<Rightarrow> u32" where
  "intel915_cursor_position width height x y =
     (if width = 0 \<or> height = 0 \<or> width > 2048 \<or> height > 2048 \<or> x \<ge> width \<or> y \<ge> height
      then 0xFFFFFFFF else push_bit 16 y OR x)"

text \<open>\<open>delta\<close> is an \<^verbatim>\<open>int32_t\<close>: its sign is read with \<^verbatim>\<open>sint\<close>.\<close>

definition intel915_move_axis :: "u32 \<Rightarrow> u32 \<Rightarrow> u32 \<Rightarrow> u32" where
  "intel915_move_axis position delta limit =
     (if limit = 0 \<or> limit > 2048 then 0
      else
        let position = (if position \<ge> limit then limit - 1 else position)
        in if sint delta < 0
           then let distance = 0 - delta
                in if distance > position then 0 else position - distance
           else if delta \<ge> limit - position then limit - 1 else position + delta)"

fun cursor_walk :: "cursor_motion list \<Rightarrow> u32 \<Rightarrow> u32 \<Rightarrow> u32 \<times> u32 \<Rightarrow> u32 \<times> u32" where
  "cursor_walk [] width height (x, y) = (x, y)"
| "cursor_walk (m # ms) width height (x, y) =
     cursor_walk ms width height
       (intel915_move_axis x (cm_dx m) width, intel915_move_axis y (cm_dy m) height)"

text \<open>The condition under which a flush is performed.\<close>

definition cursor_usable :: "intel915_shared \<Rightarrow> bool" where
  "cursor_usable s \<longleftrightarrow> g_status s = I915_DRAWN \<and> g_cursor_enabled s \<noteq> 0 \<and> g_pipe s \<le> 1 \<and>
     g_cursor_physical s \<noteq> 0 \<and> g_cursor_physical s AND 4095 = 0 \<and>
     g_width s \<noteq> 0 \<and> g_width s \<le> 2048 \<and> g_height s \<noteq> 0 \<and> g_height s \<le> 2048"

text \<open>
  \<^verbatim>\<open>intel915_cursor_flush\<close>. The motion array is a list, whose length is \<^verbatim>\<open>count\<close>;
  \<open>present\<close> says whether the state pointer is non-NULL, \<open>registers\<close> is the address of the
  register window.
\<close>

definition intel915_cursor_flush ::
  "bool \<Rightarrow> u32 \<Rightarrow> cursor_motion list \<Rightarrow> (intel915_shared, u32) prog" where
  "intel915_cursor_flush present registers motions =
     (if \<not> present \<or> registers = 0 \<or> motions = [] \<or> length motions > unat I915_CURSOR_BATCH then ret 0
      else bind (gets g_busy) (\<lambda>busy.
       andthen (modify (\<lambda>s. s\<lparr>g_busy := 1\<rparr>))
      (if busy \<noteq> 0 then ret 0
       else bind (gets id) (\<lambda>s.
         bind (if cursor_usable s then
             let (x, y) = cursor_walk motions (g_width s) (g_height s) (g_cursor_x s, g_cursor_y s);
                 offset = g_pipe s * CURSOR_STRIDE
             in andthen
                 (cond (x \<noteq> g_cursor_x s \<or> y \<noteq> g_cursor_y s)
                   (andthen (mmio_write (registers + (CURSOR_POSITION + offset)) (push_bit 16 y OR x))
                   (andthen (andthen (mmio_read (registers + (CURSOR_POSITION + offset))) (ret ()))
                   (andthen (mmio_write (registers + (CURSOR_BASE + offset)) (g_cursor_physical s))
                   (andthen (andthen (mmio_read (registers + (CURSOR_BASE + offset))) (ret ()))
                    (modify (\<lambda>s. s\<lparr>g_cursor_x := x, g_cursor_y := y,
                       g_cursor_updates := g_cursor_updates s + 1\<rparr>)))))))
                 (ret 1)
           else ret 0)
         (\<lambda>result. andthen (modify (\<lambda>s. s\<lparr>g_busy := 0\<rparr>)) (ret result))))))"

section \<open>Cursor memory and bitmap\<close>

definition cursor_run_at :: "u32 list \<Rightarrow> nat \<Rightarrow> bool" where
  "cursor_run_at pages i \<longleftrightarrow>
     (let base = pages ! i
      in base \<noteq> 0 \<and> base AND 4095 = 0 \<and> base \<le> 0xFFFFC000 \<and> pages ! (i + 1) = base + 4096 \<and>
         pages ! (i + 2) = base + 8192 \<and> pages ! (i + 3) = base + 12288)"

fun cursor_pages_from :: "u32 list \<Rightarrow> nat \<Rightarrow> nat \<Rightarrow> u32" where
  "cursor_pages_from pages i 0 = 0xFFFFFFFF"
| "cursor_pages_from pages i (Suc n) =
     (if cursor_run_at pages i then of_nat i else cursor_pages_from pages (Suc i) n)"

text \<open>The page array is the list of its \<^verbatim>\<open>count\<close> entries; the loop runs to \<^verbatim>\<open>count - 4\<close>.\<close>

definition intel915_find_cursor_pages :: "u32 list \<Rightarrow> u32" where
  "intel915_find_cursor_pages pages =
     (if length pages < 4 then 0xFFFFFFFF else cursor_pages_from pages 0 (length pages - 3))"

definition cursor_color :: "nat \<Rightarrow> nat \<Rightarrow> u32" where
  "cursor_color x y =
     (if y < 12 \<and> x \<le> y then
        (if y > 1 \<and> y < 11 \<and> x > 0 \<and> x < y then 0xFFFFFFFF else 0xFF000000)
      else if y \<ge> 12 \<and> y < 16 then
        (let left = 5 + (y - 12) div 2
         in if x \<ge> left \<and> x < left + 4
            then (if y < 15 \<and> x > left \<and> x < left + 3 then 0xFFFFFFFF else 0xFF000000)
            else 0)
      else 0)"

definition cursor_row :: "nat \<Rightarrow> (nat \<Rightarrow> u32) \<Rightarrow> (nat \<Rightarrow> u32)" where
  "cursor_row y pixels = fold (\<lambda>x p. p(y * 64 + x := cursor_color x y)) [0..<64] pixels"

definition intel915_build_cursor :: "(nat \<Rightarrow> u32) \<Rightarrow> u32 \<Rightarrow> u32 \<times> (nat \<Rightarrow> u32)" where
  "intel915_build_cursor pixels capacity =
     (if capacity < 0x4000 div 4 then (0, pixels) else (1, fold cursor_row [0..<64] pixels))"

section \<open>Framebuffer layout and command scene\<close>

definition intel915_mode_layout :: "u32 \<Rightarrow> u32 \<Rightarrow> (u32 \<times> u32) option" where
  "intel915_mode_layout width height =
     (if width < 320 \<or> width > 2048 \<or> height < 200 \<or> height > 2048 then None
      else
        let row = (width * 4 + 63) AND NOT 63;
            size = (row * height + 4095) AND NOT 4095
        in if size > I915_FB_MAX_SIZE then None else Some (row, size))"

record command_buffer =
  cb_words :: "u32 \<Rightarrow> u32"
  cb_count :: u32
  cb_capacity :: u32
  cb_width :: u32
  cb_height :: u32
  cb_pitch :: u32
  cb_destination :: u32
  cb_failed :: u32

definition fill_rectangle ::
  "command_buffer \<Rightarrow> u32 \<Rightarrow> u32 \<Rightarrow> u32 \<Rightarrow> u32 \<Rightarrow> u32 \<Rightarrow> command_buffer" where
  "fill_rectangle b x y width height color =
     (if x \<ge> cb_width b \<or> y \<ge> cb_height b \<or> width = 0 \<or> height = 0 then b
      else
        let width = (if width > cb_width b - x then cb_width b - x else width);
            height = (if height > cb_height b - y then cb_height b - y else height)
        in if cb_capacity b - cb_count b < 6 then b\<lparr>cb_failed := 1\<rparr>
           else
             let c = cb_count b
             in b\<lparr>cb_words := (cb_words b)(c := 0x54300004,
                    c + 1 := push_bit 24 3 OR push_bit 16 0xF0 OR cb_pitch b,
                    c + 2 := push_bit 16 y OR x,
                    c + 3 := push_bit 16 (y + height) OR (x + width),
                    c + 4 := cb_destination b, c + 5 := color),
                  cb_count := c + 6\<rparr>)"

definition push_word :: "u32 \<Rightarrow> command_buffer \<Rightarrow> command_buffer" where
  "push_word v b = b\<lparr>cb_words := (cb_words b)(cb_count b := v), cb_count := cb_count b + 1\<rparr>"

text \<open>The result is the number of bytes, 0 for a refusal, and the command words.\<close>

definition intel915_build_scene ::
  "(u32 \<Rightarrow> u32) \<Rightarrow> u32 \<Rightarrow> u32 \<Rightarrow> u32 \<Rightarrow> u32 \<Rightarrow> u32 \<Rightarrow> u32 \<times> (u32 \<Rightarrow> u32)" where
  "intel915_build_scene commands capacity width height pitch framebuffer_gtt =
     (case intel915_mode_layout width height of
        None \<Rightarrow> (0, commands)
      | Some (expected_pitch, bytes) \<Rightarrow>
          if pitch \<noteq> expected_pitch \<or> framebuffer_gtt AND 4095 \<noteq> 0 \<or>
             framebuffer_gtt > 0x10000000 - bytes \<or> capacity < 8 \<or> capacity > I915_RING_DWORDS
          then (0, commands)
          else
            let b = \<lparr>cb_words = commands, cb_count = 0, cb_capacity = capacity - 8, cb_width = width,
                     cb_height = height, cb_pitch = pitch, cb_destination = framebuffer_gtt, cb_failed = 0\<rparr>;
                b = fill_rectangle b 0 0 width height I915_RECTANGLE
            in if cb_failed b \<noteq> 0 then (0, cb_words b)
               else
                 let b = push_word 0x915D0001 (push_word (push_bit 2 0x20)
                           (push_word 0x10800001 (push_word 0x02000000 b)));
                     b = (if cb_count b AND 1 \<noteq> 0 then push_word 0 b else b)
                 in (cb_count b * 4, cb_words b))"

section \<open>Motion lemmas\<close>

text \<open>What moving along one axis means: add the signed delta and clamp to the screen.\<close>

definition clamp_axis :: "int \<Rightarrow> int \<Rightarrow> int" where
  "clamp_axis limit v = max 0 (min (limit - 1) v)"

lemma sint_as_uint: "sint (d :: u32) = uint d - (if bit (uint d) 31 then 2 ^ 32 else 0)"
proof -
  have "take_bit 32 (uint d) = uint d" using uint_lt2p [of d] by (simp add: take_bit_eq_mod)
  then show ?thesis by (simp add: sint_uint signed_take_bit_eq_take_bit_minus)
qed

lemma sint_negative: "sint (d :: u32) < 0 \<Longrightarrow> uint (0 - d) = - sint d"
  using uint_lt2p [of d]
  by (auto simp: sint_as_uint uint_word_ariths zmod_zminus1_eq_if split: if_splits)

lemma sint_nonnegative: "\<not> sint (d :: u32) < 0 \<Longrightarrow> uint d = sint d"
  using uint_lt2p [of d] by (auto simp: sint_as_uint split: if_splits)

lemma move_axis_clamps:
  assumes "0 < limit" "limit \<le> 2048"
  shows "int (unat (intel915_move_axis p d limit)) =
    clamp_axis (uint limit) (min (uint p) (uint limit - 1) + sint d)"
proof -
  define q where "q = (if p \<ge> limit then limit - 1 else p)"
  have l: "0 < uint limit" "uint limit \<le> 2048" using assms by (simp_all add: word_less_alt word_le_def)
  have q: "uint q = min (uint p) (uint limit - 1)" "q < limit"
    using assms uint_sub_if' [of limit 1] l
    by (auto simp: q_def word_le_def word_less_alt)
  have eq: "intel915_move_axis p d limit =
      (if sint d < 0 then (if 0 - d > q then 0 else q - (0 - d))
       else if d \<ge> limit - q then limit - 1 else q + d)"
    using assms unfolding intel915_move_axis_def Let_def q_def [symmetric] by auto
  have u: "uint (limit - 1) = uint limit - 1" "uint (limit - q) = uint limit - uint q"
    using uint_sub_if' [of limit 1] uint_sub_if' [of limit q] l q(2) by (simp_all add: word_less_alt)
  show ?thesis
  proof (cases "sint d < 0")
    case True
    have "uint (q - (0 - d)) = uint q + sint d" if "- sint d \<le> uint q"
      using uint_sub_if' [of q "0 - d"] sint_negative [OF True] that by simp
    then show ?thesis
      using True l q(2) sint_negative [OF True] unfolding eq q(1) [symmetric]
      by (auto simp: clamp_axis_def word_less_alt simp del: diff_0)
  next
    case False
    have "uint (q + d) = uint q + sint d" if "\<not> uint limit - uint q \<le> sint d"
      using uint_plus_if' [of q d] sint_nonnegative [OF False] that l by simp
    then show ?thesis
      using False l q(2) u sint_nonnegative [OF False] unfolding eq q(1) [symmetric]
      by (auto simp: clamp_axis_def word_less_alt word_le_def)
  qed
qed

lemma move_axis_less:
  assumes "0 < limit" "limit \<le> 2048"
  shows "intel915_move_axis p d limit < limit"
proof -
  have "uint (intel915_move_axis p d limit) < uint limit"
    using move_axis_clamps [OF assms, of p d] assms by (simp add: clamp_axis_def word_less_alt)
  then show ?thesis by (simp add: word_less_alt)
qed

lemma cursor_walk_path:
  assumes "0 < width" "width \<le> 2048" "0 < height" "height \<le> 2048" "x < width" "y < height"
    and "cursor_walk ms width height (x, y) = (x', y')"
  shows "x' < width \<and> y' < height
    \<and> int (unat x') = fold (\<lambda>m v. clamp_axis (uint width) (v + sint (cm_dx m))) ms (int (unat x))
    \<and> int (unat y') = fold (\<lambda>m v. clamp_axis (uint height) (v + sint (cm_dy m))) ms (int (unat y))"
  using assms(5-7)
proof (induction ms arbitrary: x y)
  case (Cons m ms)
  have "min (uint x) (uint width - 1) = uint x" "min (uint y) (uint height - 1) = uint y"
    using Cons.prems(1,2) by (auto simp: word_less_alt)
  then show ?case
    using Cons.IH [of "intel915_move_axis x (cm_dx m) width" "intel915_move_axis y (cm_dy m) height"]
      Cons.prems move_axis_less assms(1-4) move_axis_clamps [of width x "cm_dx m"]
      move_axis_clamps [of height y "cm_dy m"]
    by simp
qed simp

section \<open>Layout and scene lemmas\<close>

lemma round_up_nat:
  assumes "r = (x + (n - 1)) - (x + (n - 1)) mod n" "0 < (n :: nat)"
  shows "n dvd r" "x \<le> r" "r < x + n"
proof -
  show "n dvd r" using assms(1) by simp
  have "(x + (n - 1)) mod n < n" using assms(2) by simp
  then show "x \<le> r" "r < x + n" using assms by linarith+
qed

lemma mode_layout_sizes:
  assumes "intel915_mode_layout width height = Some (pitch, bytes)"
  shows "320 \<le> unat width \<and> unat width \<le> 2048 \<and> 200 \<le> unat height \<and> unat height \<le> 2048 \<and>
    64 dvd unat pitch \<and> unat width * 4 \<le> unat pitch \<and> unat pitch < unat width * 4 + 64 \<and>
    4096 dvd unat bytes \<and> unat pitch * unat height \<le> unat bytes \<and> unat bytes \<le> 0x800000"
proof -
  have d: "\<not> width < 320" "\<not> width > 2048" "\<not> height < 200" "\<not> height > 2048"
    "pitch = (width * 4 + 63) AND NOT 63" "bytes = (pitch * height + 4095) AND NOT 4095"
    "\<not> bytes > 0x800000"
    using assms by (auto simp: intel915_mode_layout_def Let_def split: if_splits)
  have w: "320 \<le> unat width" "unat width \<le> 2048" "200 \<le> unat height" "unat height \<le> 2048"
    using d(1-4) by (simp_all add: word_less_nat_alt not_less)
  have p: "unat pitch = (unat width * 4 + 63) - (unat width * 4 + 63) mod 64"
    using w(2) d(5) unat_and_not_mask [of "width * 4 + 63" 6]
    by (simp add: numeral_masks(5) [symmetric] unat_word_ariths)
  have pb: "64 dvd unat pitch" "unat width * 4 \<le> unat pitch" "unat pitch < unat width * 4 + 64"
    using round_up_nat [of "unat pitch" "unat width * 4" 64] p by simp_all
  have "unat pitch * unat height \<le> 8256 * 2048" using pb w by (intro mult_mono) auto
  then have "unat (pitch * height + 4095) = unat pitch * unat height + 4095"
    by (simp add: unat_word_ariths)
  then have b: "unat bytes = (unat pitch * unat height + 4095) - (unat pitch * unat height + 4095) mod 4096"
    using d(6) unat_and_not_mask [of "pitch * height + 4095" 12]
    by (simp add: numeral_masks(9) [symmetric])
  then have "4096 dvd unat bytes" "unat pitch * unat height \<le> unat bytes"
    using round_up_nat [of "unat bytes" "unat pitch * unat height" 4096] by simp_all
  then show ?thesis using w pb d(7) by (auto simp: word_less_nat_alt not_less)
qed

section \<open>Cursor page search\<close>

lemma cursor_pages_from_spec:
  "i + n < 2 ^ 32 - 1 \<Longrightarrow> cursor_pages_from pages i n =
    (if \<exists>k. i \<le> k \<and> k < i + n \<and> cursor_run_at pages k
     then of_nat (LEAST k. i \<le> k \<and> cursor_run_at pages k) else 0xFFFFFFFF)"
proof (induction n arbitrary: i)
  case (Suc n)
  show ?case
  proof (cases "cursor_run_at pages i")
    case True
    then have "(LEAST k. i \<le> k \<and> cursor_run_at pages k) = i" by (intro Least_equality) auto
    then show ?thesis using True by auto
  next
    case False
    then have *: "(i \<le> k \<and> cursor_run_at pages k) = (Suc i \<le> k \<and> cursor_run_at pages k)" for k
      by (auto simp: Suc_le_eq le_less)
    have "(\<exists>k. i \<le> k \<and> k < i + Suc n \<and> cursor_run_at pages k) =
        (\<exists>k. Suc i \<le> k \<and> k < Suc i + n \<and> cursor_run_at pages k)"
      using * by (metis add_Suc_right add_Suc_shift)
    then show ?thesis using False Suc.IH [of "Suc i"] Suc.prems * by auto
  qed
qed auto

section \<open>The flush, run\<close>

lemma cursor_flush_run:
  fixes w
  defines "s \<equiv> vars w"
  assumes "registers \<noteq> 0" "motions \<noteq> []" "length motions \<le> 64" "g_busy s = 0" "cursor_usable s"
    and "cursor_walk motions (g_width s) (g_height s) (g_cursor_x s, g_cursor_y s) = (x, y)"
  shows "x = g_cursor_x s \<Longrightarrow> y = g_cursor_y s \<Longrightarrow> intel915_cursor_flush True registers motions e w = Done 1 w"
    and "x \<noteq> g_cursor_x s \<or> y \<noteq> g_cursor_y s \<Longrightarrow>
      \<exists>w' v1 v2. intel915_cursor_flush True registers motions e w = Done 1 w' \<and>
        vars w' = s\<lparr>g_cursor_x := x, g_cursor_y := y, g_cursor_updates := g_cursor_updates s + 1\<rparr> \<and>
        io w' = [Mmio_read (registers + (CURSOR_BASE + g_pipe s * CURSOR_STRIDE)) v2,
          Mmio_write (registers + (CURSOR_BASE + g_pipe s * CURSOR_STRIDE)) (g_cursor_physical s),
          Mmio_read (registers + (CURSOR_POSITION + g_pipe s * CURSOR_STRIDE)) v1,
          Mmio_write (registers + (CURSOR_POSITION + g_pipe s * CURSOR_STRIDE)) (push_bit 16 y OR x)] @ io w"
proof -
  let ?w = "w\<lparr>vars := s\<lparr>g_busy := 1\<rparr>\<rparr>"
  have u: "cursor_usable (s\<lparr>g_busy := 1\<rparr>)" using assms(6) by (simp add: cursor_usable_def)
  have same: "s\<lparr>g_busy := 0\<rparr> = s" using assms(5) by simp
  have w: "w\<lparr>vars := s\<rparr> = w" by (simp add: s_def)
  show "x = g_cursor_x s \<Longrightarrow> y = g_cursor_y s \<Longrightarrow> intel915_cursor_flush True registers motions e w = Done 1 w"
    using assms(2-5,7) u same w unfolding s_def [symmetric]
    by (simp add: intel915_cursor_flush_def prog_simps Let_def s_def [symmetric])
  show "\<exists>w' v1 v2. intel915_cursor_flush True registers motions e w = Done 1 w' \<and>
        vars w' = s\<lparr>g_cursor_x := x, g_cursor_y := y, g_cursor_updates := g_cursor_updates s + 1\<rparr> \<and>
        io w' = [Mmio_read (registers + (CURSOR_BASE + g_pipe s * CURSOR_STRIDE)) v2,
          Mmio_write (registers + (CURSOR_BASE + g_pipe s * CURSOR_STRIDE)) (g_cursor_physical s),
          Mmio_read (registers + (CURSOR_POSITION + g_pipe s * CURSOR_STRIDE)) v1,
          Mmio_write (registers + (CURSOR_POSITION + g_pipe s * CURSOR_STRIDE)) (push_bit 16 y OR x)] @ io w"
    if "x \<noteq> g_cursor_x s \<or> y \<noteq> g_cursor_y s"
    using assms(2-5,7) u same that
    by (simp add: intel915_cursor_flush_def prog_simps Let_def s_def [symmetric])
qed

text \<open>A page of zeros, as the kernel clears it, and one with a drawn 1024 by 768 desktop.\<close>

definition i915_blank :: intel915_shared where
  "i915_blank = \<lparr>g_owner_tss_selector = 0, g_request_count = 0, g_code_selector = 0, g_data_selector = 0,
     g_entry_gate = 0, g_status = 0, g_stage = 0, g_observed_cs = 0, g_pci_address = 0,
     g_mmio_physical = 0, g_gtt_physical = 0, g_aperture_physical = 0, g_aperture_size = 0,
     g_stolen_base = 0, g_width = 0, g_height = 0, g_pitch = 0, g_framebuffer_bytes = 0,
     g_framebuffer_gtt = 0, g_ring_gtt = 0, g_hws_physical = 0, g_ring_physical = 0, g_pipe = 0,
     g_command_bytes = 0, g_ring_head = 0, g_ring_tail = 0, g_completion = 0, g_pgtbl_control = 0,
     g_old_vga_control = 0, g_old_plane_a = 0, g_old_plane_b = 0, g_old_plane_base_a = 0,
     g_old_plane_base_b = 0, g_busy = 0, g_cursor_physical = 0, g_cursor_x = 0, g_cursor_y = 0,
     g_cursor_enabled = 0, g_cursor_updates = 0\<rparr>"

definition i915_drawn :: intel915_shared where
  "i915_drawn = i915_blank\<lparr>g_status := 2, g_stage := 6, g_width := 1024, g_height := 768, g_cursor_enabled := 1,
     g_cursor_physical := 0x100000, g_cursor_x := 4, g_cursor_y := 7\<rparr>"

section \<open>Properties\<close>

text \<open>
  C13: the kernel's cursor flush. On a drawn desktop with the lock free, a batch of 1 to 64
  motions returns 1, leaves the lock free and the cursor on the screen, at the position the
  signed deltas give when each step is clamped to the screen; the hardware position register
  of the active pipe, and the base register that latches it, are written exactly when the
  position changed, and nothing else is written.
\<close>

theorem cursor_flush_moves_and_clamps:
  assumes "registers \<noteq> 0" "motions \<noteq> []" "length motions \<le> 64"
    and "g_busy (vars w) = 0" "cursor_usable (vars w)"
    and "g_cursor_x (vars w) < g_width (vars w)" "g_cursor_y (vars w) < g_height (vars w)"
  shows "\<exists>x y w'. intel915_cursor_flush True registers motions e w = Done 1 w' \<and>
    x < g_width (vars w) \<and> y < g_height (vars w) \<and>
    int (unat x) = fold (\<lambda>m v. clamp_axis (uint (g_width (vars w))) (v + sint (cm_dx m))) motions (int (unat (g_cursor_x (vars w)))) \<and>
    int (unat y) = fold (\<lambda>m v. clamp_axis (uint (g_height (vars w))) (v + sint (cm_dy m))) motions (int (unat (g_cursor_y (vars w)))) \<and>
    (if x = g_cursor_x (vars w) \<and> y = g_cursor_y (vars w) then w' = w
     else vars w' = (vars w)\<lparr>g_cursor_x := x, g_cursor_y := y, g_cursor_updates := g_cursor_updates (vars w) + 1\<rparr> \<and>
       (\<exists>v1 v2. io w' = [Mmio_read (registers + (0x70084 + g_pipe (vars w) * 0x40)) v2,
          Mmio_write (registers + (0x70084 + g_pipe (vars w) * 0x40)) (g_cursor_physical (vars w)),
          Mmio_read (registers + (0x70088 + g_pipe (vars w) * 0x40)) v1,
          Mmio_write (registers + (0x70088 + g_pipe (vars w) * 0x40))
            (intel915_cursor_position (g_width (vars w)) (g_height (vars w)) x y)] @ io w))"
proof -
  obtain x y where walk: "cursor_walk motions (g_width (vars w)) (g_height (vars w))
      (g_cursor_x (vars w), g_cursor_y (vars w)) = (x, y)" by fastforce
  have b: "0 < g_width (vars w)" "g_width (vars w) \<le> 2048" "0 < g_height (vars w)" "g_height (vars w) \<le> 2048"
    using assms(5) by (auto simp: cursor_usable_def word_neq_0_conv)
  note path = cursor_walk_path [OF b assms(6,7) walk]
  then have pos: "intel915_cursor_position (g_width (vars w)) (g_height (vars w)) x y = push_bit 16 y OR x"
    using b by (auto simp: intel915_cursor_position_def)
  note run = cursor_flush_run [OF assms(1-5) walk]
  show ?thesis
  proof (cases "x = g_cursor_x (vars w) \<and> y = g_cursor_y (vars w)")
    case True
    then have "intel915_cursor_flush True registers motions e w = Done 1 w" using run(1) by blast
    with True path show ?thesis by metis
  next
    case False
    then obtain w' v1 v2 where "intel915_cursor_flush True registers motions e w = Done 1 w'"
      "vars w' = (vars w)\<lparr>g_cursor_x := x, g_cursor_y := y, g_cursor_updates := g_cursor_updates (vars w) + 1\<rparr>"
      "io w' = [Mmio_read (registers + (CURSOR_BASE + g_pipe (vars w) * CURSOR_STRIDE)) v2,
          Mmio_write (registers + (CURSOR_BASE + g_pipe (vars w) * CURSOR_STRIDE)) (g_cursor_physical (vars w)),
          Mmio_read (registers + (CURSOR_POSITION + g_pipe (vars w) * CURSOR_STRIDE)) v1,
          Mmio_write (registers + (CURSOR_POSITION + g_pipe (vars w) * CURSOR_STRIDE)) (push_bit 16 y OR x)] @ io w"
      using run(2) by blast
    then show ?thesis using path False unfolding pos [symmetric] by metis
  qed
qed

theorem cursor_flush_moves_and_clamps_witness:
  "\<exists>(x :: u32) (y :: u32) w'. intel915_cursor_flush True 0x71400000 [\<lparr>cm_dx = -5, cm_dy = 3\<rparr>, \<lparr>cm_dx = 2, cm_dy = 0\<rparr>]
      null_env (start_world i915_drawn) = Done 1 w' \<and> x < 1024 \<and> y < 768 \<and>
    int (unat x) = 2 \<and> int (unat y) = 10"
proof -
  let ?ms = "[\<lparr>cm_dx = -5, cm_dy = 3\<rparr>, \<lparr>cm_dx = 2, cm_dy = 0\<rparr>]" and ?w = "start_world i915_drawn"
  have g: "g_width (vars ?w) = 1024" "g_height (vars ?w) = 768" "g_busy (vars ?w) = 0"
    "g_cursor_x (vars ?w) = 4" "g_cursor_y (vars ?w) = 7" "cursor_usable (vars ?w)"
    by (simp_all add: i915_drawn_def i915_blank_def cursor_usable_def)
  have h: "(0x71400000 :: u32) \<noteq> 0" "?ms \<noteq> []" "length ?ms \<le> 64"
    "g_cursor_x (vars ?w) < g_width (vars ?w)" "g_cursor_y (vars ?w) < g_height (vars ?w)"
    by (simp_all add: i915_drawn_def)
  have f: "fold (\<lambda>m v. clamp_axis (uint (1024 :: u32)) (v + sint (cm_dx m))) ?ms 4 = 2"
    "fold (\<lambda>m v. clamp_axis (uint (768 :: u32)) (v + sint (cm_dy m))) ?ms 7 = 10"
    by (simp_all add: clamp_axis_def)
  from cursor_flush_moves_and_clamps [OF h(1-3) g(3,6) h(4,5), of null_env]
  obtain x y w' where "intel915_cursor_flush True 0x71400000 ?ms null_env ?w = Done 1 w'"
    "x < g_width (vars ?w)" "y < g_height (vars ?w)"
    "int (unat x) = fold (\<lambda>m v. clamp_axis (uint (g_width (vars ?w))) (v + sint (cm_dx m))) ?ms
       (int (unat (g_cursor_x (vars ?w))))"
    "int (unat y) = fold (\<lambda>m v. clamp_axis (uint (g_height (vars ?w))) (v + sint (cm_dy m))) ?ms
       (int (unat (g_cursor_y (vars ?w))))"
    by (elim exE conjE) (rule that)
  then show ?thesis unfolding g using f
    by (intro exI [of _ x] exI [of _ y] exI [of _ w']) simp
qed





end
