(* ===== verification/Mouse_Driver.thy ===== *)
theory Mouse_Driver
  imports Ring_Buffer Intel915
begin

text \<open>
  \<^verbatim>\<open>Drivers/Usb/MouseDriver.h\<close> and \<^verbatim>\<open>Drivers/Usb/MouseDriver.c\<close>: the queue of raw
  boot-mouse reports and its ring-2 decoder, the kernel's own cursor queue with its drain
  into the graphics driver, and the report callback that feeds both.
\<close>

section \<open>State\<close>

abbreviation (input) MOUSE_EVENT_VALID :: u32 where "MOUSE_EVENT_VALID \<equiv> 0x80000000"
abbreviation (input) MOUSE_EVENT_LOST :: u32 where "MOUSE_EVENT_LOST \<equiv> 0x40000000"
abbreviation (input) MOUSE_BUSY :: u32 where "MOUSE_BUSY \<equiv> 0x20000000"
abbreviation (input) MOUSE_BAD_REQUEST :: u32 where "MOUSE_BAD_REQUEST \<equiv> 0x10000000"
abbreviation (input) MOUSE_REPORT_BYTES :: u32 where "MOUSE_REPORT_BYTES \<equiv> 64"
abbreviation (input) MOUSE_CONTROLLER_COUNT :: u32 where "MOUSE_CONTROLLER_COUNT \<equiv> 4"

record mouse_packet =
  mp_controller :: u32
  mp_length :: u32
  mp_data :: "u8 list"

record mouse_shared =
  ms_lock :: u32
  ms_head :: u32
  ms_tail :: u32
  ms_dropped :: u32
  ms_connected :: u32
  ms_last_cpl :: u32
  ms_calls :: u32
  ms_decoded :: u32
  ms_malformed :: u32
  ms_observed_dropped :: u32
  ms_buttons :: "u8 list"
  ms_packets :: "mouse_packet list"

text \<open>\<open>dx\<close> and \<open>dy\<close> are \<^verbatim>\<open>int8_t\<close>; they keep their eight bits here.\<close>

record mouse_cursor_packet =
  cp_dx :: u8
  cp_dy :: u8
  cp_controller :: u8

record mouse_cursor_queue =
  cq_head :: u32
  cq_tail :: u32
  cq_dropped :: u32
  cq_peak_pending :: u32
  cq_saturated_reports :: u32
  cq_flushes :: u32
  cq_retry_count :: u32
  cq_packets :: "mouse_cursor_packet list"

definition is_connected :: "u32 \<Rightarrow> nat \<Rightarrow> bool" where
  "is_connected connected n \<longleftrightarrow> connected AND push_bit n 1 \<noteq> 0"

section \<open>The cursor queue\<close>

text \<open>\<open>data\<close> is the report buffer, \<open>None\<close> for a NULL pointer.\<close>

definition mouse_cursor_enqueue ::
  "mouse_cursor_queue \<Rightarrow> u32 \<Rightarrow> u8 list option \<Rightarrow> u32 \<Rightarrow> mouse_cursor_queue" where
  "mouse_cursor_enqueue queue controller data len =
     (case data of None \<Rightarrow> queue
      | Some d \<Rightarrow>
          if controller \<ge> MOUSE_CONTROLLER_COUNT \<or> len < 3 \<or> len > MOUSE_REPORT_BYTES \<or>
             (d ! 1 = 0 \<and> d ! 2 = 0) then queue
          else
            let next_head = (cq_head queue + 1) AND 63
            in if next_head = cq_tail queue then queue\<lparr>cq_dropped := cq_dropped queue + 1\<rparr>
               else
                 let packet = \<lparr>cp_dx = d ! 1, cp_dy = d ! 2, cp_controller = ucast controller\<rparr>;
                     pending = (next_head - cq_tail queue) AND 63
                 in queue\<lparr>cq_packets := (cq_packets queue)[unat (cq_head queue) := packet],
                      cq_head := next_head,
                      cq_peak_pending := (if pending > cq_peak_pending queue then pending
                                          else cq_peak_pending queue),
                      cq_saturated_reports :=
                        (if d ! 1 = 0x7F \<or> d ! 1 = 0x80 \<or> d ! 2 = 0x7F \<or> d ! 2 = 0x80
                         then cq_saturated_reports queue + 1 else cq_saturated_reports queue)\<rparr>)"

text \<open>
  The cancel loop runs from tail to head with masked indices; with indices in range it
  ends, which is proved, and 64 steps are enough. \<open>None\<close> is a loop that does not.
\<close>

fun cursor_cancel_from :: "nat \<Rightarrow> u32 \<Rightarrow> u32 \<Rightarrow> mouse_cursor_queue \<Rightarrow> mouse_cursor_queue option" where
  "cursor_cancel_from n i controller queue =
     (if i = cq_head queue then Some queue
      else case n of 0 \<Rightarrow> None
      | Suc m \<Rightarrow>
          let packet = cq_packets queue ! unat i;
              queue1 = (if ucast (cp_controller packet) = controller
                        then queue\<lparr>cq_packets := (cq_packets queue)[unat i := packet\<lparr>cp_controller := 255\<rparr>]\<rparr>
                        else queue)
          in cursor_cancel_from m ((i + 1) AND 63) controller queue1)"

definition mouse_cursor_cancel :: "mouse_cursor_queue \<Rightarrow> u32 \<Rightarrow> mouse_cursor_queue option" where
  "mouse_cursor_cancel queue controller = cursor_cancel_from 64 (cq_tail queue) controller queue"

definition cursor_deliverable :: "u32 \<Rightarrow> mouse_cursor_packet \<Rightarrow> bool" where
  "cursor_deliverable connected packet \<longleftrightarrow>
     cp_controller packet < 4 \<and> is_connected connected (unat (cp_controller packet))"

text \<open>The batch loop: at most 64 packets are scanned; the result is the new tail and the motions.\<close>

fun cursor_collect :: "nat \<Rightarrow> u32 \<Rightarrow> u32 \<Rightarrow> mouse_cursor_queue \<Rightarrow> u32 \<times> cursor_motion list" where
  "cursor_collect 0 tail connected queue = (tail, [])"
| "cursor_collect (Suc n) tail connected queue =
     (if tail = cq_head queue then (tail, [])
      else
        let packet = cq_packets queue ! unat tail;
            (tail', motions) = cursor_collect n ((tail + 1) AND 63) connected queue
        in (tail', if cursor_deliverable connected packet
                   then \<lparr>cm_dx = scast (cp_dx packet), cm_dy = scast (cp_dy packet)\<rparr> # motions
                   else motions))"

text \<open>
  \<^verbatim>\<open>mouse_cursor_drain\<close>, over any \<^verbatim>\<open>submit\<close> function (\<open>None\<close> for NULL).
\<close>

definition mouse_cursor_drain ::
  "mouse_cursor_queue \<Rightarrow> u32 \<Rightarrow> (cursor_motion list \<Rightarrow> ('s, u32) prog) option \<Rightarrow>
   ('s, u32 \<times> mouse_cursor_queue) prog" where
  "mouse_cursor_drain queue connected submit =
     (let (tail, motions) = cursor_collect 64 (cq_tail queue) connected queue;
          failed = ret (0, queue\<lparr>cq_retry_count := cq_retry_count queue + 1\<rparr>)
      in if motions = [] then ret (0, queue\<lparr>cq_tail := tail\<rparr>)
         else case submit of
           None \<Rightarrow> failed
         | Some f \<Rightarrow> bind (f motions) (\<lambda>r.
             if r = 0 then failed
             else ret (of_nat (length motions),
                       queue\<lparr>cq_flushes := cq_flushes queue + 1, cq_tail := tail\<rparr>)))"

section \<open>The report queue\<close>

definition packet_write :: "mouse_packet \<Rightarrow> u32 \<Rightarrow> u8 list \<Rightarrow> u32 \<Rightarrow> mouse_packet" where
  "packet_write old controller data len =
     \<lparr>mp_controller = controller, mp_length = len,
      mp_data = take (unat len) data @ drop (unat len) (mp_data old)\<rparr>"

definition mouse_queue_report ::
  "mouse_shared \<Rightarrow> u32 \<Rightarrow> u8 list option \<Rightarrow> u32 \<Rightarrow> mouse_shared" where
  "mouse_queue_report state controller data len =
     (case data of None \<Rightarrow> state
      | Some d \<Rightarrow>
          if controller \<ge> MOUSE_CONTROLLER_COUNT \<or> len > MOUSE_REPORT_BYTES then state
          else
            let head = ms_head state; next_head = (head + 1) AND 31
            in if next_head = ms_tail state then state\<lparr>ms_dropped := ms_dropped state + 1\<rparr>
               else state\<lparr>ms_packets := (ms_packets state)[unat head :=
                            packet_write (ms_packets state ! unat head) controller d len],
                          ms_head := next_head\<rparr>)"

definition mouse_event :: "u32 \<Rightarrow> u32 \<Rightarrow> u32 \<Rightarrow> u32 \<Rightarrow> u32" where
  "mouse_event ident dx dy buttons =
     MOUSE_EVENT_VALID OR push_bit 24 ident OR push_bit 16 dy OR push_bit 8 dx OR buttons"

fun mouse_next_event :: "nat \<Rightarrow> mouse_shared \<Rightarrow> u32 \<times> mouse_shared" where
  "mouse_next_event 0 state = (0, state)"
| "mouse_next_event (Suc remaining) state =
     (if ms_tail state = ms_head state then (0, state)
      else
        let packet = ms_packets state ! unat (ms_tail state);
            id = mp_controller packet;
            len = mp_length packet;
            buttons = ucast (mp_data packet ! 0) AND 7;
            dx = ucast (mp_data packet ! 1);
            dy = ucast (mp_data packet ! 2);
            state1 = state\<lparr>ms_tail := (ms_tail state + 1) AND 31\<rparr>
        in if id \<ge> MOUSE_CONTROLLER_COUNT \<or> len < 3 \<or> len > MOUSE_REPORT_BYTES
           then mouse_next_event remaining (state1\<lparr>ms_malformed := ms_malformed state1 + 1\<rparr>)
           else if \<not> is_connected (ms_connected state1) (unat id) then mouse_next_event remaining state1
           else (mouse_event id dx dy buttons,
                 state1\<lparr>ms_buttons := (ms_buttons state1)[unat id := ucast buttons],
                        ms_decoded := ms_decoded state1 + 1\<rparr>))"

definition mouse_clear_disconnected :: "mouse_shared \<Rightarrow> mouse_shared" where
  "mouse_clear_disconnected state = state\<lparr>ms_buttons :=
     map (\<lambda>id. if is_connected (ms_connected state) id then ms_buttons state ! id else 0) [0..<4]\<rparr>"

definition mouse_process_request :: "mouse_shared \<Rightarrow> u32 \<Rightarrow> u32 \<times> mouse_shared" where
  "mouse_process_request state operation =
     (if operation > 2 then (MOUSE_BAD_REQUEST, state)
      else
        let s = mouse_clear_disconnected state
        in if ms_observed_dropped s \<noteq> ms_dropped s
           then (MOUSE_EVENT_LOST, s\<lparr>ms_observed_dropped := ms_dropped s, ms_tail := ms_head s,
                                     ms_buttons := replicate 4 0\<rparr>)
           else if operation = 2 then (ms_connected s, s)
           else if operation = 1
           then (fold (\<lambda>id acc. acc OR ucast (ms_buttons s ! id)) [0..<4] 0, s)
           else mouse_next_event 32 s)"

definition mouse_driver_service :: "u16 \<Rightarrow> u32 \<Rightarrow> mouse_shared \<Rightarrow> u32 \<times> mouse_shared" where
  "mouse_driver_service cs operation state =
     (let busy = ms_lock state; s = state\<lparr>ms_lock := 1\<rparr>
      in if busy \<noteq> 0 then (MOUSE_BUSY, s)
         else
           let s1 = s\<lparr>ms_last_cpl := ucast cs AND 3, ms_calls := ms_calls s + 1\<rparr>;
               (result, s2) = (if ms_last_cpl s1 = 2 then mouse_process_request s1 operation
                               else (MOUSE_BAD_REQUEST, s1))
           in (result, s2\<lparr>ms_lock := 0\<rparr>))"

section \<open>The kernel's report callback\<close>

abbreviation (input) USB_REPORT_DATA :: u32 where "USB_REPORT_DATA \<equiv> 2"
abbreviation (input) USB_REPORT_CONNECTED :: u32 where "USB_REPORT_CONNECTED \<equiv> 1"
abbreviation (input) USB_REPORT_DISCONNECTED :: u32 where "USB_REPORT_DISCONNECTED \<equiv> 3"

text \<open>\<open>None\<close> only if the cancel loop did not end.\<close>

definition mouse_receive ::
  "u32 \<Rightarrow> u32 \<Rightarrow> u8 list option \<Rightarrow> u32 \<Rightarrow> mouse_shared \<times> mouse_cursor_queue \<Rightarrow>
   (mouse_shared \<times> mouse_cursor_queue) option" where
  "mouse_receive controller event data len = (\<lambda>(state, cursor_queue).
     if controller \<ge> MOUSE_CONTROLLER_COUNT then Some (state, cursor_queue)
     else if event = USB_REPORT_CONNECTED
     then Some (state\<lparr>ms_connected := ms_connected state OR push_bit (unat controller) 1\<rparr>, cursor_queue)
     else if event = USB_REPORT_DISCONNECTED
     then (case mouse_cursor_cancel cursor_queue controller of
             None \<Rightarrow> None
           | Some q \<Rightarrow> Some (state\<lparr>ms_connected := ms_connected state AND NOT (push_bit (unat controller) 1),
                                  ms_dropped := ms_dropped state + 1\<rparr>, q))
     else if event = USB_REPORT_DATA
     then Some (mouse_queue_report state controller data len,
                mouse_cursor_enqueue cursor_queue controller data len)
     else Some (state, cursor_queue))"

declare cursor_cancel_from.simps [simp del]

section \<open>The report queue as a queue\<close>

definition packet_view :: "mouse_packet \<Rightarrow> u32 \<times> u8 list" where
  "packet_view p = (mp_controller p, take (unat (mp_length p)) (mp_data p))"

definition packet_ok :: "mouse_packet \<Rightarrow> bool" where
  "packet_ok p \<longleftrightarrow> length (mp_data p) = 64 \<and> mp_length p \<le> 64"

definition report_ok :: "mouse_shared \<Rightarrow> bool" where
  "report_ok s \<longleftrightarrow> ms_head s < 32 \<and> ms_tail s < 32 \<and> length (ms_packets s) = 32 \<and>
     list_all packet_ok (ms_packets s) \<and> length (ms_buttons s) = 4"

fun report_item_ok :: "u32 \<times> u8 list \<Rightarrow> bool" where
  "report_item_ok (c, bs) \<longleftrightarrow> c < 4 \<and> length bs \<le> 64"

fun report_store :: "u32 \<times> u8 list \<Rightarrow> mouse_shared \<Rightarrow> mouse_shared" where
  "report_store (c, bs) s = mouse_queue_report s c (Some bs) (of_nat (length bs))"

definition report_slot :: "mouse_shared \<Rightarrow> nat \<Rightarrow> u32 \<times> u8 list" where
  "report_slot s i = packet_view (ms_packets s ! i)"

definition report_advance :: "mouse_shared \<Rightarrow> mouse_shared" where
  "report_advance s = s\<lparr>ms_tail := (ms_tail s + 1) AND 31\<rparr>"

lemma report_len:
  "n \<le> 64 \<Longrightarrow> unat (of_nat n :: u32) = n" "n \<le> 64 \<Longrightarrow> \<not> (of_nat n :: u32) > 64"
  by (simp_all add: unat_of_nat take_bit_eq_mod word_less_nat_alt)

lemma packet_write_view:
  assumes "length bs \<le> 64" "packet_ok old"
  shows "packet_view (packet_write old c bs (of_nat (length bs))) = (c, bs)"
    and "packet_ok (packet_write old c bs (of_nat (length bs)))"
  using assms report_len [OF assms(1)]
  by (simp_all add: packet_view_def packet_write_def packet_ok_def not_less)

lemma report_ok_indices: "report_ok s \<Longrightarrow> unat (ms_head s) < 32 \<and> unat (ms_tail s) < 32"
  by (simp add: report_ok_def word_less_nat_alt)

lemma report_store_room:
  assumes "report_ok s" "report_item_ok x" "(ms_head s + 1) AND 31 \<noteq> ms_tail s"
  shows "ms_head (report_store x s) = (ms_head s + 1) AND 31 \<and> ms_tail (report_store x s) = ms_tail s \<and>
    report_slot (report_store x s) = (report_slot s)(unat (ms_head s) := x) \<and> report_ok (report_store x s)"
proof -
  obtain c bs where x: "x = (c, bs)" "c < 4" "length bs \<le> 64" using assms(2) by (cases x) auto
  let ?h = "unat (ms_head s)"
  let ?p = "packet_write (ms_packets s ! ?h) c bs (of_nat (length bs))"
  have h: "?h < length (ms_packets s)" using assms(1) report_ok_indices by (simp add: report_ok_def)
  then have "packet_ok (ms_packets s ! ?h)" using assms(1) by (simp add: report_ok_def list_all_length)
  note w = packet_write_view [OF x(3) this, of c]
  have eq: "report_store x s = s\<lparr>ms_packets := (ms_packets s)[?h := ?p], ms_head := (ms_head s + 1) AND 31\<rparr>"
    using assms(3) x report_len(2) [OF x(3)] by (simp add: mouse_queue_report_def Let_def not_le)
  have "report_slot (report_store x s) = (report_slot s)(?h := x)"
    unfolding eq using h w(1) x(1) by (auto simp: report_slot_def fun_eq_iff nth_list_update)
  moreover have "list_all packet_ok ((ms_packets s)[?h := ?p])"
    using assms(1) w(2) h by (auto simp: report_ok_def list_all_length nth_list_update)
  ultimately show ?thesis
    unfolding eq using assms(1) by (simp add: report_ok_def and_numeral_less)
qed

lemma report_store_full:
  assumes "report_item_ok x" "(ms_head s + 1) AND 31 = ms_tail s"
  shows "report_store x s = s\<lparr>ms_dropped := ms_dropped s + 1\<rparr>"
  using assms report_len(2) by (cases x) (auto simp: mouse_queue_report_def not_le not_less)

interpretation report_queue: masked_ring 32 31 ms_head ms_tail report_slot report_ok report_item_ok
  report_store report_advance
proof unfold_locales
  fix s x
  assume s: "report_ok s" and x: "report_item_ok x"
  show "report_ok (report_store x s)"
  proof (cases "(ms_head s + 1) AND 31 = ms_tail s")
    case True
    then show ?thesis using s report_store_full [OF x True] by (simp add: report_ok_def)
  next
    case False
    then show ?thesis using report_store_room [OF s x] by simp
  qed
qed (auto simp: unat_ring_next report_ok_indices report_store_full report_store_room report_advance_def
      report_slot_def fun_eq_iff report_ok_def and_numeral_less)

section \<open>Decoding a report\<close>

definition USER_MOUSE_BUTTONS :: "u32 \<Rightarrow> u32" where
  "USER_MOUSE_BUTTONS event = event AND 7"

definition USER_MOUSE_DX :: "u32 \<Rightarrow> u32" where
  "USER_MOUSE_DX event = scast (ucast (drop_bit 8 event) :: u8)"

definition USER_MOUSE_DY :: "u32 \<Rightarrow> u32" where
  "USER_MOUSE_DY event = scast (ucast (drop_bit 16 event) :: u8)"

definition USER_MOUSE_CONTROLLER :: "u32 \<Rightarrow> u32" where
  "USER_MOUSE_CONTROLLER event = drop_bit 24 event AND 3"

text \<open>The event of a report: controller, the three bytes of a boot report.\<close>

definition report_event :: "u32 \<times> u8 list \<Rightarrow> u32" where
  "report_event p = mouse_event (fst p) (ucast (snd p ! 1)) (ucast (snd p ! 2)) (ucast (snd p ! 0) AND 7)"

definition report_deliverable :: "u32 \<Rightarrow> u32 \<times> u8 list \<Rightarrow> bool" where
  "report_deliverable connected p \<longleftrightarrow> 3 \<le> length (snd p) \<and> fst p < 4 \<and> is_connected connected (unat (fst p))"

lemma bit_controller: "(c :: u32) < 4 \<Longrightarrow> bit c n \<Longrightarrow> n < 2"
proof -
  assume c: "c < 4" and b: "bit c n"
  have "take_bit 2 c = c"
    using c by (simp add: take_bit_eq_mod word_unat_eq_iff unat_mod word_less_nat_alt)
  then show "n < 2" using b by (metis bit_take_bit_iff)
qed

lemma event_bits:
  assumes "c < 4"
  shows "bit (mouse_event c (ucast (x :: u8)) (ucast (y :: u8)) (ucast (b :: u8) AND 7)) n =
    (n = 31 \<or> (24 \<le> n \<and> n < 26 \<and> bit c (n - 24)) \<or> (16 \<le> n \<and> n < 24 \<and> bit y (n - 16)) \<or>
     (8 \<le> n \<and> n < 16 \<and> bit x (n - 8)) \<or> (n < 3 \<and> bit b n))"
proof -
  have m: "(0x80000000 :: u32) = push_bit 31 1" by simp
  have k: "bit c (n - 24) \<Longrightarrow> n < 26" "bit y (n - 16) \<Longrightarrow> n < 24" "bit x (n - 8) \<Longrightarrow> n < 16"
    using bit_controller [OF assms, of "n - 24"] bit_imp_le_length [of y "n - 16"]
      bit_imp_le_length [of x "n - 8"] by auto
  have r: "(31 \<le> n \<and> n < 32 \<and> n \<le> 31) = (n = 31)" "(n < 32 \<and> n - 16 < 32 \<and> P) = (n < 32 \<and> P)"
    "(n < 32 \<and> n - 8 < 32 \<and> P) = (n < 32 \<and> P)"
    "(n < 32 \<and> bit b n \<and> n < 32 \<and> n < 3) = (n < 3 \<and> bit b n)" for P
    by auto
  have "bit (mouse_event c (ucast x) (ucast y) (ucast b AND 7)) n =
    (n = 31 \<or> (24 \<le> n \<and> n < 32 \<and> bit c (n - 24)) \<or> (16 \<le> n \<and> n < 32 \<and> bit y (n - 16)) \<or>
     (8 \<le> n \<and> n < 32 \<and> bit x (n - 8)) \<or> (n < 3 \<and> bit b n))"
    unfolding mouse_event_def m numeral_masks(2)
    by (simp only: bit_or_iff bit_push_bit_iff bit_and_iff bit_mask_iff bit_unsigned_iff bit_1_iff)
       (simp add: r)
  moreover have "(24 \<le> n \<and> n < 32 \<and> bit c (n - 24)) = (24 \<le> n \<and> n < 26 \<and> bit c (n - 24))"
    "(16 \<le> n \<and> n < 32 \<and> bit y (n - 16)) = (16 \<le> n \<and> n < 24 \<and> bit y (n - 16))"
    "(8 \<le> n \<and> n < 32 \<and> bit x (n - 8)) = (8 \<le> n \<and> n < 16 \<and> bit x (n - 8))"
    using k by fastforce+
  ultimately show ?thesis by (simp only:)
qed

lemma event_decodes:
  fixes x y b :: u8
  assumes "c < 4"
  defines "e \<equiv> mouse_event c (ucast x) (ucast y) (ucast b AND 7)"
  shows "USER_MOUSE_CONTROLLER e = c" "USER_MOUSE_DX e = scast x" "USER_MOUSE_DY e = scast y"
    "USER_MOUSE_BUTTONS e = ucast b AND 7" "bit e 31" "\<not> bit e 30" "\<not> bit e 29" "\<not> bit e 28"
proof -
  note bits = event_bits [OF assms(1), of x y b]
  have "bit c n \<Longrightarrow> n < 2" for n using bit_controller [OF assms(1)] by blast
  then show "USER_MOUSE_CONTROLLER e = c"
    unfolding USER_MOUSE_CONTROLLER_def e_def numeral_masks(1)
    by (intro bit_word_eqI) (auto simp: bit_simps bits)
  have "ucast (drop_bit 8 e) = x" "ucast (drop_bit 16 e) = y"
    unfolding e_def by (intro bit_word_eqI; auto simp: bit_simps bits dest: bit_imp_le_length)+
  then show "USER_MOUSE_DX e = scast x" "USER_MOUSE_DY e = scast y"
    by (simp_all add: USER_MOUSE_DX_def USER_MOUSE_DY_def)
  show "USER_MOUSE_BUTTONS e = ucast b AND 7"
    unfolding USER_MOUSE_BUTTONS_def e_def numeral_masks(2)
    by (intro bit_word_eqI) (auto simp: bit_simps bits [unfolded numeral_masks(2)])
qed (simp_all add: e_def event_bits [OF assms(1)])

section \<open>Reading the next event\<close>

lemma report_slot_bytes:
  assumes "report_ok s" "i < 32"
  shows "length (snd (report_slot s i)) = unat (mp_length (ms_packets s ! i))"
    and "\<not> mp_length (ms_packets s ! i) > 64"
    and "k < length (snd (report_slot s i)) \<Longrightarrow> snd (report_slot s i) ! k = mp_data (ms_packets s ! i) ! k"
proof -
  have "packet_ok (ms_packets s ! i)" using assms by (simp add: report_ok_def list_all_length)
  then show "length (snd (report_slot s i)) = unat (mp_length (ms_packets s ! i))"
    "\<not> mp_length (ms_packets s ! i) > 64"
    "k < length (snd (report_slot s i)) \<Longrightarrow> snd (report_slot s i) ! k = mp_data (ms_packets s ! i) ! k"
    by (simp_all add: report_slot_def packet_view_def packet_ok_def word_le_nat_alt not_less)
qed

text \<open>One step of the loop, by what the oldest report is.\<close>

lemma next_event_step:
  assumes "report_ok s" "report_queue.pending s \<noteq> []"
  defines "p \<equiv> report_slot s (unat (ms_tail s))"
  shows "mouse_next_event (Suc n) s =
    (if report_deliverable (ms_connected s) p
     then (report_event p, (report_advance s)\<lparr>ms_buttons := (ms_buttons s)[unat (fst p) := snd p ! 0 AND 7],
             ms_decoded := ms_decoded s + 1\<rparr>)
     else mouse_next_event n (if fst p < 4 \<and> 3 \<le> length (snd p) then report_advance s
            else (report_advance s)\<lparr>ms_malformed := ms_malformed s + 1\<rparr>))"
proof -
  let ?t = "unat (ms_tail s)"
  let ?q = "ms_packets s ! ?t"
  have t: "?t < 32" using report_ok_indices [OF assms(1)] by simp
  note b = report_slot_bytes [OF assms(1) t]
  have ne: "ms_tail s \<noteq> ms_head s" using assms report_queue.pending_Nil by blast
  have c: "fst p = mp_controller ?q" by (simp add: p_def report_slot_def packet_view_def)
  have l: "(mp_length ?q < 3) = (\<not> 3 \<le> length (snd p))"
    using b(1) by (simp add: p_def word_less_nat_alt not_le)
  have d: "mp_data ?q ! k = snd p ! k" if "k < 3" "3 \<le> length (snd p)" for k
    using b(3) [of k] that by (simp add: p_def)
  have low: "ucast (ucast v AND 7 :: u32) = (v AND 7 :: u8)" for v
    unfolding numeral_masks by (intro bit_word_eqI) (auto simp: bit_simps)
  show ?thesis
    using ne b(2) l d [of 0] d [of 1] d [of 2] low c
    by (auto simp: Let_def report_deliverable_def report_event_def report_advance_def not_le)
qed

lemma report_advance_frame:
  "ms_connected (report_advance s) = ms_connected s" "ms_buttons (report_advance s) = ms_buttons s"
  by (simp_all add: report_advance_def)

lemma report_slot_frame [simp]:
  "report_slot (s\<lparr>ms_malformed := m\<rparr>) = report_slot s" "report_slot (s\<lparr>ms_decoded := d\<rparr>) = report_slot s"
  "report_slot (s\<lparr>ms_buttons := b\<rparr>) = report_slot s"
  by (simp_all add: report_slot_def fun_eq_iff)

lemma report_update_frame [simp]:
  "report_ok (s\<lparr>ms_malformed := m\<rparr>) = report_ok s" "report_ok (s\<lparr>ms_decoded := d\<rparr>) = report_ok s"
  "report_queue.pending (s\<lparr>ms_malformed := m\<rparr>) = report_queue.pending s"
  "report_queue.pending (s\<lparr>ms_decoded := d\<rparr>) = report_queue.pending s"
  "report_queue.pending (s\<lparr>ms_buttons := b\<rparr>) = report_queue.pending s"
  "length b = 4 \<Longrightarrow> report_ok s \<Longrightarrow> report_ok (s\<lparr>ms_buttons := b\<rparr>)"
  by (simp_all add: report_ok_def report_queue.pending_def)

lemma next_event_eq:
  assumes "report_ok s" "length (report_queue.pending s) \<le> n" "mouse_next_event n s = (r, s')"
  shows "report_ok s' \<and> ms_connected s' = ms_connected s \<and>
    (case dropWhile (\<lambda>p. \<not> report_deliverable (ms_connected s) p) (report_queue.pending s) of
       [] \<Rightarrow> r = 0 \<and> report_queue.pending s' = [] \<and> ms_buttons s' = ms_buttons s
     | p # rest \<Rightarrow> r = report_event p \<and> report_queue.pending s' = rest \<and>
         ms_buttons s' = (ms_buttons s)[unat (fst p) := snd p ! 0 AND 7])"
  using assms
proof (induction n arbitrary: s)
  case 0
  then show ?case by simp
next
  case (Suc n)
  show ?case
  proof (cases "report_queue.pending s = []")
    case True
    then have "ms_tail s = ms_head s" using Suc.prems report_queue.pending_Nil by blast
    then show ?thesis using Suc.prems True by auto
  next
    case False
    let ?p = "report_slot s (unat (ms_tail s))" and ?a = "report_advance s"
    have pend: "report_queue.pending s = ?p # report_queue.pending ?a"
      by (rule report_queue.pending_step [OF Suc.prems(1) False])
    have a: "report_ok ?a" using Suc.prems(1) by (rule report_queue.step_ok)
    have len: "length (ms_buttons s) = 4" using Suc.prems(1) by (simp add: report_ok_def)
    note step = next_event_step [OF Suc.prems(1) False, of n]
    show ?thesis
    proof (cases "report_deliverable (ms_connected s) ?p")
      case True
      then show ?thesis
        using step Suc.prems(3) pend a len by (auto simp: report_advance_frame)
    next
      case nd: False
      define t where "t = (if fst ?p < 4 \<and> 3 \<le> length (snd ?p) then ?a
        else ?a\<lparr>ms_malformed := ms_malformed s + 1\<rparr>)"
      have e: "mouse_next_event n t = (r, s')" using step nd Suc.prems(3) by (simp add: t_def)
      have o: "report_ok t" "report_queue.pending t = report_queue.pending ?a"
        "ms_connected t = ms_connected s" "ms_buttons t = ms_buttons s"
        using a by (simp_all add: t_def report_advance_frame)
      show ?thesis
        using Suc.IH [OF o(1) _ e, unfolded o(2-4)] pend nd Suc.prems(2) by simp
    qed
  qed
qed

section \<open>The cursor queue as a queue\<close>

definition cursor_ok :: "mouse_cursor_queue \<Rightarrow> bool" where
  "cursor_ok q \<longleftrightarrow> cq_head q < 64 \<and> cq_tail q < 64 \<and> length (cq_packets q) = 64"

definition cursor_item_ok :: "mouse_cursor_packet \<Rightarrow> bool" where
  "cursor_item_ok p \<longleftrightarrow> cp_controller p < 4 \<and> (cp_dx p \<noteq> 0 \<or> cp_dy p \<noteq> 0)"

text \<open>A three-byte report with no buttons, as the queue sees it.\<close>

definition cursor_store :: "mouse_cursor_packet \<Rightarrow> mouse_cursor_queue \<Rightarrow> mouse_cursor_queue" where
  "cursor_store p q = mouse_cursor_enqueue q (ucast (cp_controller p)) (Some [0, cp_dx p, cp_dy p]) 3"

definition cursor_advance :: "mouse_cursor_queue \<Rightarrow> mouse_cursor_queue" where
  "cursor_advance q = q\<lparr>cq_tail := (cq_tail q + 1) AND 63\<rparr>"

lemma cursor_ok_indices: "cursor_ok q \<Longrightarrow> unat (cq_head q) < 64 \<and> unat (cq_tail q) < 64"
  by (simp add: cursor_ok_def word_less_nat_alt)

lemma cursor_controller: "cursor_item_ok p \<Longrightarrow> \<not> (ucast (cp_controller p) :: u32) \<ge> 4"
  by (simp add: cursor_item_ok_def word_le_nat_alt word_less_nat_alt not_le)

lemma ucast_u32_u8 [simp]: "ucast (ucast (c :: u8) :: u32) = c"
  by (rule bit_word_eqI) (auto simp: bit_simps dest: bit_imp_le_length)

lemma cursor_store_cases:
  assumes "cursor_item_ok p"
  shows "(cq_head q + 1) AND 63 = cq_tail q \<Longrightarrow> cursor_store p q = q\<lparr>cq_dropped := cq_dropped q + 1\<rparr>"
    and "(cq_head q + 1) AND 63 \<noteq> cq_tail q \<Longrightarrow>
      cq_head (cursor_store p q) = (cq_head q + 1) AND 63 \<and> cq_tail (cursor_store p q) = cq_tail q \<and>
      cq_packets (cursor_store p q) = (cq_packets q)[unat (cq_head q) := p]"
  using cursor_controller [OF assms] assms
  by (cases p, auto simp: cursor_store_def mouse_cursor_enqueue_def Let_def cursor_item_ok_def)+

lemma cursor_store_ok: "cursor_ok q \<Longrightarrow> cursor_item_ok p \<Longrightarrow> cursor_ok (cursor_store p q)"
  using cursor_store_cases [of p q] by (cases "(cq_head q + 1) AND 63 = cq_tail q")
    (simp_all add: cursor_ok_def and_numeral_less)

interpretation cursor_ring: masked_ring 64 63 cq_head cq_tail "\<lambda>q. (!) (cq_packets q)" cursor_ok
  cursor_item_ok cursor_store cursor_advance
proof unfold_locales
  fix q p
  assume q: "cursor_ok q" and p: "cursor_item_ok p"
  note c = cursor_store_cases [OF p, of q]
  show "cursor_ok (cursor_store p q)" by (rule cursor_store_ok [OF q p])
  show "cq_head (cursor_store p q) = cq_head q \<and> cq_tail (cursor_store p q) = cq_tail q \<and>
      (!) (cq_packets (cursor_store p q)) = (!) (cq_packets q)" if "(cq_head q + 1) AND 63 = cq_tail q"
    using c(1) [OF that] by simp
  have "unat (cq_head q) < length (cq_packets q)" using q cursor_ok_indices by (simp add: cursor_ok_def)
  then show "cq_head (cursor_store p q) = (cq_head q + 1) AND 63 \<and> cq_tail (cursor_store p q) = cq_tail q \<and>
      (!) (cq_packets (cursor_store p q)) = ((!) (cq_packets q))(unat (cq_head q) := p)"
    if "(cq_head q + 1) AND 63 \<noteq> cq_tail q"
    using c(2) [OF that] by (simp add: fun_eq_iff nth_list_update)
next
  fix q
  assume "cursor_ok q"
  then show "unat (cq_head q) < 64 \<and> unat (cq_tail q) < 64" "cursor_ok (cursor_advance q)"
    by (simp_all add: cursor_ok_indices) (simp add: cursor_ok_def cursor_advance_def and_numeral_less)
qed (simp_all add: unat_ring_next cursor_advance_def)

text \<open>The motion a packet stands for: its deltas, sign-extended.\<close>

definition packet_motion :: "mouse_cursor_packet \<Rightarrow> cursor_motion" where
  "packet_motion p = \<lparr>cm_dx = scast (cp_dx p), cm_dy = scast (cp_dy p)\<rparr>"

lemma cursor_collect_eq:
  assumes "unat (cq_head q) < 64" "unat t < 64" "ring_count 64 (unat t) (unat (cq_head q)) \<le> n"
  shows "cursor_collect n t connected q = (cq_head q, map packet_motion
    (filter (cursor_deliverable connected) (ring_list 64 ((!) (cq_packets q)) (unat t) (unat (cq_head q)))))"
  using assms
proof (induction n arbitrary: t)
  case 0
  then show ?case using ring_count_0_iff [of "unat t" 64 "unat (cq_head q)"] by (simp add: word_unat_eq_iff)
next
  case (Suc n)
  show ?case
  proof (cases "t = cq_head q")
    case False
    let ?t = "(t + 1) AND 63"
    have u: "unat ?t = Suc (unat t) mod 64" by (rule unat_ring_next(2))
    have list: "ring_list 64 ((!) (cq_packets q)) (unat t) (unat (cq_head q)) =
        cq_packets q ! unat t # ring_list 64 ((!) (cq_packets q)) (unat ?t) (unat (cq_head q))"
      unfolding u by (rule ring_list_get) (use Suc.prems False in \<open>auto simp: word_unat_eq_iff\<close>)
    have "ring_count 64 (unat ?t) (unat (cq_head q)) \<le> n"
      using arg_cong [OF list, of length] Suc.prems(3) by simp
    then have "cursor_collect n ?t connected q = (cq_head q, map packet_motion
        (filter (cursor_deliverable connected) (ring_list 64 ((!) (cq_packets q)) (unat ?t) (unat (cq_head q)))))"
      using Suc.IH [of ?t] Suc.prems(1) u by simp
    then show ?thesis using False list by (simp add: Let_def packet_motion_def [of "cq_packets q ! unat t"])
  qed simp
qed

lemma cursor_collect_all:
  assumes "cursor_ok q"
  shows "cursor_collect 64 (cq_tail q) connected q =
    (cq_head q, map packet_motion (filter (cursor_deliverable connected) (cursor_ring.pending q)))"
  using cursor_collect_eq [of q "cq_tail q" 64] cursor_ok_indices [OF assms]
    ring_count_less [of 64 "unat (cq_tail q)" "unat (cq_head q)"]
  by (simp add: cursor_ring.pending_def)

subsection \<open>Cancelling\<close>

definition cancel_packet :: "u32 \<Rightarrow> mouse_cursor_packet \<Rightarrow> mouse_cursor_packet" where
  "cancel_packet c p = (if ucast (cp_controller p) = c then p\<lparr>cp_controller := 255\<rparr> else p)"

lemma cursor_cancel_from_eq:
  assumes "unat (cq_head q) < 64" "unat t < 64" "length (cq_packets q) = 64"
    and "ring_count 64 (unat t) (unat (cq_head q)) \<le> n"
  shows "\<exists>ps. cursor_cancel_from n t c q = Some (q\<lparr>cq_packets := ps\<rparr>) \<and> length ps = 64 \<and>
    (\<forall>k < 64. ps ! k = (if \<exists>j < ring_count 64 (unat t) (unat (cq_head q)). k = (unat t + j) mod 64
                        then cancel_packet c (cq_packets q ! k) else cq_packets q ! k))"
  using assms
proof (induction n arbitrary: t q)
  case 0
  then have "t = cq_head q"
    using ring_count_0_iff [of "unat t" 64 "unat (cq_head q)"] by (simp add: word_unat_eq_iff)
  then show ?case using 0 by (intro exI [of _ "cq_packets q"]) (simp add: cursor_cancel_from.simps)
next
  case (Suc n)
  show ?case
  proof (cases "t = cq_head q")
    case True
    then show ?thesis
      using Suc.prems ring_count_0_iff [of "unat t" 64 "unat (cq_head q)"]
      by (intro exI [of _ "cq_packets q"]) (simp add: cursor_cancel_from.simps)
  next
    case False
    let ?t = "(t + 1) AND 63" and ?h = "unat (cq_head q)"
    let ?p = "cancel_packet c (cq_packets q ! unat t)"
    let ?q = "q\<lparr>cq_packets := (cq_packets q)[unat t := ?p]\<rparr>"
    have u: "unat ?t = Suc (unat t) mod 64" by (rule unat_ring_next(2))
    have cnt: "ring_count 64 (unat t) ?h = Suc (ring_count 64 (unat ?t) ?h)"
      using Suc.prems False u by (auto simp: ring_count_cases mod_Suc word_unat_eq_iff)
    have step: "cursor_cancel_from (Suc n) t c q = cursor_cancel_from n ?t c ?q"
      using False by (subst cursor_cancel_from.simps) (simp add: Let_def cancel_packet_def)
    obtain ps where ps: "cursor_cancel_from n ?t c ?q = Some (?q\<lparr>cq_packets := ps\<rparr>)" "length ps = 64"
      "\<forall>k < 64. ps ! k = (if \<exists>j < ring_count 64 (unat ?t) ?h. k = (unat ?t + j) mod 64
          then cancel_packet c (cq_packets ?q ! k) else cq_packets ?q ! k)"
      using Suc.IH [of ?q ?t] Suc.prems u cnt by auto
    have idx: "(\<exists>j < ring_count 64 (unat t) ?h. k = (unat t + j) mod 64) \<longleftrightarrow>
        k = unat t \<or> (\<exists>j < ring_count 64 (unat ?t) ?h. k = (unat ?t + j) mod 64)" for k
    proof -
      have "(unat ?t + j) mod 64 = (unat t + Suc j) mod 64" for j
        unfolding u by (simp add: mod_simps)
      then show ?thesis unfolding cnt using Suc.prems(2) by (auto simp: Ex_less_Suc2)
    qed
    have "unat t \<noteq> (unat ?t + j) mod 64" if "j < ring_count 64 (unat ?t) ?h" for j
    proof
      assume "unat t = (unat ?t + j) mod 64"
      then have "(unat t + 0) mod 64 = (unat t + Suc j) mod 64" using u Suc.prems(2) by (simp add: mod_simps)
      then have "0 = Suc j"
        by (rule ring_index_inj [of 0 64 "Suc j", rotated 2])
           (use that cnt ring_count_less [of 64 "unat t" ?h] in simp_all)
      then show False by simp
    qed
    then show ?thesis
      using ps step Suc.prems(2,3) idx by (intro exI [of _ ps]) (auto simp: nth_list_update)
  qed
qed

lemma cursor_cancel_spec:
  assumes "cursor_ok q"
  shows "\<exists>q'. mouse_cursor_cancel q c = Some q' \<and> cursor_ok q' \<and> cq_head q' = cq_head q \<and>
    cq_tail q' = cq_tail q \<and> cursor_ring.pending q' = map (cancel_packet c) (cursor_ring.pending q)"
proof -
  let ?t = "unat (cq_tail q)" and ?h = "unat (cq_head q)"
  obtain ps where ps: "mouse_cursor_cancel q c = Some (q\<lparr>cq_packets := ps\<rparr>)" "length ps = 64"
    "\<forall>k < 64. ps ! k = (if \<exists>j < ring_count 64 ?t ?h. k = (?t + j) mod 64
        then cancel_packet c (cq_packets q ! k) else cq_packets q ! k)"
    using cursor_cancel_from_eq [of q "cq_tail q" 64 c] assms cursor_ok_indices [OF assms]
      ring_count_less [of 64 ?t ?h] unfolding mouse_cursor_cancel_def cursor_ok_def by auto
  have "ps ! ((?t + i) mod 64) = cancel_packet c (cq_packets q ! ((?t + i) mod 64))"
    if "i < ring_count 64 ?t ?h" for i using ps(3) that by auto
  then show ?thesis
    using ps(1,2) assms by (auto simp: cursor_ok_def cursor_ring.pending_def ring_list_def)
qed

section \<open>Requests and notifications\<close>

lemma clear_disconnected_frame:
  "report_queue.pending (mouse_clear_disconnected s) = report_queue.pending s"
  "report_ok s \<Longrightarrow> report_ok (mouse_clear_disconnected s)"
  "ms_connected (mouse_clear_disconnected s) = ms_connected s"
  "ms_dropped (mouse_clear_disconnected s) = ms_dropped s"
  "ms_observed_dropped (mouse_clear_disconnected s) = ms_observed_dropped s"
  by (simp_all add: mouse_clear_disconnected_def)

lemma pending_dropped [simp]:
  "report_queue.pending (s\<lparr>ms_connected := c, ms_dropped := d\<rparr>) = report_queue.pending s"
  "report_ok (s\<lparr>ms_connected := c, ms_dropped := d\<rparr>) = report_ok s"
proof -
  have "report_slot (s\<lparr>ms_connected := c, ms_dropped := d\<rparr>) = report_slot s"
    by (simp add: report_slot_def fun_eq_iff)
  then show "report_queue.pending (s\<lparr>ms_connected := c, ms_dropped := d\<rparr>) = report_queue.pending s"
    by (simp add: report_queue.pending_def)
qed (simp add: report_ok_def)

lemma dropWhile_Cons_head: "dropWhile (\<lambda>x. \<not> P x) xs = y # ys \<Longrightarrow> P y"
  by (metis hd_dropWhile list.distinct(1) list.sel(1))

text \<open>The zeroed shared page and cursor queue that \<^verbatim>\<open>mouse_driver_initialize\<close> leaves.\<close>

definition mouse_fresh :: mouse_shared where
  "mouse_fresh = \<lparr>ms_lock = 0, ms_head = 0, ms_tail = 0, ms_dropped = 0, ms_connected = 0, ms_last_cpl = 0,
     ms_calls = 0, ms_decoded = 0, ms_malformed = 0, ms_observed_dropped = 0, ms_buttons = replicate 4 0,
     ms_packets = replicate 32 \<lparr>mp_controller = 0, mp_length = 0, mp_data = replicate 64 0\<rparr>\<rparr>"

definition cursor_fresh :: mouse_cursor_queue where
  "cursor_fresh = \<lparr>cq_head = 0, cq_tail = 0, cq_dropped = 0, cq_peak_pending = 0, cq_saturated_reports = 0,
     cq_flushes = 0, cq_retry_count = 0,
     cq_packets = replicate 64 \<lparr>cp_dx = 0, cp_dy = 0, cp_controller = 0\<rparr>\<rparr>"

lemma mouse_fresh_ok: "report_ok mouse_fresh" "cursor_ok cursor_fresh"
  by (simp_all add: mouse_fresh_def cursor_fresh_def report_ok_def cursor_ok_def packet_ok_def list_all_iff)

section \<open>Properties\<close>

text \<open>
  C16: reading an event. With no unseen loss, a read skips the queued reports that are too
  short or whose controller is gone, takes the oldest one left, and returns an event from which
  the user macros recover exactly its controller, its signed deltas and its three buttons, with
  the VALID bit set and none of the LOST, BUSY and BAD_REQUEST bits; later reports stay queued in order.
  It returns 0, with the queue empty, exactly when no report is left to deliver.
\<close>

theorem mouse_read_delivers_report:
  assumes "report_ok s" "ms_observed_dropped s = ms_dropped s"
  shows "\<exists>r s'. mouse_process_request s 0 = (r, s') \<and> report_ok s' \<and>
    (case dropWhile (\<lambda>p. \<not> report_deliverable (ms_connected s) p) (report_queue.pending s) of
       [] \<Rightarrow> r = 0 \<and> report_queue.pending s' = []
     | p # rest \<Rightarrow> report_queue.pending s' = rest \<and> bit r 31 \<and> \<not> bit r 30 \<and> \<not> bit r 29 \<and> \<not> bit r 28 \<and>
         USER_MOUSE_CONTROLLER r = fst p \<and> USER_MOUSE_DX r = scast (snd p ! 1) \<and>
         USER_MOUSE_DY r = scast (snd p ! 2) \<and> USER_MOUSE_BUTTONS r = ucast (snd p ! 0) AND 7)"
proof -
  let ?s = "mouse_clear_disconnected s"
  obtain r s' where run: "mouse_next_event 32 ?s = (r, s')" by fastforce
  then have req: "mouse_process_request s 0 = (r, s')"
    using assms(2) by (simp add: mouse_process_request_def clear_disconnected_frame Let_def)
  have "length (report_queue.pending ?s) \<le> 32" using report_queue.pending_bound [of ?s] by simp
  note eq = next_event_eq [OF clear_disconnected_frame(2) [OF assms(1)] this run,
      unfolded clear_disconnected_frame]
  show ?thesis
  proof (cases "dropWhile (\<lambda>p. \<not> report_deliverable (ms_connected s) p) (report_queue.pending s)")
    case Nil
    have "r = 0" "report_queue.pending s' = []" "report_ok s'"
      using eq unfolding Nil by (simp_all only: list.case)
    then show ?thesis using req unfolding Nil list.case by blast
  next
    case (Cons p rest)
    then have "report_deliverable (ms_connected s) p" by (rule dropWhile_Cons_head)
    then have "fst p < 4" by (simp add: report_deliverable_def)
    note dec = event_decodes [OF this, of "snd p ! 1" "snd p ! 2" "snd p ! 0"]
    have r: "r = mouse_event (fst p) (ucast (snd p ! 1)) (ucast (snd p ! 2)) (ucast (snd p ! 0) AND 7)"
      and s': "report_queue.pending s' = rest" "report_ok s'"
      using eq unfolding Cons report_event_def by (simp_all only: list.case)
    show ?thesis
      unfolding Cons list.case
      by (intro exI [of _ r] exI [of _ s'] conjI req s') (simp_all only: r dec simp_thms)
  qed
qed

theorem mouse_read_delivers_report_witness:
  "\<exists>r s'. mouse_process_request (mouse_fresh\<lparr>ms_connected := 2\<rparr>) 0 = (r, s') \<and> report_ok s' \<and>
    (case dropWhile (\<lambda>p. \<not> report_deliverable (ms_connected (mouse_fresh\<lparr>ms_connected := 2\<rparr>)) p)
        (report_queue.pending (mouse_fresh\<lparr>ms_connected := 2\<rparr>)) of
       [] \<Rightarrow> r = 0 \<and> report_queue.pending s' = []
     | p # rest \<Rightarrow> report_queue.pending s' = rest \<and> bit r 31 \<and> \<not> bit r 30 \<and> \<not> bit r 29 \<and> \<not> bit r 28 \<and>
         USER_MOUSE_CONTROLLER r = fst p \<and> USER_MOUSE_DX r = scast (snd p ! 1) \<and>
         USER_MOUSE_DY r = scast (snd p ! 2) \<and> USER_MOUSE_BUTTONS r = ucast (snd p ! 0) AND 7)"
proof (rule mouse_read_delivers_report)
  show "report_ok (mouse_fresh\<lparr>ms_connected := 2\<rparr>)" using mouse_fresh_ok(1) by (simp add: report_ok_def)
qed (simp add: mouse_fresh_def)

text \<open>
  C17: disconnecting. When a controller's stream ends, the callback returns, every motion of that
  controller still in the cursor queue is disabled for good, so that even after the controller is
  connected again a drain submits only motions of other controllers, in their order; and the next
  ring-2 request of any valid kind answers LOST with the queue emptied and every button up.
\<close>

theorem mouse_disconnect_discards:
  assumes "report_ok s" "cursor_ok q" "c < 4" "op \<le> 2" "ms_observed_dropped s = ms_dropped s"
  shows "\<exists>s' q'. mouse_receive c 3 None 0 (s, q) = Some (s', q') \<and> report_ok s' \<and> cursor_ok q' \<and>
    (\<forall>connected. snd (cursor_collect 64 (cq_tail q') connected q') =
       map packet_motion (filter (cursor_deliverable connected)
         (filter (\<lambda>p. ucast (cp_controller p) \<noteq> c) (cursor_ring.pending q)))) \<and>
    (\<exists>s''. mouse_process_request s' op = (0x40000000, s'') \<and> report_queue.pending s'' = [] \<and>
       ms_buttons s'' = replicate 4 0)"
proof -
  obtain q' where q': "mouse_cursor_cancel q c = Some q'" "cursor_ok q'" "cq_head q' = cq_head q"
    "cursor_ring.pending q' = map (cancel_packet c) (cursor_ring.pending q)"
    using cursor_cancel_spec [OF assms(2), of c] by blast
  let ?s = "s\<lparr>ms_connected := ms_connected s AND NOT (push_bit (unat c) 1), ms_dropped := ms_dropped s + 1\<rparr>"
  have r: "mouse_receive c 3 None 0 (s, q) = Some (?s, q')"
    using assms(3) q'(1) by (simp add: mouse_receive_def not_le)
  have "filter (cursor_deliverable k) (map (cancel_packet c) ps) =
      filter (cursor_deliverable k) (filter (\<lambda>p. ucast (cp_controller p) \<noteq> c) ps)" for k ps
    by (induction ps) (auto simp: cancel_packet_def cursor_deliverable_def)
  then have drain: "snd (cursor_collect 64 (cq_tail q') connected q') =
       map packet_motion (filter (cursor_deliverable connected)
         (filter (\<lambda>p. ucast (cp_controller p) \<noteq> c) (cursor_ring.pending q)))" for connected
    using cursor_collect_all [OF q'(2), of connected] q'(4) by simp
  let ?c = "mouse_clear_disconnected ?s"
  let ?l = "?c\<lparr>ms_observed_dropped := ms_dropped ?c, ms_tail := ms_head ?c, ms_buttons := replicate 4 0\<rparr>"
  have "mouse_process_request ?s op = (0x40000000, ?l)"
    using assms(4,5) by (simp add: mouse_process_request_def Let_def clear_disconnected_frame not_less)
  moreover have "report_queue.pending ?l = []" by (simp add: report_queue.pending_def)
  ultimately show ?thesis using r assms(1) q'(2) drain by auto
qed

theorem mouse_disconnect_discards_witness:
  "\<exists>s' q'. mouse_receive 1 3 None 0 (mouse_fresh, cursor_fresh) = Some (s', q') \<and> report_ok s' \<and> cursor_ok q' \<and>
    (\<forall>connected. snd (cursor_collect 64 (cq_tail q') connected q') =
       map packet_motion (filter (cursor_deliverable connected)
         (filter (\<lambda>p. ucast (cp_controller p) \<noteq> (1 :: u32)) (cursor_ring.pending cursor_fresh)))) \<and>
    (\<exists>s''. mouse_process_request s' 1 = (0x40000000, s'') \<and> report_queue.pending s'' = [] \<and>
       ms_buttons s'' = replicate 4 0)"
  by (rule mouse_disconnect_discards) (simp_all add: mouse_fresh_ok, simp add: mouse_fresh_def)

text \<open>
  C18: draining the cursor queue is all or nothing. The motions submitted are those of connected
  controllers among all queued packets, in order, at most 63 of them. If the graphics driver
  refuses, the queue is left as it was but for the retry counter, so nothing is lost; if it
  accepts, the whole queue has been consumed and the number of motions is returned.
\<close>

theorem cursor_drain_all_or_nothing:
  fixes f :: "cursor_motion list \<Rightarrow> ('s, u32) prog" and connected :: u32 and q :: mouse_cursor_queue
  assumes "cursor_ok q"
  defines "motions \<equiv> map packet_motion (filter (cursor_deliverable connected) (cursor_ring.pending q))"
  assumes "f motions e w = Done r w'"
  shows "length motions \<le> 63 \<and>
    (if motions = [] then mouse_cursor_drain q connected (Some f) e w = Done (0, q\<lparr>cq_tail := cq_head q\<rparr>) w
     else if r = 0 then mouse_cursor_drain q connected (Some f) e w
       = Done (0, q\<lparr>cq_retry_count := cq_retry_count q + 1\<rparr>) w'
     else mouse_cursor_drain q connected (Some f) e w =
       Done (of_nat (length motions), q\<lparr>cq_flushes := cq_flushes q + 1, cq_tail := cq_head q\<rparr>) w') \<and>
    cursor_ring.pending (q\<lparr>cq_flushes := cq_flushes q + 1, cq_tail := cq_head q\<rparr>) = []"
proof -
  have "length motions \<le> length (cursor_ring.pending q)" by (simp add: motions_def)
  then have "length motions \<le> 63" using cursor_ring.pending_bound [of q] by simp
  then show ?thesis
    using assms(3) cursor_collect_all [OF assms(1), of connected, folded motions_def]
    by (simp add: mouse_cursor_drain_def Let_def run_bind run_ret cursor_ring.pending_def)
qed

theorem cursor_drain_all_or_nothing_witness:
  "mouse_cursor_drain (mouse_cursor_enqueue cursor_fresh 1 (Some [0, 5, 0xFB]) 3) 2 (Some (\<lambda>ms. ret 1)) null_env (start_world ())
    = Done (1, (mouse_cursor_enqueue cursor_fresh 1 (Some [0, 5, 0xFB]) 3)\<lparr>cq_flushes := 1, cq_tail := 1\<rparr>) (start_world ())"
proof -
  let ?p = "\<lparr>cp_dx = 5, cp_dy = 0xFB, cp_controller = 1\<rparr>"
  let ?q = "cursor_store ?p cursor_fresh"
  have i: "cursor_item_ok ?p" by (simp add: cursor_item_ok_def)
  have ok: "cursor_ok ?q" by (rule cursor_ring.store_ok [OF mouse_fresh_ok(2) i])
  have "cursor_ring.pending cursor_fresh = []" by (simp add: cursor_ring.pending_def cursor_fresh_def)
  then have p: "cursor_ring.pending ?q = [?p]" using cursor_ring.pending_store [OF mouse_fresh_ok(2) i] by simp
  have d: "cursor_deliverable 2 ?p" by (simp add: cursor_deliverable_def is_connected_def)
  have f: "cq_flushes ?q = 0" "cq_head ?q = 1"
    by (simp_all add: cursor_store_def mouse_cursor_enqueue_def cursor_fresh_def word_le_nat_alt)
  show ?thesis
    using cursor_drain_all_or_nothing [OF ok, of "\<lambda>ms. ret 1" 2 null_env "start_world ()" 1] p d f
    by (simp add: run_ret) (simp add: cursor_store_def)
qed

end
