(* ===== verification/Intel915_Driver.thy ===== *)
theory Intel915_Driver
  imports Intel915 Runtime
begin

text \<open>
  The two builds of \<^verbatim>\<open>Drivers/Intel915/Intel915.c\<close> around the shared part: the ring-1
  driver that programs the GPU and takes the display over (\<^verbatim>\<open>INTEL915_RING1\<close>), and the
  kernel half that finds the GPU, pins its memory, hands the desktop its ownership and restores
  text mode in a panic. Both address the same pages: the ring-1 segments have base
  \<^verbatim>\<open>I915_BASE\<close>, so all addresses below are linear. Registers, the GTT, the status page and
  the framebuffer are device-visible and accessed as memory-mapped reads and writes.
\<close>

section \<open>Register access\<close>

abbreviation (input) I915_BASE :: u32 where "I915_BASE \<equiv> 0x71000000"
abbreviation (input) I915_REGS :: u32 where "I915_REGS \<equiv> 0x71400000"
abbreviation (input) I915_GTT :: u32 where "I915_GTT \<equiv> 0x71500000"
abbreviation (input) I915_FB :: u32 where "I915_FB \<equiv> 0x71800000"
abbreviation (input) I915_RING :: u32 where "I915_RING \<equiv> 0x7100A000"
abbreviation (input) I915_COMPLETION :: u32 where "I915_COMPLETION \<equiv> 0x71009080"
abbreviation (input) I915_PAGE_LIST :: u32 where "I915_PAGE_LIST \<equiv> 0x71014000"
abbreviation (input) PGTBL_CTL :: u32 where "PGTBL_CTL \<equiv> 0x02020"
abbreviation (input) RING_TAIL :: u32 where "RING_TAIL \<equiv> 0x02030"
abbreviation (input) RING_HEAD :: u32 where "RING_HEAD \<equiv> 0x02034"
abbreviation (input) RING_START :: u32 where "RING_START \<equiv> 0x02038"
abbreviation (input) RING_CTL :: u32 where "RING_CTL \<equiv> 0x0203C"
abbreviation (input) HWS_PGA :: u32 where "HWS_PGA \<equiv> 0x02080"
abbreviation (input) MI_MODE :: u32 where "MI_MODE \<equiv> 0x0209C"
abbreviation (input) PIPE_SOURCE :: u32 where "PIPE_SOURCE \<equiv> 0x6001C"
abbreviation (input) ADPA :: u32 where "ADPA \<equiv> 0x61100"
abbreviation (input) LVDS :: u32 where "LVDS \<equiv> 0x61180"
abbreviation (input) PIPE_CONF :: u32 where "PIPE_CONF \<equiv> 0x70008"
abbreviation (input) PLANE_CONTROL :: u32 where "PLANE_CONTROL \<equiv> 0x70180"
abbreviation (input) PLANE_BASE :: u32 where "PLANE_BASE \<equiv> 0x70184"
abbreviation (input) PLANE_STRIDE :: u32 where "PLANE_STRIDE \<equiv> 0x70188"
abbreviation (input) PLANE_POSITION :: u32 where "PLANE_POSITION \<equiv> 0x7018C"
abbreviation (input) PLANE_SIZE :: u32 where "PLANE_SIZE \<equiv> 0x70190"
abbreviation (input) VGA_CONTROL :: u32 where "VGA_CONTROL \<equiv> 0x71400"
abbreviation (input) ENABLE :: u32 where "ENABLE \<equiv> 0x80000000"
abbreviation (input) COMPLETION_TAG :: u32 where "COMPLETION_TAG \<equiv> 0x915D0001"
abbreviation (input) POLL_LIMIT :: nat where "POLL_LIMIT \<equiv> 10000000"
abbreviation (input) RING_MASK :: u32 where "RING_MASK \<equiv> 0x001FFFFC"
abbreviation (input) STOP_RING :: u32 where "STOP_RING \<equiv> 0x100"
abbreviation (input) MODE_IDLE :: u32 where "MODE_IDLE \<equiv> 0x200"

abbreviation (input) I915_NO_GTT :: u32 where "I915_NO_GTT \<equiv> 0x12"
abbreviation (input) I915_BAD_MEMORY :: u32 where "I915_BAD_MEMORY \<equiv> 0x11"
abbreviation (input) I915_NO_DISPLAY :: u32 where "I915_NO_DISPLAY \<equiv> 0x13"
abbreviation (input) I915_UNSUPPORTED_MODE :: u32 where "I915_UNSUPPORTED_MODE \<equiv> 0x14"
abbreviation (input) I915_ENGINE_BUSY :: u32 where "I915_ENGINE_BUSY \<equiv> 0x15"
abbreviation (input) I915_NO_SELECTOR :: u32 where "I915_NO_SELECTOR \<equiv> 0x17"
abbreviation (input) I915_GTT_CONFLICT :: u32 where "I915_GTT_CONFLICT \<equiv> 0x18"
abbreviation (input) I915_COMMAND_OVERFLOW :: u32 where "I915_COMMAND_OVERFLOW \<equiv> 0x19"
abbreviation (input) I915_GPU_TIMEOUT :: u32 where "I915_GPU_TIMEOUT \<equiv> 0x1A"
abbreviation (input) I915_BAD_PIXELS :: u32 where "I915_BAD_PIXELS \<equiv> 0x1B"
abbreviation (input) I915_WRONG_RING :: u32 where "I915_WRONG_RING \<equiv> 0x1C"
abbreviation (input) I915_ALREADY_STARTED :: u32 where "I915_ALREADY_STARTED \<equiv> 0x1D"
abbreviation (input) I915_ACCESS_DENIED :: u32 where "I915_ACCESS_DENIED \<equiv> 0x1E"
abbreviation (input) I915_BUSY :: u32 where "I915_BUSY \<equiv> 0x1F"
abbreviation (input) I915_BAD_REQUEST :: u32 where "I915_BAD_REQUEST \<equiv> 0x20"
abbreviation (input) I915_CURSOR_FAILED :: u32 where "I915_CURSOR_FAILED \<equiv> 0x21"

definition read_register :: "u32 \<Rightarrow> ('s, u32) prog" where
  "read_register offset = mmio_read (I915_REGS + offset)"

definition write_register :: "u32 \<Rightarrow> u32 \<Rightarrow> ('s, unit) prog" where
  "write_register offset value =
     andthen (mmio_write (I915_REGS + offset) value) (andthen (read_register offset) (ret ()))"

section \<open>The ring-1 driver\<close>

definition enable_cursor :: "(intel915_shared, u32) prog" where
  "enable_cursor = bind (gets id) (\<lambda>s.
    if g_cursor_physical s = 0 \<or> g_cursor_physical s AND 4095 \<noteq> 0 \<or> g_pipe s > 1 then ret I915_CURSOR_FAILED
    else let (built, pixels) = intel915_build_cursor (\<lambda>_. 0) (0x4000 div 4)
    in if built = 0 then ret I915_CURSOR_FAILED
    else andthen (for_each 0 4096 (\<lambda>i. store32 (I915_BASE + 0x10000 + of_nat (4 * i)) (pixels i)))
    (andthen (for_each 0 2 (\<lambda>pipe.
       andthen (write_register (CURSOR_CONTROL + of_nat pipe * CURSOR_STRIDE) 0)
               (write_register (CURSOR_BASE + of_nat pipe * CURSOR_STRIDE) 0)))
    (let offset = g_pipe s * CURSOR_STRIDE
    in let x = (g_width s - I915_CURSOR_WIDTH) div 2
    in let y = (g_height s - I915_CURSOR_HEIGHT) div 2
    in andthen (modify (\<lambda>s. s\<lparr>g_cursor_x := x, g_cursor_y := y\<rparr>))
    (andthen (fence)
    (andthen (write_register (CURSOR_BASE + offset) (g_cursor_physical s))
    (andthen (write_register (CURSOR_CONTROL + offset) (0x27 OR push_bit 28 (g_pipe s)))
    (andthen (write_register (CURSOR_POSITION + offset) (push_bit 16 y OR x))
    (andthen (write_register (CURSOR_BASE + offset) (g_cursor_physical s))
    (bind (read_register (CURSOR_CONTROL + offset)) (\<lambda>control.
    if control AND 0x27 \<noteq> 0x27 then ret I915_CURSOR_FAILED
    else bind (read_register (CURSOR_BASE + offset)) (\<lambda>base.
    if base \<noteq> g_cursor_physical s then ret I915_CURSOR_FAILED
    else andthen (modify (\<lambda>s. s\<lparr>g_cursor_enabled := 1\<rparr>))
    (ret I915_DRAWN))))))))))))"

definition driver_error :: "u32 \<Rightarrow> (intel915_shared, u32) prog" where
  "driver_error err = andthen (modify (\<lambda>s. s\<lparr>g_status := err\<rparr>)) (ret err)"

definition wait_for_ring :: "(intel915_shared, u32) prog" where
  "wait_for_ring = bind (for_until 0 POLL_LIMIT (\<lambda>_. bind (read_register RING_HEAD) (\<lambda>h.
    andthen (modify (\<lambda>s. s\<lparr>g_ring_head := h AND RING_MASK\<rparr>))
    (bind (read_register RING_TAIL) (\<lambda>t.
    andthen (modify (\<lambda>s. s\<lparr>g_ring_tail := t AND RING_MASK\<rparr>))
    (ret (if h AND RING_MASK = t AND RING_MASK then Some (1 :: u32) else None)))))))
     (\<lambda>r. ret (case r of Some x \<Rightarrow> x | None \<Rightarrow> 0))"

text \<open>
  \<^verbatim>\<open>draw_desktop\<close> up to the check that the GPU has written pixels; an early
  \<^verbatim>\<open>return driver_error(e)\<close> is \<open>Some e\<close>. First the engine is stopped.
\<close>

definition draw_stop_engine :: "(intel915_shared, u32 option) prog" where
  "draw_stop_engine = andthen (write_register MI_MODE (push_bit 16 STOP_RING OR STOP_RING))
    (bind (for_until 0 POLL_LIMIT (\<lambda>_. bind (read_register MI_MODE) (\<lambda>mode.
        ret (if mode AND MODE_IDLE \<noteq> 0 then Some () else None)))) (\<lambda>idle.
    if idle \<noteq> None then ret None
    else bind (wait_for_ring) (\<lambda>ok.
    ret (if ok = 0 then Some I915_ENGINE_BUSY else None))))"

definition draw_start_engine :: "u32 \<Rightarrow> (intel915_shared, unit) prog" where
  "draw_start_engine bytes = bind (gets id) (\<lambda>s.
    andthen (write_register RING_CTL 0)
    (andthen (for_each 0 (unat (g_framebuffer_bytes s div 4096)) (\<lambda>index.
        bind (load32 (I915_PAGE_LIST + of_nat (4 * index))) (\<lambda>page.
          mmio_write (I915_GTT + (g_framebuffer_gtt s div 4096 + of_nat index) * 4) (page OR 1))))
    (andthen (mmio_write (I915_GTT + (g_ring_gtt s div 4096) * 4) (g_ring_physical s OR 1))
    (andthen (mmio_read (I915_GTT + (g_ring_gtt s div 4096) * 4))
    (andthen (write_register PGTBL_CTL (g_pgtbl_control s))
    (andthen (mmio_write I915_COMPLETION 0)
    (andthen (write_register HWS_PGA (g_hws_physical s))
    (andthen (write_register RING_TAIL 0)
    (andthen (write_register RING_HEAD 0)
    (andthen (write_register RING_START (g_ring_gtt s))
    (andthen (write_register MI_MODE (push_bit 16 STOP_RING))
    (andthen (write_register RING_CTL 1)
    (andthen (modify (\<lambda>s. s\<lparr>g_stage := 3\<rparr>))
    (andthen (fence)
    (write_register RING_TAIL bytes)))))))))))))))"

definition draw_wait_completion :: "(intel915_shared, u32 option) prog" where
  "draw_wait_completion = bind (for_until 0 POLL_LIMIT (\<lambda>_. bind (mmio_read I915_COMPLETION) (\<lambda>v.
         andthen (modify (\<lambda>s. s\<lparr>g_completion := v\<rparr>))
                 (ret (if v = COMPLETION_TAG then Some () else None))))) (\<lambda>seen.
    bind (read_register RING_HEAD) (\<lambda>h.
    bind (read_register RING_TAIL) (\<lambda>t.
    andthen (modify (\<lambda>s. s\<lparr>g_ring_head := h, g_ring_tail := t\<rparr>))
    (if seen = None then ret (Some I915_GPU_TIMEOUT)
    else bind (wait_for_ring) (\<lambda>ok.
    ret (if ok = 0 then Some I915_GPU_TIMEOUT else None))))))"

definition draw_check_pixels :: "(intel915_shared, u32 option) prog" where
  "draw_check_pixels = andthen (modify (\<lambda>s. s\<lparr>g_stage := 4\<rparr>))
    (bind (gets id) (\<lambda>s.
    let index = ((g_height s - I915_CURSOR_HEIGHT) div 2 + 4) * (g_pitch s div 4)
                 + (g_width s - I915_CURSOR_WIDTH) div 2 + 2
    in bind (mmio_read I915_FB) (\<lambda>p0.
    if p0 AND 0xFFFFFF \<noteq> I915_RECTANGLE then ret (Some I915_BAD_PIXELS)
    else bind (mmio_read (I915_FB + index * 4)) (\<lambda>p1.
    ret (if p1 AND 0xFFFFFF \<noteq> I915_RECTANGLE then Some I915_BAD_PIXELS else None)))))"

definition draw_render :: "(intel915_shared, u32 option) prog" where
  "draw_render = bind (gets id) (\<lambda>s0.
    if g_status s0 \<noteq> I915_READY \<or> g_stage s0 \<noteq> 1 then ret (Some I915_ALREADY_STARTED)
    else andthen (modify (\<lambda>s. s\<lparr>g_stage := 2\<rparr>))
    (bind (read_register RING_CTL) (\<lambda>ctl.
    bind (if ctl AND 1 \<noteq> 0 then bind wait_for_ring (\<lambda>ok. ret (ok = 0)) else ret False) (\<lambda>stuck.
    if stuck then ret (Some I915_ENGINE_BUSY)
    else let (bytes, words) = intel915_build_scene (\<lambda>_. 0) I915_RING_DWORDS (g_width s0) (g_height s0)
                            (g_pitch s0) (g_framebuffer_gtt s0)
    in if bytes = 0 then ret (Some I915_COMMAND_OVERFLOW)
    else andthen (for_each 0 (unat bytes div 4) (\<lambda>i. store32 (I915_RING + of_nat (4 * i)) (words (of_nat i))))
    (andthen (modify (\<lambda>s. s\<lparr>g_command_bytes := bytes\<rparr>))
    (bind (draw_stop_engine) (\<lambda>stopped.
    if stopped \<noteq> None then ret stopped
    else andthen (draw_start_engine bytes)
    (bind (draw_wait_completion) (\<lambda>completed.
    if completed \<noteq> None then ret completed
    else draw_check_pixels)))))))))"

text \<open>The rest of \<^verbatim>\<open>draw_desktop\<close>: the display is switched to the new plane.\<close>

definition draw_switch_display :: "(intel915_shared, u32) prog" where
  "draw_switch_display = bind (gets id) (\<lambda>s.
    let plane = g_pipe s * 0x1000
    in andthen (modify (\<lambda>s. s\<lparr>g_stage := 5\<rparr>))
    (andthen (write_register PLANE_CONTROL (g_old_plane_a s AND NOT ENABLE))
    (andthen (write_register PLANE_BASE (g_old_plane_base_a s))
    (andthen (write_register (PLANE_CONTROL + 0x1000) (g_old_plane_b s AND NOT ENABLE))
    (andthen (write_register (PLANE_BASE + 0x1000) (g_old_plane_base_b s))
    (andthen (write_register (PLANE_STRIDE + plane) (g_pitch s))
    (andthen (write_register (PLANE_POSITION + plane) 0)
    (andthen (write_register (PLANE_SIZE + plane) (push_bit 16 (g_height s - 1) OR (g_width s - 1)))
    (andthen (write_register (PLANE_CONTROL + plane) (ENABLE OR push_bit 26 6 OR push_bit 24 (g_pipe s)))
    (andthen (write_register (PLANE_BASE + plane) (g_framebuffer_gtt s))
    (andthen (write_register VGA_CONTROL (g_old_vga_control s OR ENABLE))
    (bind (enable_cursor) (\<lambda>r.
    if r \<noteq> I915_DRAWN then driver_error I915_CURSOR_FAILED
    else andthen (modify (\<lambda>s. s\<lparr>g_stage := 6, g_status := I915_DRAWN\<rparr>))
    (ret I915_DRAWN))))))))))))))"

definition draw_desktop :: "(intel915_shared, u32) prog" where
  "draw_desktop = bind draw_render (\<lambda>r. case r of Some err \<Rightarrow> driver_error err | None \<Rightarrow> draw_switch_display)"

text \<open>The body of the request, with the lock held.\<close>

definition intel915_serve :: "u32 \<Rightarrow> (intel915_shared, u32) prog" where
  "intel915_serve operation = bind (gets id) (\<lambda>s.
    if operation = 0 then (if g_status s = I915_DRAWN then ret I915_DRAWN else draw_desktop)
    else if g_status s \<noteq> I915_DRAWN then ret (g_status s)
    else ret (push_bit 16 (g_height s) OR g_width s))"

definition intel915_driver_service :: "u32 \<Rightarrow> (intel915_shared, u32) prog" where
  "intel915_driver_service operation = bind (get_cpu cpu_cs) (\<lambda>cs.
    bind (get_cpu cpu_tr) (\<lambda>task.
    bind (gets id) (\<lambda>s.
    if cs AND 3 \<noteq> 1 then ret I915_WRONG_RING
    else if g_owner_tss_selector s = 0 \<or> ucast task \<noteq> g_owner_tss_selector s then ret I915_ACCESS_DENIED
    else if operation > 1 then ret I915_BAD_REQUEST
    else andthen (modify (\<lambda>s. s\<lparr>g_busy := 1\<rparr>))
    (if g_busy s \<noteq> 0 then ret I915_BUSY
    else andthen (modify (\<lambda>s. s\<lparr>g_observed_cs := ucast cs, g_request_count := g_request_count s + 1\<rparr>))
    (bind (intel915_serve operation) (\<lambda>result.
    andthen (modify (\<lambda>s. s\<lparr>g_busy := 0\<rparr>))
    (ret result)))))))"

section \<open>The kernel half\<close>

text \<open>\<^verbatim>\<open>panic_state\<close> is NULL or the one shared page; its non-NULL test is a boolean here.\<close>

record i915_kernel =
  i9_panic_state :: bool
  i9_shared :: intel915_shared

abbreviation (input) on_shared :: "(intel915_shared, 'a) prog \<Rightarrow> (i915_kernel, 'a) prog" where
  "on_shared m \<equiv> zoom i9_shared (\<lambda>s k. k\<lparr>i9_shared := s\<rparr>) m"

definition intel915_update_cursor :: "cursor_motion list \<Rightarrow> (i915_kernel, u32) prog" where
  "intel915_update_cursor motions = bind (gets i9_panic_state) (\<lambda>present.
     on_shared (intel915_cursor_flush present I915_REGS motions))"

definition intel915_claim_desktop :: "u32 \<Rightarrow> (i915_kernel, u32) prog" where
  "intel915_claim_desktop tss_selector = bind (gets id) (\<lambda>k.
    if \<not> i9_panic_state k \<or> g_status (i9_shared k) \<noteq> I915_READY \<or> g_owner_tss_selector (i9_shared k) \<noteq> 0 \<or>
       tss_selector = 0 \<or> tss_selector > 0xFFF8 \<or> tss_selector AND 7 \<noteq> 0 then ret 0
    else andthen (modify (\<lambda>k. k\<lparr>i9_shared := (i9_shared k)\<lparr>g_owner_tss_selector := tss_selector\<rparr>\<rparr>))
    (ret 1))"

definition clear_enable :: "u32 \<Rightarrow> ('s, unit) prog" where
  "clear_enable offset = bind (mmio_read (I915_REGS + offset)) (\<lambda>v. mmio_write (I915_REGS + offset) (v AND NOT ENABLE))"

definition intel915_restore_text_display :: "(i915_kernel, unit) prog" where
  "intel915_restore_text_display = bind (gets id) (\<lambda>k.
    if \<not> i9_panic_state k \<or> g_stage (i9_shared k) < 5 then ret ()
    else andthen (for_each 0 2 (\<lambda>pipe.
       andthen (mmio_write (I915_REGS + (CURSOR_CONTROL + of_nat pipe * CURSOR_STRIDE)) 0)
               (mmio_write (I915_REGS + (CURSOR_BASE + of_nat pipe * CURSOR_STRIDE)) 0)))
    (andthen (modify (\<lambda>k. k\<lparr>i9_shared := (i9_shared k)\<lparr>g_cursor_enabled := 0\<rparr>\<rparr>))
    (andthen (clear_enable PLANE_CONTROL)
    (andthen (mmio_write (I915_REGS + PLANE_BASE) (g_old_plane_base_a (i9_shared k)))
    (andthen (clear_enable (PLANE_CONTROL + 0x1000))
    (andthen (mmio_write (I915_REGS + (PLANE_BASE + 0x1000)) (g_old_plane_base_b (i9_shared k)))
    (andthen (mmio_write (I915_REGS + VGA_CONTROL) (g_old_vga_control (i9_shared k) AND NOT ENABLE))
    (andthen (mmio_read (I915_REGS + VGA_CONTROL))
    (ret ())))))))))"

definition pci_read :: "u32 \<Rightarrow> u32 \<Rightarrow> ('s, u32) prog" where
  "pci_read device offset =
     andthen (out32 0xCF8 (0x80000000 OR device OR (offset AND 0xFC))) (in32 0xCFC)"

definition enable_bus_master :: "u32 \<Rightarrow> ('s, unit) prog" where
  "enable_bus_master device = bind (pci_read device 4) (\<lambda>command.
    andthen (out32 0xCF8 (0x80000000 OR device OR 4))
    (andthen (out16 0xCFC (ucast command OR 4))
    (andthen (pci_read device 4)
    (ret ()))))"

definition find_gpu :: "('s, u32) prog" where
  "find_gpu = bind (for_until 0 256 (\<lambda>bus. for_until 0 32 (\<lambda>device. let address = push_bit 16 (of_nat bus) OR push_bit 11 (of_nat device)
    in bind (pci_read address 0) (\<lambda>vendor.
    if vendor \<noteq> 0x25928086 then ret None
    else bind (pci_read address 8) (\<lambda>class_code.
    ret (if drop_bit 16 class_code = 0x0300 then Some address else None))))))
     (\<lambda>r. ret (case r of Some a \<Rightarrow> a | None \<Rightarrow> 0xFFFFFFFF))"

abbreviation (input) KERNEL_PD :: u32 where "KERNEL_PD \<equiv> 0x30030000"
abbreviation (input) KNOWN_RAM_END :: u32 where "KNOWN_RAM_END \<equiv> 0x3F780000"
abbreviation (input) UNCACHED_RW :: u32 where "UNCACHED_RW \<equiv> 0x1B"

definition map_checked :: "u32 \<Rightarrow> u32 \<Rightarrow> u32 \<Rightarrow> ('s, unit) prog" where
  "map_checked address physical flags = bind (kernel_call Get_physical_address [KERNEL_PD, address]) (\<lambda>old.
    if old \<noteq> 0 then panic ''Intel915 virtual address is already mapped''
    else bind (kernel_call Map_page [address, physical, flags]) (\<lambda>ok.
    if ok = 0 then panic ''Intel915 page mapping failed''
    else ret ()))"

definition allocate_page :: "u32 \<Rightarrow> u32 \<Rightarrow> ('s, u32) prog" where
  "allocate_page address flags = bind (kernel_call Pmm_alloc_page []) (\<lambda>physical.
    if physical = 0 then panic ''No physical memory for Intel915''
    else andthen (map_checked address physical flags)
    (ret physical))"

text \<open>
  The allocation loop of \<^verbatim>\<open>allocate_cursor_pages\<close>: it ends with a run found (its index),
  with no memory left, or after 64 pages.
\<close>

fun cursor_alloc_loop :: "nat \<Rightarrow> u32 list \<Rightarrow> ('s, u32 list \<times> u32) prog" where
  "cursor_alloc_loop 0 pages = ret (pages, 0xFFFFFFFF)"
| "cursor_alloc_loop (Suc n) pages = bind (kernel_call Pmm_alloc_page []) (\<lambda>physical.
     if physical = 0 then ret (pages, 0xFFFFFFFF)
     else
       let pages1 = pages @ [physical]; found = intel915_find_cursor_pages pages1
       in if found \<noteq> 0xFFFFFFFF then ret (pages1, found) else cursor_alloc_loop n pages1)"

definition allocate_cursor_pages :: "('s, u32) prog" where
  "allocate_cursor_pages = bind (cursor_alloc_loop 64 []) (\<lambda>(pages, found).
    let base = (if found \<noteq> 0xFFFFFFFF then pages ! unat found else 0)
    in andthen (for_each 0 (length pages) (\<lambda>i.
       cond (base = 0 \<or> of_nat i < found \<or> of_nat i \<ge> found + 4)
         (andthen (kernel_call Pmm_free_page [pages ! i]) (ret ()))))
    (ret base))"

definition host_register :: "u32 \<Rightarrow> ('s, u32) prog" where
  "host_register offset = mmio_read (I915_REGS + offset)"

definition create_gate :: "u32 \<Rightarrow> u32 \<Rightarrow> ('s, u32) prog" where
  "create_gate code offset = bind (kernel_call Gdt_alloc_selector []) (\<lambda>selector.
    andthen (cond (selector \<noteq> 0) (andthen (kernel_call Gdt_write_raw_descriptor
       [selector, push_bit 16 code OR (offset AND 0xFFFF), (offset AND 0xFFFF0000) OR 0xEC00]) (ret ())))
    (ret selector))"

definition hex_digits :: string where
  "hex_digits = ''0123456789ABCDEF''"

definition hex8 :: "u32 \<Rightarrow> string" where
  "hex8 value = map (\<lambda>index. hex_digits ! unat (drop_bit (28 - index * 4) value AND 15)) [0..<8]"

definition write_hex :: "string \<Rightarrow> nat \<Rightarrow> u32 \<Rightarrow> string" where
  "write_hex message position value = take position message @ hex8 value @ drop (position + 8) message"

definition graphics_failure :: "u32 \<Rightarrow> (i915_kernel, 'a) prog" where
  "graphics_failure err = andthen (modify (\<lambda>k. k\<lparr>i9_shared := (i9_shared k)\<lparr>g_status := err\<rparr>\<rparr>))
    (bind (gets i9_shared) (\<lambda>k.
    panic (write_hex (write_hex (write_hex (write_hex (write_hex
       ''Intel915 status=00000000 stage=00000000 head=00000000 tail=00000000 done=00000000''
       16 err) 31 (g_stage k)) 45 (g_ring_head k)) 59 (g_ring_tail k)) 73 (g_completion k))))"

definition set_gfx :: "(intel915_shared \<Rightarrow> intel915_shared) \<Rightarrow> (i915_kernel, unit) prog" where
  "set_gfx f = modify (\<lambda>k. k\<lparr>i9_shared := f (i9_shared k)\<rparr>)"

text \<open>
  \<^verbatim>\<open>intel915_initialize\<close> in the order of the source: the PCI resources are read and
  checked, memory is pinned and mapped, the running display mode is read, the gate is made.
\<close>

definition i915_read_bars :: "u32 \<Rightarrow> ('s, u32 \<times> u32 \<times> u32 \<times> u32 \<times> u32) prog" where
  "i915_read_bars pci = bind (pci_read pci 0x10) (\<lambda>mmio.
    bind (pci_read pci 0x1C) (\<lambda>gtt.
    bind (pci_read pci 0x18) (\<lambda>aperture.
    bind (pci_read pci 0x60) (\<lambda>msac.
    let aperture_size = (if msac AND push_bit 16 2 \<noteq> 0 then 0x08000000 else 0x10000000 :: u32)
    in bind (pci_read pci 0x5C) (\<lambda>bsm.
    let stolen = bsm AND 0xFFF00000
    in bind (pci_read pci 4) (\<lambda>command.
    if command AND 2 = 0 \<or> mmio AND 7 \<noteq> 0 \<or> gtt AND 7 \<noteq> 0 \<or> aperture AND 7 \<noteq> 0
       then panic ''Intel915 PCI memory decoding is disabled or BAR type is invalid''
    else let mmio = mmio AND 0xFFF80000
    in let gtt = gtt AND 0xFFFC0000
    in let aperture = aperture AND NOT (aperture_size - 1)
    in if mmio < 0x40000000 \<or> gtt < 0x40000000 \<or> aperture < 0x40000000 \<or>
         stolen < KNOWN_RAM_END \<or> stolen \<ge> 0x40000000 \<or> gtt AND 0xFFF80000 = mmio \<or>
         mmio AND NOT (aperture_size - 1) = aperture \<or> gtt AND NOT (aperture_size - 1) = aperture
       then panic ''Intel915 BARs/stolen RAM do not match this laptop memory map''
    else ret (mmio, gtt, aperture, aperture_size, stolen)))))))"

definition i915_map_memory :: "u32 \<Rightarrow> u32 \<Rightarrow> u32 \<Rightarrow> u32 \<Rightarrow> u32 \<Rightarrow> u32 \<Rightarrow> (i915_kernel, unit) prog" where
  "i915_map_memory pci mmio gtt aperture aperture_size stolen = andthen (kernel_call Pmm_mark_range_used [stolen, 0x40000000])
    (bind (allocate_cursor_pages) (\<lambda>cursor_physical.
    if cursor_physical = 0 then panic ''No contiguous memory for Intel915 cursor''
    else andthen (for_each 0 256 (\<lambda>page.
       let offset = of_nat page * 0x1000
       in if offset \<ge> 0x10000 \<and> offset < 0x10000 + 0x4000
          then map_checked (I915_BASE + offset) (cursor_physical + offset - 0x10000) UNCACHED_RW
          else andthen (allocate_page (I915_BASE + offset)
                 (if offset = 0x9000 \<or> offset = 0xA000 then UNCACHED_RW else 3)) (ret ())))
    (andthen (mem_apply (\<lambda>m. memset m I915_BASE 0 0x100000))
    (andthen (mem_apply (\<lambda>m. memcpy m I915_BASE 0x80010000 0x4000))
    (andthen (set_gfx (\<lambda>_. i915_blank\<lparr>g_pci_address := pci, g_cursor_physical := cursor_physical,
       g_mmio_physical := mmio, g_gtt_physical := gtt, g_aperture_physical := aperture,
       g_aperture_size := aperture_size, g_stolen_base := stolen\<rparr>))
    (andthen (for_each 0 128 (\<lambda>page. map_checked (I915_REGS + of_nat page * 0x1000) (mmio + of_nat page * 0x1000) UNCACHED_RW))
    (for_each 0 64 (\<lambda>page. map_checked (I915_GTT + of_nat page * 0x1000) (gtt + of_nat page * 0x1000) UNCACHED_RW))))))))"

definition i915_select_output :: "(i915_kernel, u32) prog" where
  "i915_select_output = bind (host_register LVDS) (\<lambda>lvds.
    bind ((if lvds AND ENABLE = 0 then host_register ADPA
       else bind (host_register ADPA) (\<lambda>adpa.
         if adpa AND ENABLE = 0 then ret lvds
         else bind (host_register ADPA) (\<lambda>again.
         if (again XOR lvds) AND push_bit 30 1 \<noteq> 0 then graphics_failure I915_NO_DISPLAY
         else ret lvds)))) (\<lambda>output.
    if output AND ENABLE = 0 then graphics_failure I915_NO_DISPLAY
    else ret output))"

definition i915_read_mode :: "u32 \<Rightarrow> (i915_kernel, unit) prog" where
  "i915_read_mode aperture_size = bind (host_register PGTBL_CTL) (\<lambda>control.
    andthen (set_gfx (\<lambda>s. s\<lparr>g_pgtbl_control := control\<rparr>))
    (if control AND 1 = 0 then graphics_failure I915_NO_GTT
    else if control AND 0xFFFFF000 < KNOWN_RAM_END \<or> control AND 0xFFFFF000 > 0x40000000 - aperture_size div 1024
       then graphics_failure I915_BAD_MEMORY
    else bind (i915_select_output) (\<lambda>output.
    let pipe = drop_bit 30 output AND 1
    in andthen (set_gfx (\<lambda>s. s\<lparr>g_pipe := pipe\<rparr>))
    (bind (host_register (PIPE_CONF + pipe * 0x1000)) (\<lambda>conf.
    if conf AND ENABLE = 0 then graphics_failure I915_NO_DISPLAY
    else bind (host_register (PIPE_SOURCE + pipe * 0x1000)) (\<lambda>source.
    let width = (drop_bit 16 source AND 0xFFF) + 1
    in let height = (source AND 0xFFF) + 1
    in andthen (set_gfx (\<lambda>s. s\<lparr>g_width := width, g_height := height\<rparr>))
    (case intel915_mode_layout width height of
       None \<Rightarrow> graphics_failure I915_UNSUPPORTED_MODE
     | Some (pitch, bytes) \<Rightarrow>
         set_gfx (\<lambda>s. s\<lparr>g_pitch := pitch, g_framebuffer_bytes := bytes,
           g_framebuffer_gtt := aperture_size - 0x01000000,
           g_ring_gtt := aperture_size - 0x01000000 + I915_FB_MAX_SIZE\<rparr>))))))))"

definition i915_save_display :: "(i915_kernel, unit) prog" where
  "i915_save_display = bind (host_register VGA_CONTROL) (\<lambda>vga.
    bind (host_register PLANE_CONTROL) (\<lambda>plane_a.
    bind (host_register (PLANE_CONTROL + 0x1000)) (\<lambda>plane_b.
    bind (host_register PLANE_BASE) (\<lambda>base_a.
    bind (host_register (PLANE_BASE + 0x1000)) (\<lambda>base_b.
    andthen (set_gfx (\<lambda>s. s\<lparr>g_old_vga_control := vga, g_old_plane_a := plane_a, g_old_plane_b := plane_b,
       g_old_plane_base_a := base_a, g_old_plane_base_b := base_b\<rparr>))
    (andthen (modify (\<lambda>k. k\<lparr>i9_panic_state := True\<rparr>))
    (bind (gets i9_shared) (\<lambda>s.
    if (plane_a AND ENABLE \<noteq> 0 \<and> base_a \<ge> g_framebuffer_gtt s - 0x01000000) \<or>
         (plane_b AND ENABLE \<noteq> 0 \<and> base_b \<ge> g_framebuffer_gtt s - 0x01000000)
       then graphics_failure I915_GTT_CONFLICT
    else ret ()))))))))"

definition i915_make_gate :: "u32 \<Rightarrow> (i915_kernel, u32) prog" where
  "i915_make_gate pci = bind (gets i9_shared) (\<lambda>s.
    andthen (for_each 0 (unat (g_framebuffer_bytes s) div 4096) (\<lambda>page.
       bind (allocate_page (I915_FB + of_nat page * 0x1000) UNCACHED_RW) (\<lambda>physical.
         store32 (I915_PAGE_LIST + of_nat (4 * page)) physical)))
    (bind (kernel_call Get_physical_address [KERNEL_PD, I915_BASE + 0x9000]) (\<lambda>hws.
    bind (kernel_call Get_physical_address [KERNEL_PD, I915_RING]) (\<lambda>ring.
    andthen (set_gfx (\<lambda>s. s\<lparr>g_hws_physical := hws, g_ring_physical := ring\<rparr>))
    (bind (kernel_call Gdt_create_code_descriptor [I915_BASE, 0xFFFF, 0x20]) (\<lambda>code.
    bind (kernel_call Gdt_create_data_descriptor [I915_BASE, 0xFFFFFF, 0x20]) (\<lambda>data.
    if code = 0 \<or> data = 0 then graphics_failure I915_NO_SELECTOR
    else bind (create_gate code 0) (\<lambda>gate.
    andthen (set_gfx (\<lambda>s. s\<lparr>g_code_selector := code OR 1, g_data_selector := data OR 1, g_entry_gate := gate\<rparr>))
    (if gate = 0 then graphics_failure I915_NO_SELECTOR
    else andthen (set_gfx (\<lambda>s. s\<lparr>g_status := I915_READY, g_stage := 1\<rparr>))
    (andthen (enable_bus_master pci)
    (andthen (store32 0x8000233C (gate OR 3))
    (andthen (store32 0x80002340 (data OR 1))
    (andthen (store32 0x80002344 (code OR 1))
    (andthen (store32 0x80002348 1)
    (ret 1)))))))))))))))"

definition intel915_initialize :: "(i915_kernel, u32) prog" where
  "intel915_initialize = bind (find_gpu) (\<lambda>pci.
    if pci = 0xFFFFFFFF then ret 0
    else bind (i915_read_bars pci) (\<lambda>(mmio, gtt, aperture, aperture_size, stolen).
    andthen (i915_map_memory pci mmio gtt aperture aperture_size stolen)
    (andthen (i915_read_mode aperture_size)
    (andthen (i915_save_display)
    (i915_make_gate pci)))))"

section \<open>The service always returns\<close>

lemma i915_register_returns [returns_intros]:
  "returns (read_register a)" "returns (write_register a v)" "returns wait_for_ring"
  "returns (driver_error err)"
  by (auto simp: read_register_def write_register_def wait_for_ring_def driver_error_def
      intro!: returns_intros)

lemma i915_draw_returns [returns_intros]:
  "returns draw_stop_engine" "returns (draw_start_engine b)" "returns draw_wait_completion"
  "returns draw_check_pixels" "returns enable_cursor"
  by (auto simp: draw_stop_engine_def draw_start_engine_def draw_wait_completion_def
      draw_check_pixels_def enable_cursor_def Let_def split_def intro!: returns_intros)

lemma draw_desktop_returns [returns_intros]: "returns draw_desktop"
  by (auto simp: draw_desktop_def draw_render_def draw_switch_display_def Let_def split_def
      intro!: returns_intros)

lemma intel915_serve_returns [returns_intros]: "returns (intel915_serve op)"
  by (auto simp: intel915_serve_def intro!: returns_intros)

section \<open>The display until the GPU has drawn\<close>

text \<open>Writes to the display engine's registers, offsets 60000h to 7FFFFh of the window.\<close>

definition display_write :: "io_event \<Rightarrow> bool" where
  "display_write ev = (case ev of Mmio_write a _ \<Rightarrow> 0x71460000 \<le> a \<and> a < 0x71480000 | _ \<Rightarrow> False)"

lemma display_write_simps [simp]:
  "\<not> display_write (Mmio_read a v)" "\<not> display_write Fence"
  "display_write (Mmio_write a v) \<longleftrightarrow> 0x71460000 \<le> a \<and> a < 0x71480000"
  by (simp_all add: display_write_def)

lemma register_quiet [emits_intros]:
  "emits (\<lambda>ev. \<not> display_write ev) (read_register a)"
  "off < 0x60000 \<Longrightarrow> emits (\<lambda>ev. \<not> display_write ev) (write_register off v)"
proof -
  show "emits (\<lambda>ev. \<not> display_write ev) (read_register a)"
    by (auto simp: read_register_def intro!: emits_intros)
  assume "off < 0x60000"
  then have "\<not> 0x71460000 \<le> I915_REGS + off"
    by (simp add: word_le_nat_alt word_less_nat_alt unat_word_ariths not_le)
  then show "emits (\<lambda>ev. \<not> display_write ev) (write_register off v)"
    by (auto simp: write_register_def read_register_def intro!: emits_intros)
qed

lemma gtt_not_display: "unat q < 0x200000 \<Longrightarrow> \<not> (0x71500000 + q * 4 < (0x71480000 :: u32))"
  by (simp add: word_less_nat_alt unat_word_ariths)

lemma unat_page_number: "unat (x div 4096 :: u32) < 0x100000"
proof -
  have "unat x < 0x100000000" using unsigned_less [of x] by simp
  then show ?thesis by (simp add: unat_div)
qed

lemma unat_page_sum:
  assumes "i < unat (bytes div 4096 :: u32)"
  shows "unat (fb div 4096 + of_nat i :: u32) < 0x200000"
proof -
  have i: "i < 0x100000" using assms unat_page_number [of bytes] by (rule less_trans)
  then have "unat (of_nat i :: u32) = i" by (simp add: unat_of_nat take_bit_eq_mod)
  then show ?thesis using i unat_page_number [of fb] by (simp add: unat_word_ariths)
qed

lemma emits_for_each_bounded:
  assumes "\<And>k. i \<le> k \<Longrightarrow> k < i + n \<Longrightarrow> emits P (body k)"
  shows "emits P (for_each i n body)"
  using assms
proof (induction n arbitrary: i)
  case (Suc n)
  have "emits P (for_each (Suc i) n body)" by (rule Suc.IH) (use Suc.prems in auto)
  then show ?case using Suc.prems [of i] by (simp add: emits_andthen)
qed (simp add: emits_ret)

lemma draw_render_quiet: "emits (\<lambda>ev. \<not> display_write ev) draw_render"
proof -
  have loop: "emits (\<lambda>ev. \<not> display_write ev) (for_each 0 (unat (bytes div 4096)) (\<lambda>index.
      bind (load32 (I915_PAGE_LIST + of_nat (4 * index))) (\<lambda>page.
        mmio_write (I915_GTT + (fb div 4096 + of_nat index) * 4) (page OR 1))))" for bytes fb :: u32
  proof (rule emits_for_each_bounded)
    fix k assume "0 \<le> k" and k: "k < 0 + unat (bytes div 4096)"
    have n: "\<not> (I915_GTT + (fb div 4096 + of_nat k) * 4 < (0x71480000 :: u32))"
      by (rule gtt_not_display [OF unat_page_sum [of k bytes]]) (use k in simp)
    show "emits (\<lambda>ev. \<not> display_write ev) (bind (load32 (I915_PAGE_LIST + of_nat (4 * k))) (\<lambda>page.
        mmio_write (I915_GTT + (fb div 4096 + of_nat k) * 4) (page OR 1)))"
      by (intro emits_intros) (simp only: display_write_simps n simp_thms)
  qed
  have ring: "\<not> (I915_GTT + ring div 4096 * 4 < (0x71480000 :: u32))" for ring
    by (rule gtt_not_display) (rule less_trans [OF unat_page_number], simp)
  have start: "emits (\<lambda>ev. \<not> display_write ev) (draw_start_engine b)" for b
    unfolding draw_start_engine_def
    by (rule loop emits_intros | simp add: ring)+
  have wait: "emits (\<lambda>ev. \<not> display_write ev) wait_for_ring"
    by (auto simp: wait_for_ring_def intro!: emits_intros)
  have stop: "emits (\<lambda>ev. \<not> display_write ev) draw_stop_engine"
    using wait by (auto simp: draw_stop_engine_def intro!: emits_intros)
  have compl: "emits (\<lambda>ev. \<not> display_write ev) draw_wait_completion"
    using wait by (auto simp: draw_wait_completion_def intro!: emits_intros)
  have check: "emits (\<lambda>ev. \<not> display_write ev) draw_check_pixels"
    by (auto simp: draw_check_pixels_def Let_def intro!: emits_intros)
  show ?thesis
    using start wait stop compl check
    by (auto simp: draw_render_def Let_def split_def intro!: emits_intros)
qed

text \<open>Once the switch has begun the only results are success and a cursor failure.\<close>

lemma switch_result: "draw_switch_display e w = Done r w' \<Longrightarrow> r = I915_DRAWN \<or> r = I915_CURSOR_FAILED"
  unfolding draw_switch_display_def Let_def driver_error_def
  by (auto simp: run_bind run_andthen run_ret run_gets run_modify split: outcome.splits if_splits)

lemma draw_desktop_quiet:
  assumes "draw_desktop e w = Done r w'" "r \<noteq> I915_DRAWN" "r \<noteq> I915_CURSOR_FAILED"
  shows "\<exists>new. io w' = new @ io w \<and> list_all (\<lambda>ev. \<not> display_write ev) new"
proof -
  obtain x v where r: "draw_render e w = Done x v"
    and c: "(case x of Some err \<Rightarrow> driver_error err | None \<Rightarrow> draw_switch_display) e v = Done r w'"
    using assms(1) by (auto simp: draw_desktop_def bind_def split: outcome.splits)
  have "x \<noteq> None" using c switch_result [of e v r w'] assms(2,3) by (cases x) simp_all
  then have "io w' = io v" using c by (auto simp: driver_error_def prog_simps)
  then show ?thesis using emitsD [OF draw_render_quiet, of e w] r by simp
qed

section \<open>Cursor pages: none leaked\<close>

text \<open>The pages handed out and given back in a stretch of history, oldest first.\<close>

definition pages_allocated :: "io_event list \<Rightarrow> u32 list" where
  "pages_allocated log = List.map_filter
     (\<lambda>ev. case ev of Call Pmm_alloc_page _ v \<Rightarrow> (if v = 0 then None else Some v) | _ \<Rightarrow> None) (rev log)"

definition pages_freed :: "io_event list \<Rightarrow> u32 list" where
  "pages_freed log = List.map_filter
     (\<lambda>ev. case ev of Call Pmm_free_page args _ \<Rightarrow> Some (hd args) | _ \<Rightarrow> None) (rev log)"

lemma map_filter_append: "List.map_filter f (xs @ ys) = List.map_filter f xs @ List.map_filter f ys"
  by (simp add: List.map_filter_def)

lemma page_log_simps [simp]:
  "pages_allocated [] = []" "pages_freed [] = []"
  "pages_allocated (xs @ ys) = pages_allocated ys @ pages_allocated xs"
  "pages_freed (xs @ ys) = pages_freed ys @ pages_freed xs"
  "pages_allocated [Call Pmm_alloc_page a v] = (if v = 0 then [] else [v])"
  "pages_freed [Call Pmm_alloc_page a v] = []"
  "pages_allocated [Call Pmm_free_page a v] = []" "pages_freed [Call Pmm_free_page a v] = [hd a]"
  by (simp_all add: pages_allocated_def pages_freed_def map_filter_append map_filter_simps)

lemma find_cursor_pages_run:
  assumes "length pages < 2 ^ 32 - 1" "intel915_find_cursor_pages pages \<noteq> 0xFFFFFFFF"
  shows "unat (intel915_find_cursor_pages pages) + 3 < length pages \<and>
    cursor_run_at pages (unat (intel915_find_cursor_pages pages))"
proof -
  have len: "\<not> length pages < 4" using assms(2) by (auto simp: intel915_find_cursor_pages_def)
  let ?n = "length pages - 3"
  have eq: "intel915_find_cursor_pages pages = cursor_pages_from pages 0 ?n"
    using len by (simp add: intel915_find_cursor_pages_def)
  have spec: "cursor_pages_from pages 0 ?n =
      (if \<exists>k. k < ?n \<and> cursor_run_at pages k then of_nat (LEAST k. cursor_run_at pages k) else 0xFFFFFFFF)"
    using cursor_pages_from_spec [of 0 ?n pages] assms(1) len by auto
  obtain k where k: "k < ?n" "cursor_run_at pages k" using assms(2) eq spec by (auto split: if_splits)
  let ?l = "LEAST k. cursor_run_at pages k"
  have l: "?l \<le> k" "cursor_run_at pages ?l" using k(2) by (auto intro: Least_le LeastI)
  then have "unat (of_nat ?l :: u32) = ?l" using k(1) assms(1) by (simp add: unat_of_nat take_bit_eq_mod)
  then show ?thesis using eq spec k l by auto
qed

lemma cursor_alloc_loop_run:
  assumes "length pages + n \<le> 64"
  shows "\<exists>more found w' new. cursor_alloc_loop n pages e w = Done (pages @ more, found) w' \<and>
    io w' = new @ io w \<and> pages_allocated new = more \<and> pages_freed new = [] \<and> length (pages @ more) \<le> 64 \<and>
    (found = 0xFFFFFFFF \<or> found = intel915_find_cursor_pages (pages @ more))"
  using assms
proof (induction n arbitrary: pages w)
  case 0
  then show ?case by (intro exI [of _ "[]"]) (auto simp: run_ret)
next
  case (Suc n)
  let ?v = "env_in e (io w) (Req_call Pmm_alloc_page [])"
  let ?w = "w\<lparr>io := Call Pmm_alloc_page [] ?v # io w\<rparr>" and ?p = "pages @ [?v]"
  have log: "io ?w = [Call Pmm_alloc_page [] ?v] @ io w" by simp
  consider "?v = 0" | "?v \<noteq> 0" "intel915_find_cursor_pages ?p \<noteq> 0xFFFFFFFF"
    | "?v \<noteq> 0" "intel915_find_cursor_pages ?p = 0xFFFFFFFF" by blast
  then show ?case
  proof cases
    case 1
    then have "cursor_alloc_loop (Suc n) pages e w = Done (pages @ [], 0xFFFFFFFF) ?w"
      by (simp add: run_bind run_kernel_call run_ret)
    then show ?thesis using 1 Suc.prems log
      by (intro exI [of _ "[]"] exI [of _ "0xFFFFFFFF"] exI [of _ ?w] exI [of _ "[Call Pmm_alloc_page [] ?v]"]) simp
  next
    case 2
    then have "cursor_alloc_loop (Suc n) pages e w = Done (?p, intel915_find_cursor_pages ?p) ?w"
      by (simp add: run_bind run_kernel_call run_ret Let_def)
    then show ?thesis using 2 Suc.prems log
      by (intro exI [of _ "[?v]"] exI [of _ "intel915_find_cursor_pages ?p"] exI [of _ ?w]
          exI [of _ "[Call Pmm_alloc_page [] ?v]"]) simp
  next
    case 3
    then have step: "cursor_alloc_loop (Suc n) pages e w = cursor_alloc_loop n ?p e ?w"
      by (simp add: run_bind run_kernel_call Let_def)
    obtain more found w' new where ih: "cursor_alloc_loop n ?p e ?w = Done (?p @ more, found) w'"
      "io w' = new @ io ?w" "pages_allocated new = more" "pages_freed new = []" "length (?p @ more) \<le> 64"
      "found = 0xFFFFFFFF \<or> found = intel915_find_cursor_pages (?p @ more)"
      using Suc.IH [of ?p ?w] Suc.prems by auto
    then show ?thesis using step 3(1)
      by (intro exI [of _ "?v # more"] exI [of _ found] exI [of _ w']
          exI [of _ "new @ [Call Pmm_alloc_page [] ?v]"]) simp
  qed
qed

lemma free_loop_run:
  "\<exists>w' new. for_each i n (\<lambda>k. cond (P k) (andthen (kernel_call Pmm_free_page [pages ! k]) (ret ()))) e w = Done () w' \<and>
    io w' = new @ io w \<and> pages_allocated new = [] \<and>
    pages_freed new = map ((!) pages) (filter P [i..<i + n])"
proof (induction n arbitrary: i w)
  case 0
  then show ?case by (simp add: run_ret)
next
  case (Suc n)
  let ?v = "env_in e (io w) (Req_call Pmm_free_page [pages ! i])"
  let ?new = "if P i then [Call Pmm_free_page [pages ! i] ?v] else []"
  let ?w = "w\<lparr>io := ?new @ io w\<rparr>"
  have step: "for_each i (Suc n) (\<lambda>k. cond (P k) (andthen (kernel_call Pmm_free_page [pages ! k]) (ret ()))) e w =
      for_each (Suc i) n (\<lambda>k. cond (P k) (andthen (kernel_call Pmm_free_page [pages ! k]) (ret ()))) e ?w"
    by (simp add: run_andthen run_cond run_kernel_call run_ret)
  obtain w' new where "for_each (Suc i) n (\<lambda>k. cond (P k) (andthen (kernel_call Pmm_free_page [pages ! k]) (ret ()))) e ?w = Done () w'"
    "io w' = new @ io ?w" "pages_allocated new = []" "pages_freed new = map ((!) pages) (filter P [Suc i..<Suc i + n])"
    using Suc.IH [of "Suc i" ?w] by auto
  then show ?case
    using step by (intro exI [of _ w'] exI [of _ "new @ ?new"]) (simp add: upt_rec [of i] del: for_each.simps)
qed

lemma kept_pages:
  assumes "k + 4 \<le> length pages" "length pages \<le> 64" "found = (of_nat k :: u32)"
  shows "map ((!) pages) (filter (\<lambda>i. of_nat i < found \<or> of_nat i \<ge> found + 4) [0..<length pages]) =
    take k pages @ drop (k + 4) pages"
proof -
  let ?P = "\<lambda>i. of_nat i < found \<or> of_nat i \<ge> found + 4"
  have P: "?P i \<longleftrightarrow> i < k \<or> k + 4 \<le> i" if "i < length pages" for i
    using that assms by (auto simp: word_less_nat_alt word_le_nat_alt unat_word_ariths unat_of_nat take_bit_eq_mod)
  have "[0..<length pages] = [0..<k] @ [k..<k + 4] @ [k + 4..<length pages]"
    using assms(1) upt_add_eq_append [of 0 k "length pages - k"] upt_add_eq_append [of k "k + 4" "length pages - (k + 4)"]
    by simp
  moreover have "filter ?P [0..<k] = [0..<k]" "filter ?P [k..<k + 4] = []"
    "filter ?P [k + 4..<length pages] = [k + 4..<length pages]"
    using P assms(1) by (auto simp: filter_id_conv filter_empty_conv)
  ultimately have "filter ?P [0..<length pages] = [0..<k] @ [k + 4..<length pages]" by simp
  moreover have "map ((!) pages) [0..<k] = take k pages"
    "map ((!) pages) [k + 4..<length pages] = drop (k + 4) pages"
    using assms(1) by (simp_all add: list_eq_iff_nth_eq)
  ultimately show ?thesis by simp
qed

section \<open>Properties\<close>

text \<open>
  C11: the graphics service always returns, whatever the GPU does, because every wait is bounded;
  and it leaves the lock free exactly when it found it free.
\<close>

theorem intel915_service_returns_unlocked:
  "\<exists>r w'. intel915_driver_service op e w = Done r w' \<and> (g_busy (vars w') = 0) = (g_busy (vars w) = 0)"
proof -
  let ?s = "vars w" and ?cs = "cpu_cs (cpu_regs w)"
  let ?w = "w\<lparr>vars := ?s\<lparr>g_busy := 1, g_observed_cs := ucast ?cs, g_request_count := g_request_count ?s + 1\<rparr>\<rparr>"
  obtain r w' where "intel915_serve op e ?w = Done r w'"
    using returnsD [OF intel915_serve_returns] by blast
  then show ?thesis by (simp add: intel915_driver_service_def prog_simps)
qed



text \<open>
  C12: the search for contiguous cursor memory leaks nothing. It always returns; with no run of
  four pages every page it took is given back, and with one exactly that run (page-aligned,
  physically consecutive) is kept and every other page it took is given back once.
\<close>

theorem cursor_pages_conserved:
  "\<exists>base w' new pages. allocate_cursor_pages e w = Done base w' \<and> io w' = new @ io w \<and>
    pages_allocated new = pages \<and> length pages \<le> 64 \<and>
    (if base = 0 then pages_freed new = pages
     else \<exists>k. take 4 (drop k pages) = [base, base + 4096, base + 8192, base + 12288] \<and> base AND 4095 = 0 \<and>
       pages_freed new = take k pages @ drop (k + 4) pages)"
proof -
  obtain pages found v new1 where l: "cursor_alloc_loop 64 [] e w = Done (pages, found) v"
    "io v = new1 @ io w" "pages_allocated new1 = pages" "pages_freed new1 = []" "length pages \<le> 64"
    "found = 0xFFFFFFFF \<or> found = intel915_find_cursor_pages pages"
    using cursor_alloc_loop_run [of "[]" 64 e w] by auto
  define base where "base = (if found \<noteq> 0xFFFFFFFF then pages ! unat found else 0)"
  let ?P = "\<lambda>i. base = 0 \<or> of_nat i < found \<or> of_nat i \<ge> found + 4"
  obtain w' new2 where f: "for_each 0 (length pages)
      (\<lambda>i. cond (?P i) (andthen (kernel_call Pmm_free_page [pages ! i]) (ret ()))) e v = Done () w'"
    "io w' = new2 @ io v" "pages_allocated new2 = []"
    "pages_freed new2 = map ((!) pages) (filter ?P [0..<length pages])"
    using free_loop_run [of 0 "length pages" ?P pages e v] by auto
  have run: "allocate_cursor_pages e w = Done base w'"
    using l(1) f(1) by (simp add: allocate_cursor_pages_def run_bind run_andthen run_ret base_def Let_def)
  have log: "io w' = (new2 @ new1) @ io w" "pages_allocated (new2 @ new1) = pages"
    "pages_freed (new2 @ new1) = pages_freed new2" using l f(2,3) by simp_all
  have "if base = 0 then pages_freed new2 = pages
     else \<exists>k. take 4 (drop k pages) = [base, base + 4096, base + 8192, base + 12288] \<and> base AND 4095 = 0 \<and>
       pages_freed new2 = take k pages @ drop (k + 4) pages"
  proof (cases "base = 0")
    case True
    then show ?thesis using f(4) by (simp add: map_nth)
  next
    case False
    then have found: "found \<noteq> 0xFFFFFFFF" by (auto simp: base_def)
    let ?k = "unat found"
    have k: "?k + 3 < length pages" "cursor_run_at pages ?k"
      using found l(5,6) find_cursor_pages_run [of pages] by auto
    have four: "take 4 (drop ?k pages) = [pages ! ?k, pages ! (?k + 1), pages ! (?k + 2), pages ! (?k + 3)]"
      using k(1) by (auto simp: list_eq_iff_nth_eq numeral_eq_Suc less_Suc_eq)
    have "pages_freed new2 = take ?k pages @ drop (?k + 4) pages"
      using f(4) kept_pages [of ?k pages found] k(1) l(5) False by simp
    then show ?thesis
      using False four k(2) found by (intro if_not_P [THEN iffD2] exI [of _ ?k]) (simp_all add: cursor_run_at_def base_def Let_def)
  qed
  then show ?thesis using run log l(5) by metis
qed

end
