(* ===== verification/Vga.thy ===== *)
theory Vga
  imports Intel915_Driver
begin

text \<open>
  The text mode of the VGA, \<^verbatim>\<open>Drivers/Vga/VgaTextMode.c\<close>: the copy of the firmware's font taken at
  boot, and the register sequence that brings 80x25 text back for a panic, whatever state the display
  was left in. The sequence is checked against a model of the register file of a VGA.
\<close>

section \<open>The code\<close>

abbreviation (input) VGA_FONT_MEMORY :: u32 where "VGA_FONT_MEMORY \<equiv> 0x80A00000"
abbreviation (input) VGA_FONT_CAPTURED :: u32 where "VGA_FONT_CAPTURED \<equiv> 0x56474101"

record vga_vars =
  vg_i915 :: i915_kernel
  vg_startup_font :: "u8 list"
  vg_startup_font_state :: u32

definition mode3_sequencer :: "u8 list" where
  "mode3_sequencer = [0x00, 0x03, 0x00, 0x02]"

definition mode3_crtc :: "u8 list" where
  "mode3_crtc = [0x5F, 0x4F, 0x50, 0x82, 0x55, 0x81, 0xBF, 0x1F, 0x00, 0x4F, 0x0D, 0x0E, 0x00, 0x00, 0x00, 0x00,
     0x9C, 0x8E, 0x8F, 0x28, 0x1F, 0x96, 0xB9, 0xA3, 0xFF]"

definition mode3_graphics :: "u8 list" where
  "mode3_graphics = [0x00, 0x00, 0x00, 0x00, 0x00, 0x10, 0x0E, 0x0F, 0xFF]"

definition mode3_attribute :: "u8 list" where
  "mode3_attribute = [0x00, 0x01, 0x02, 0x03, 0x04, 0x05, 0x14, 0x07, 0x38, 0x39, 0x3A, 0x3B, 0x3C, 0x3D, 0x3E, 0x3F,
     0x0C, 0x00, 0x0F, 0x08]"

definition mode3_palette :: "u8 list list" where
  "mode3_palette = [[0x00, 0x00, 0x00], [0x00, 0x00, 0x2A], [0x00, 0x2A, 0x00], [0x00, 0x2A, 0x2A],
     [0x2A, 0x00, 0x00], [0x2A, 0x00, 0x2A], [0x2A, 0x15, 0x00], [0x2A, 0x2A, 0x2A],
     [0x15, 0x15, 0x15], [0x15, 0x15, 0x3F], [0x15, 0x3F, 0x15], [0x15, 0x3F, 0x3F],
     [0x3F, 0x15, 0x15], [0x3F, 0x15, 0x3F], [0x3F, 0x3F, 0x15], [0x3F, 0x3F, 0x3F]]"

definition vga_write_indexed :: "u16 \<Rightarrow> u16 \<Rightarrow> u8 \<Rightarrow> u8 \<Rightarrow> ('s, unit) prog" where
  "vga_write_indexed index_port data_port index v = andthen (out8 index_port index) (out8 data_port v)"

abbreviation (input) sequencer :: "u8 \<Rightarrow> u8 \<Rightarrow> ('s, unit) prog" where
  "sequencer \<equiv> vga_write_indexed 0x3C4 0x3C5"

abbreviation (input) graphics :: "u8 \<Rightarrow> u8 \<Rightarrow> ('s, unit) prog" where
  "graphics \<equiv> vga_write_indexed 0x3CE 0x3CF"

abbreviation (input) crtc :: "u8 \<Rightarrow> u8 \<Rightarrow> ('s, unit) prog" where
  "crtc \<equiv> vga_write_indexed 0x3D4 0x3D5"

definition vga_begin_font_access :: "('s, unit) prog" where
  "vga_begin_font_access = andthen (sequencer 0x00 0x01)
    (andthen (sequencer 0x02 0x04)
    (andthen (sequencer 0x04 0x07)
    (andthen (sequencer 0x00 0x03)
    (andthen (graphics 0x04 0x02)
    (andthen (graphics 0x05 0x00)
    (graphics 0x06 0x04))))))"

definition vga_end_font_access :: "('s, unit) prog" where
  "vga_end_font_access = andthen (sequencer 0x00 0x01)
    (andthen (sequencer 0x02 0x03)
    (andthen (sequencer 0x04 0x03)
    (andthen (sequencer 0x00 0x03)
    (andthen (graphics 0x06 0x0E)
    (andthen (graphics 0x04 0x00)
    (graphics 0x05 0x10))))))"

definition capture_row :: "nat \<Rightarrow> nat \<Rightarrow> (vga_vars, unit) prog" where
  "capture_row glyph row = bind (load8 (VGA_FONT_MEMORY + of_nat (glyph * 32 + row))) (\<lambda>b.
     modify (\<lambda>s. s\<lparr>vg_startup_font := (vg_startup_font s)[glyph * 16 + row := b]\<rparr>))"

definition vga_capture_startup_font :: "(vga_vars, unit) prog" where
  "vga_capture_startup_font = andthen (vga_begin_font_access)
    (andthen (for_each 0 256 (\<lambda>glyph. for_each 0 16 (capture_row glyph)))
    (andthen (vga_end_font_access)
    (modify (\<lambda>s. s\<lparr>vg_startup_font_state := VGA_FONT_CAPTURED\<rparr>))))"

definition restore_row :: "u8 list \<Rightarrow> nat \<Rightarrow> nat \<Rightarrow> (vga_vars, unit) prog" where
  "restore_row font glyph row = store8 (VGA_FONT_MEMORY + of_nat (glyph * 32 + row)) (font ! (glyph * 16 + row))"

definition vga_restore_startup_font :: "(vga_vars, unit) prog" where
  "vga_restore_startup_font = bind (gets id) (\<lambda>s.
     if vg_startup_font_state s \<noteq> VGA_FONT_CAPTURED then ret ()
     else andthen (vga_begin_font_access)
       (andthen (for_each 0 256 (\<lambda>glyph. for_each 0 16 (restore_row (vg_startup_font s) glyph)))
       (vga_end_font_access)))"

definition vga_restore_palette :: "('s, unit) prog" where
  "vga_restore_palette = andthen (out8 0x3C6 0xFF)
    (andthen (out8 0x3C8 0x00)
    (for_each 0 16 (\<lambda>color. for_each 0 3 (\<lambda>component. out8 0x3C9 (mode3_palette ! color ! component)))))"

definition attribute :: "u8 \<Rightarrow> u8 \<Rightarrow> ('s, unit) prog" where
  "attribute index v = andthen (in8 0x3DA)
    (andthen (out8 0x3C0 index)
    (out8 0x3C0 v))"

text \<open>Lines 161 to 194.\<close>

definition mode3_registers :: "('s, unit) prog" where
  "mode3_registers = andthen (out8 0x3C2 0x67)
    (andthen (sequencer 0x00 0x01)
    (andthen (for_each 0 4 (\<lambda>i. sequencer (of_nat i + 1) (mode3_sequencer ! i)))
    (andthen (sequencer 0x00 0x03)
    (andthen (crtc 0x11 0x00)
    (andthen (for_each 0 25 (\<lambda>i. crtc (of_nat i) (mode3_crtc ! i)))
    (andthen (for_each 0 9 (\<lambda>i. graphics (of_nat i) (mode3_graphics ! i)))
    (andthen (for_each 0 20 (\<lambda>i. attribute (of_nat i) (mode3_attribute ! i)))
    (attribute 0x14 0x00))))))))"

definition in_i915 :: "(i915_kernel, 'a) prog \<Rightarrow> (vga_vars, 'a) prog" where
  "in_i915 = zoom vg_i915 (\<lambda>v s. s\<lparr>vg_i915 := v\<rparr>)"

definition vga_restore_text_mode :: "(vga_vars, unit) prog" where
  "vga_restore_text_mode = andthen (in_i915 intel915_restore_text_display)
    (andthen (mode3_registers)
    (andthen (vga_restore_palette)
    (andthen (vga_restore_startup_font)
    (andthen (crtc 0x0A 0x20)
    (andthen (in8 0x3DA)
    (out8 0x3C0 0x20))))))"

section \<open>The register file of a VGA\<close>

text \<open>
  What port accesses do to the registers: index and data ports, the write protection of the first
  eight CRTC registers by bit 7 of register 11h, the attribute controller's flip-flop, which a read of
  3DAh resets, and the palette's running index. Other accesses do not concern it.
\<close>

record vga_device =
  vd_misc :: u8
  vd_sequencer_index :: u8
  vd_sequencer :: "u8 \<Rightarrow> u8"
  vd_crtc_index :: u8
  vd_crtc :: "u8 \<Rightarrow> u8"
  vd_graphics_index :: u8
  vd_graphics :: "u8 \<Rightarrow> u8"
  vd_data_next :: bool
  vd_attribute_index :: u8
  vd_attribute :: "u8 \<Rightarrow> u8"
  vd_dac_mask :: u8
  vd_dac_index :: nat
  vd_dac :: "nat \<Rightarrow> u8"

definition crtc_write :: "u8 \<Rightarrow> u8 \<Rightarrow> (u8 \<Rightarrow> u8) \<Rightarrow> (u8 \<Rightarrow> u8)" where
  "crtc_write i v regs = (if i < 8 \<and> regs 0x11 AND 0x80 \<noteq> 0 then regs else regs(i := v))"

definition port_write :: "u16 \<Rightarrow> u8 \<Rightarrow> vga_device \<Rightarrow> vga_device" where
  "port_write p v d =
     (if p = 0x3C2 then d\<lparr>vd_misc := v\<rparr>
      else if p = 0x3C4 then d\<lparr>vd_sequencer_index := v\<rparr>
      else if p = 0x3C5 then d\<lparr>vd_sequencer := (vd_sequencer d)(vd_sequencer_index d := v)\<rparr>
      else if p = 0x3D4 then d\<lparr>vd_crtc_index := v\<rparr>
      else if p = 0x3D5 then d\<lparr>vd_crtc := crtc_write (vd_crtc_index d) v (vd_crtc d)\<rparr>
      else if p = 0x3CE then d\<lparr>vd_graphics_index := v\<rparr>
      else if p = 0x3CF then d\<lparr>vd_graphics := (vd_graphics d)(vd_graphics_index d := v)\<rparr>
      else if p = 0x3C0 then
        (if vd_data_next d then d\<lparr>vd_data_next := False, vd_attribute := (vd_attribute d)(vd_attribute_index d AND 0x1F := v)\<rparr>
         else d\<lparr>vd_data_next := True, vd_attribute_index := v\<rparr>)
      else if p = 0x3C6 then d\<lparr>vd_dac_mask := v\<rparr>
      else if p = 0x3C8 then d\<lparr>vd_dac_index := 3 * unat v\<rparr>
      else if p = 0x3C9 then d\<lparr>vd_dac := (vd_dac d)(vd_dac_index d := v), vd_dac_index := (vd_dac_index d + 1) mod 768\<rparr>
      else d)"

fun vga_step :: "io_event \<Rightarrow> vga_device \<Rightarrow> vga_device" where
  "vga_step (Out8 p v) d = port_write p v d"
| "vga_step (In8 p v) d = (if p = 0x3DA then d\<lparr>vd_data_next := False\<rparr> else d)"
| "vga_step ev d = d"

text \<open>The device after a history, from any first state; histories are newest first.\<close>

definition vga_after :: "vga_device \<Rightarrow> 's world \<Rightarrow> vga_device" where
  "vga_after d w = foldr vga_step (io w) d"

section \<open>What the sequence leaves in the registers\<close>

text \<open>\<^verbatim>\<open>drives m f\<close>: every run of \<open>m\<close> returns and takes the device from \<open>d\<close> to \<open>f d\<close>.\<close>

definition drives :: "('s, 'a) prog \<Rightarrow> (vga_device \<Rightarrow> vga_device) \<Rightarrow> bool" where
  "drives m f \<longleftrightarrow> (\<forall>e w d. \<exists>x w'. m e w = Done x w' \<and> vga_after d w' = f (vga_after d w))"

lemma drivesD:
  assumes "drives m f" "m e w = Done x w'"
  shows "vga_after d w' = f (vga_after d w)"
proof -
  obtain y v where "m e w = Done y v" "vga_after d v = f (vga_after d w)" using assms(1) unfolding drives_def by blast
  then show ?thesis using assms(2) by simp
qed

lemma drives_bind: "drives m f \<Longrightarrow> (\<And>x. drives (n x) g) \<Longrightarrow> drives (bind m n) (\<lambda>d. g (f d))"
  unfolding drives_def
proof (intro allI)
  fix e w d
  assume "\<forall>e w d. \<exists>x w'. m e w = Done x w' \<and> vga_after d w' = f (vga_after d w)"
  then obtain x v where m: "m e w = Done x v" "vga_after d v = f (vga_after d w)" by blast
  assume "\<And>x. \<forall>e w d. \<exists>y w'. n x e w = Done y w' \<and> vga_after d w' = g (vga_after d w)"
  then obtain y w' where "n x e v = Done y w'" "vga_after d w' = g (vga_after d v)" by blast
  then show "\<exists>y w'. bind m n e w = Done y w' \<and> vga_after d w' = g (f (vga_after d w))"
    using m by (simp add: run_bind)
qed

lemma drives_andthen: "drives m f \<Longrightarrow> drives n g \<Longrightarrow> drives (andthen m n) (\<lambda>d. g (f d))"
  unfolding andthen_def by (rule drives_bind)

lemma drives_for_each: "(\<And>i. drives (body i) (f i)) \<Longrightarrow> drives (for_each i n body) (fold f [i..<i + n])"
proof (induction n arbitrary: i)
  case 0
  then show ?case by (simp add: drives_def run_ret)
next
  case (Suc n)
  have "drives (for_each i (Suc n) body) (\<lambda>d. fold f [Suc i..<Suc i + n] (f i d))"
    unfolding for_each.simps by (intro drives_andthen Suc)
  moreover have "(\<lambda>d. fold f [Suc i..<Suc i + n] (f i d)) = fold f [i..<i + Suc n]"
    by (rule ext) (simp add: upt_conv_Cons del: upt_Suc)
  ultimately show ?case by (simp only:)
qed

lemma drives_prims: "drives (out8 p v) (port_write p v)"
  "drives (in8 p) (\<lambda>d. if p = 0x3DA then d\<lparr>vd_data_next := False\<rparr> else d)"
  "drives (mmio_read a) (\<lambda>d. d)" "drives (mmio_write a v32) (\<lambda>d. d)" "drives (modify g) (\<lambda>d. d)" "drives (store8 a v) (\<lambda>d. d)"
  "drives (ret x) (\<lambda>d. d)" "drives (load8 a) (\<lambda>d. d)" "drives (gets h) (\<lambda>d. d)"
  by (simp_all add: drives_def prog_simps vga_after_def)

lemma drives_indexed: "drives (vga_write_indexed p q i v) (\<lambda>d. port_write q v (port_write p i d))"
  unfolding vga_write_indexed_def by (intro drives_andthen drives_prims)

lemma drives_attribute: "drives (attribute i v) (\<lambda>d. port_write 0x3C0 v (port_write 0x3C0 i (d\<lparr>vd_data_next := False\<rparr>)))"
  unfolding attribute_def using drives_prims(2) [of "0x3DA"] by (intro drives_andthen drives_prims) simp

text \<open>The whole sequence as a function on the device.\<close>

definition indexed :: "u16 \<Rightarrow> u8 \<Rightarrow> u8 \<Rightarrow> vga_device \<Rightarrow> vga_device" where
  "indexed p i v = (\<lambda>d. port_write (p + 1) v (port_write p i d))"

definition attribute_write :: "u8 \<Rightarrow> u8 \<Rightarrow> vga_device \<Rightarrow> vga_device" where
  "attribute_write i v = (\<lambda>d. port_write 0x3C0 v (port_write 0x3C0 i (d\<lparr>vd_data_next := False\<rparr>)))"

definition mode3_effect :: "vga_device \<Rightarrow> vga_device" where
  "mode3_effect d = attribute_write 0x14 0
     (fold (\<lambda>i. attribute_write (of_nat i) (mode3_attribute ! i)) [0..<20]
     (fold (\<lambda>i. indexed 0x3CE (of_nat i) (mode3_graphics ! i)) [0..<9]
     (fold (\<lambda>i. indexed 0x3D4 (of_nat i) (mode3_crtc ! i)) [0..<25]
     (indexed 0x3D4 0x11 0
     (indexed 0x3C4 0 3
     (fold (\<lambda>i. indexed 0x3C4 (of_nat i + 1) (mode3_sequencer ! i)) [0..<4]
     (indexed 0x3C4 0 1 (port_write 0x3C2 0x67 d))))))))"

definition palette_effect :: "vga_device \<Rightarrow> vga_device" where
  "palette_effect d = fold (\<lambda>color. fold (\<lambda>component. port_write 0x3C9 (mode3_palette ! color ! component)) [0..<3]) [0..<16]
     (port_write 0x3C8 0 (port_write 0x3C6 0xFF d))"

definition font_effect :: "vga_device \<Rightarrow> vga_device" where
  "font_effect d = indexed 0x3CE 5 0x10 (indexed 0x3CE 4 0 (indexed 0x3CE 6 0x0E
     (indexed 0x3C4 0 3 (indexed 0x3C4 4 3 (indexed 0x3C4 2 3 (indexed 0x3C4 0 1
     (indexed 0x3CE 6 4 (indexed 0x3CE 5 0 (indexed 0x3CE 4 2
     (indexed 0x3C4 0 3 (indexed 0x3C4 4 7 (indexed 0x3C4 2 4 (indexed 0x3C4 0 1 d)))))))))))))"

lemma drives_eq: "drives m f \<Longrightarrow> (\<And>d. f d = g d) \<Longrightarrow> drives m g"
  by (simp add: drives_def)

lemma drives_loop: "(\<And>i. drives (body i) (f i)) \<Longrightarrow> drives (for_each 0 n body) (fold f [0..<n])"
  using drives_for_each [of body f 0 n] by simp

lemmas drives_steps = drives_prims drives_andthen drives_loop drives_indexed drives_attribute

lemma drives_mode3: "drives mode3_registers mode3_effect"
  unfolding mode3_registers_def
  by (rule drives_eq, (rule drives_steps)+) (simp add: mode3_effect_def indexed_def attribute_write_def)

lemma drives_palette: "drives vga_restore_palette palette_effect"
  unfolding vga_restore_palette_def by (rule drives_eq, (rule drives_steps)+) (simp add: palette_effect_def)

lemma drives_font_access: "drives vga_begin_font_access (\<lambda>d. indexed 0x3CE 6 4 (indexed 0x3CE 5 0 (indexed 0x3CE 4 2
     (indexed 0x3C4 0 3 (indexed 0x3C4 4 7 (indexed 0x3C4 2 4 (indexed 0x3C4 0 1 d)))))))"
  "drives vga_end_font_access (\<lambda>d. indexed 0x3CE 5 0x10 (indexed 0x3CE 4 0 (indexed 0x3CE 6 0x0E
     (indexed 0x3C4 0 3 (indexed 0x3C4 4 3 (indexed 0x3C4 2 3 (indexed 0x3C4 0 1 d)))))))"
  unfolding vga_begin_font_access_def vga_end_font_access_def
  by (rule drives_eq, (rule drives_steps)+, simp add: indexed_def)+

lemma mode3_result:
  "vd_misc (mode3_effect d) = 0x67" "map (\<lambda>i. vd_sequencer (mode3_effect d) (of_nat i)) [0..<5] = 3 # mode3_sequencer"
  "map (\<lambda>i. vd_crtc (mode3_effect d) (of_nat i)) [0..<25] = mode3_crtc"
  "map (\<lambda>i. vd_graphics (mode3_effect d) (of_nat i)) [0..<9] = mode3_graphics"
  "map (\<lambda>i. vd_attribute (mode3_effect d) (of_nat i)) [0..<21] = mode3_attribute @ [0]"
  unfolding mode3_effect_def
  by (simp_all add: upt_rec port_write_def crtc_write_def indexed_def attribute_write_def
    mode3_crtc_def mode3_graphics_def mode3_sequencer_def mode3_attribute_def)

section \<open>The font\<close>

abbreviation (input) font_slot :: "nat \<Rightarrow> nat \<Rightarrow> u32" where
  "font_slot glyph row \<equiv> VGA_FONT_MEMORY + of_nat (glyph * 32 + row)"

text \<open>A nested loop of writes, and what it leaves at one of its addresses.\<close>

definition write_all :: "('i \<Rightarrow> u32) \<Rightarrow> ('i \<Rightarrow> u8) \<Rightarrow> 'i list \<Rightarrow> (u32 \<Rightarrow> u8) \<Rightarrow> (u32 \<Rightarrow> u8)" where
  "write_all f g xs m = fold (\<lambda>x m. m(f x := g x)) xs m"

lemma write_all_other: "a \<notin> f ` set xs \<Longrightarrow> write_all f g xs m a = m a"
  by (induction xs arbitrary: m) (simp_all add: write_all_def)

lemma write_all_at: "inj_on f (set xs) \<Longrightarrow> x \<in> set xs \<Longrightarrow> write_all f g xs m (f x) = g x"
proof (induction xs arbitrary: m)
  case (Cons y ys)
  show ?case
  proof (cases "x \<in> set ys")
    case True
    then show ?thesis using Cons by (simp add: write_all_def)
  next
    case False
    then have "f x \<notin> f ` set ys" "x = y" using Cons.prems by (auto simp: inj_on_def)
    then show ?thesis using write_all_other [of "f x" f ys g] by (simp add: write_all_def)
  qed
qed simp

lemma for_each_store: "for_each i n (\<lambda>j. store8 (f j) (g j)) e w = Done () (w\<lparr>mem := write_all f g [i..<i + n] (mem w)\<rparr>)"
proof (induction n arbitrary: i w)
  case (Suc n)
  then show ?case by (simp add: prog_simps write_all_def upt_conv_Cons del: upt_Suc)
qed (simp add: prog_simps write_all_def)

abbreviation (input) cells :: "(nat \<times> nat) list" where
  "cells \<equiv> List.product [0..<256] [0..<16]"

lemma cells_in: "(glyph, row) \<in> set cells \<longleftrightarrow> glyph < 256 \<and> row < 16"
  by auto

lemma restore_rows:
  "for_each i n (\<lambda>glyph. for_each 0 16 (restore_row font glyph)) e w =
    Done () (w\<lparr>mem := write_all (\<lambda>(g, r). font_slot g r) (\<lambda>(g, r). font ! (g * 16 + r)) (List.product [i..<i + n] [0..<16]) (mem w)\<rparr>)"
proof (induction n arbitrary: i w)
  case (Suc n)
  have "for_each 0 16 (restore_row font i) e w = Done () (w\<lparr>mem := write_all (font_slot i) (\<lambda>r. font ! (i * 16 + r)) [0..<16] (mem w)\<rparr>)"
    using for_each_store [of 0 16 "font_slot i" "\<lambda>r. font ! (i * 16 + r)"] by (simp add: restore_row_def [abs_def])
  then show ?case
    using Suc by (simp add: prog_simps write_all_def upt_conv_Cons fold_map comp_def del: upt_Suc)
qed (simp add: prog_simps write_all_def)

lemma slot_inj: "inj_on (\<lambda>(g, r). font_slot g r) (set cells)"
proof (rule inj_onI, clarsimp simp del: of_nat_add of_nat_mult)
  fix g r g' r' :: nat
  assume b: "g < 256" "r < 16" "g' < 256" "r' < 16" and "(of_nat (g * 32 + r) :: u32) = of_nat (g' * 32 + r')"
  then have "g * 32 + r = g' * 32 + r'" by (simp add: word_unat_eq_iff unat_of_nat del: of_nat_add of_nat_mult)
  moreover have "(g * 32 + r) div 32 = g" "(g' * 32 + r') div 32 = g'" using b by simp_all
  ultimately show "g = g' \<and> r = r'" by auto
qed

text \<open>The list that the capture loop fills.\<close>

definition update_all :: "('i \<Rightarrow> nat) \<Rightarrow> ('i \<Rightarrow> u8) \<Rightarrow> 'i list \<Rightarrow> u8 list \<Rightarrow> u8 list" where
  "update_all f g xs l = fold (\<lambda>x l. l[f x := g x]) xs l"

lemma update_all_length [simp]: "length (update_all f g xs l) = length l"
  by (induction xs arbitrary: l) (simp_all add: update_all_def)

lemma update_all_other: "k \<notin> f ` set xs \<Longrightarrow> update_all f g xs l ! k = l ! k"
  by (induction xs arbitrary: l) (simp_all add: update_all_def)

lemma update_all_at: "inj_on f (set xs) \<Longrightarrow> x \<in> set xs \<Longrightarrow> f x < length l \<Longrightarrow> update_all f g xs l ! f x = g x"
proof (induction xs arbitrary: l)
  case (Cons y ys)
  show ?case
  proof (cases "x \<in> set ys")
    case True
    then show ?thesis using Cons by (simp add: update_all_def)
  next
    case False
    then have "f x \<notin> f ` set ys" "x = y" using Cons.prems by (auto simp: inj_on_def)
    then show ?thesis using update_all_other [of "f x" f ys g] Cons.prems by (simp add: update_all_def)
  qed
qed simp

lemma capture_row_loop:
  "for_each i n (capture_row glyph) e w = Done () (w\<lparr>vars := (vars w)\<lparr>vg_startup_font :=
    update_all (\<lambda>r. glyph * 16 + r) (\<lambda>r. mem w (font_slot glyph r)) [i..<i + n] (vg_startup_font (vars w))\<rparr>\<rparr>)"
proof (induction n arbitrary: i w)
  case (Suc n)
  then show ?case by (simp add: prog_simps capture_row_def update_all_def upt_conv_Cons del: upt_Suc)
qed (simp add: prog_simps update_all_def)

lemma capture_rows:
  "for_each i n (\<lambda>glyph. for_each 0 16 (capture_row glyph)) e w = Done () (w\<lparr>vars := (vars w)\<lparr>vg_startup_font :=
    update_all (\<lambda>(g, r). g * 16 + r) (\<lambda>(g, r). mem w (font_slot g r)) (List.product [i..<i + n] [0..<16]) (vg_startup_font (vars w))\<rparr>\<rparr>)"
proof (induction n arbitrary: i w)
  case (Suc n)
  then show ?case
    by (simp add: prog_simps capture_row_loop update_all_def upt_conv_Cons fold_map comp_def del: upt_Suc)
qed (simp add: prog_simps update_all_def)

section \<open>The whole sequence\<close>

text \<open>\<^verbatim>\<open>speaks m\<close>: every run of \<open>m\<close> returns and changes nothing but the history.\<close>

definition speaks :: "('s, 'a) prog \<Rightarrow> bool" where
  "speaks m \<longleftrightarrow> (\<forall>e w. \<exists>x h. m e w = Done x (w\<lparr>io := h\<rparr>))"

lemma speaks_prims: "speaks (out8 p v)" "speaks (in8 p)" "speaks (mmio_read a)" "speaks (mmio_write a v32)" "speaks (ret x)"
proof -
  have "w = w\<lparr>io := io w\<rparr>" for w :: "'s world" by simp
  then show "speaks (ret x)" unfolding speaks_def run_ret by (intro allI exI) (rule arg_cong)
qed (force simp: speaks_def prog_simps)+

lemma speaks_bind: "speaks m \<Longrightarrow> (\<And>x. speaks (n x)) \<Longrightarrow> speaks (bind m n)"
  unfolding speaks_def
proof (intro allI)
  fix e w
  assume "\<forall>e w. \<exists>x h. m e w = Done x (w\<lparr>io := h\<rparr>)"
  then obtain x h where m: "m e w = Done x (w\<lparr>io := h\<rparr>)" by blast
  assume "\<And>x. \<forall>e w. \<exists>y h. n x e w = Done y (w\<lparr>io := h\<rparr>)"
  then obtain y k where "n x e (w\<lparr>io := h\<rparr>) = Done y (w\<lparr>io := h\<rparr>\<lparr>io := k\<rparr>)" by blast
  then show "\<exists>y h. bind m n e w = Done y (w\<lparr>io := h\<rparr>)" using m by (auto simp: run_bind)
qed

lemma speaks_andthen: "speaks m \<Longrightarrow> speaks n \<Longrightarrow> speaks (andthen m n)"
  unfolding andthen_def by (rule speaks_bind)

lemma speaks_for_each: "(\<And>j. speaks (body j)) \<Longrightarrow> speaks (for_each i n body)"
  by (induction n arbitrary: i) (simp_all add: speaks_prims speaks_andthen)

lemmas speaks_steps = speaks_prims speaks_andthen speaks_bind speaks_for_each

lemma speaks_registers: "speaks mode3_registers" "speaks vga_restore_palette" "speaks vga_begin_font_access"
  "speaks vga_end_font_access" "speaks (vga_write_indexed p q i v)"
proof -
  show "speaks (vga_write_indexed p q i v)" for p q i v
    unfolding vga_write_indexed_def by (intro speaks_steps)
  then show "speaks mode3_registers" "speaks vga_restore_palette" "speaks vga_begin_font_access" "speaks vga_end_font_access"
    unfolding mode3_registers_def vga_restore_palette_def attribute_def vga_begin_font_access_def vga_end_font_access_def
    by (intro speaks_steps; assumption?)+
qed

lemma restore_font_run:
  "\<exists>w'. vga_restore_startup_font e w = Done () w' \<and> cpu_regs w' = cpu_regs w \<and> vars w' = vars w \<and>
    mem w' = (if vg_startup_font_state (vars w) = VGA_FONT_CAPTURED
      then write_all (\<lambda>(g, r). font_slot g r) (\<lambda>(g, r). vg_startup_font (vars w) ! (g * 16 + r)) cells (mem w) else mem w) \<and>
    vga_after d w' = (if vg_startup_font_state (vars w) = VGA_FONT_CAPTURED then font_effect (vga_after d w) else vga_after d w)"
proof (cases "vg_startup_font_state (vars w) = VGA_FONT_CAPTURED")
  case True
  obtain h x where a: "vga_begin_font_access e w = Done x (w\<lparr>io := h\<rparr>)"
    using speaks_registers(3) unfolding speaks_def by blast
  let ?w = "w\<lparr>io := h, mem := write_all (\<lambda>(g, r). font_slot g r) (\<lambda>(g, r). vg_startup_font (vars w) ! (g * 16 + r)) cells (mem w)\<rparr>"
  obtain k y where b: "vga_end_font_access e ?w = Done y (?w\<lparr>io := k\<rparr>)"
    using speaks_registers(4) unfolding speaks_def by blast
  have "vga_restore_startup_font e w = Done () (?w\<lparr>io := k\<rparr>)"
    using True a b by (simp add: vga_restore_startup_font_def run_bind run_gets run_andthen restore_rows)
  moreover have "vga_after d (w\<lparr>io := h\<rparr>) = indexed 0x3CE 6 4 (indexed 0x3CE 5 0 (indexed 0x3CE 4 2
     (indexed 0x3C4 0 3 (indexed 0x3C4 4 7 (indexed 0x3C4 2 4 (indexed 0x3C4 0 1 (vga_after d w)))))))"
    by (rule drivesD [OF drives_font_access(1) a])
  moreover have "vga_after d (?w\<lparr>io := k\<rparr>) = indexed 0x3CE 5 0x10 (indexed 0x3CE 4 0 (indexed 0x3CE 6 0x0E
     (indexed 0x3C4 0 3 (indexed 0x3C4 4 3 (indexed 0x3C4 2 3 (indexed 0x3C4 0 1 (vga_after d ?w)))))))"
    by (rule drivesD [OF drives_font_access(2) b])
  moreover have "vga_after d ?w = vga_after d (w\<lparr>io := h\<rparr>)" by (simp add: vga_after_def)
  ultimately show ?thesis using True by (simp add: font_effect_def)
qed (simp add: vga_restore_startup_font_def prog_simps)

lemma restore_display_run:
  "\<exists>w'. in_i915 intel915_restore_text_display e w = Done () w' \<and> mem w' = mem w \<and> cpu_regs w' = cpu_regs w \<and>
    vg_startup_font (vars w') = vg_startup_font (vars w) \<and> vg_startup_font_state (vars w') = vg_startup_font_state (vars w) \<and>
    vga_after d w' = vga_after d w"
  by (simp add: in_i915_def zoom_def Let_def intel915_restore_text_display_def clear_enable_def prog_simps vga_after_def numeral_2_eq_2)

lemma restore_text_run:
  "\<exists>w'. vga_restore_text_mode e w = Done () w' \<and> cpu_regs w' = cpu_regs w \<and>
    vg_startup_font (vars w') = vg_startup_font (vars w) \<and> vg_startup_font_state (vars w') = vg_startup_font_state (vars w) \<and>
    mem w' = (if vg_startup_font_state (vars w) = VGA_FONT_CAPTURED
      then write_all (\<lambda>(g, r). font_slot g r) (\<lambda>(g, r). vg_startup_font (vars w) ! (g * 16 + r)) cells (mem w) else mem w) \<and>
    vga_after d w' = port_write 0x3C0 0x20 ((indexed 0x3D4 0x0A 0x20
      ((if vg_startup_font_state (vars w) = VGA_FONT_CAPTURED then font_effect else id)
        (palette_effect (mode3_effect (vga_after d w)))))\<lparr>vd_data_next := False\<rparr>)"
proof -
  obtain v1 where v1: "in_i915 intel915_restore_text_display e w = Done () v1" "mem v1 = mem w" "cpu_regs v1 = cpu_regs w"
    "vg_startup_font (vars v1) = vg_startup_font (vars w)" "vg_startup_font_state (vars v1) = vg_startup_font_state (vars w)"
    "vga_after d v1 = vga_after d w"
    using restore_display_run by blast
  obtain h2 x2 where v2: "mode3_registers e v1 = Done x2 (v1\<lparr>io := h2\<rparr>)" using speaks_registers(1) unfolding speaks_def by blast
  obtain h3 x3 where v3: "vga_restore_palette e (v1\<lparr>io := h2\<rparr>) = Done x3 (v1\<lparr>io := h2\<rparr>\<lparr>io := h3\<rparr>)"
    using speaks_registers(2) unfolding speaks_def by blast
  obtain v4 where v4: "vga_restore_startup_font e (v1\<lparr>io := h3\<rparr>) = Done () v4" "cpu_regs v4 = cpu_regs v1" "vars v4 = vars v1"
    "mem v4 = (if vg_startup_font_state (vars v1) = VGA_FONT_CAPTURED
      then write_all (\<lambda>(g, r). font_slot g r) (\<lambda>(g, r). vg_startup_font (vars v1) ! (g * 16 + r)) cells (mem v1) else mem v1)"
    "vga_after d v4 = (if vg_startup_font_state (vars v1) = VGA_FONT_CAPTURED then font_effect (vga_after d (v1\<lparr>io := h3\<rparr>)) else vga_after d (v1\<lparr>io := h3\<rparr>))"
    using restore_font_run [of e "v1\<lparr>io := h3\<rparr>" d] by auto
  obtain h5 x5 where v5: "vga_write_indexed 0x3D4 0x3D5 0x0A 0x20 e v4 = Done x5 (v4\<lparr>io := h5\<rparr>)"
    using speaks_registers(5) unfolding speaks_def by blast
  let ?w = "v4\<lparr>io := Out8 0x3C0 0x20 # In8 0x3DA (ucast (env_in e h5 (Req_in8 0x3DA))) # h5\<rparr>"
  have "vga_restore_text_mode e w = Done () ?w"
    using v1(1) v2 v3 v4(1) v5 by (simp add: vga_restore_text_mode_def run_andthen run_in8 out8_def run_emit)
  moreover have "vga_after d (v1\<lparr>io := h2\<rparr>) = mode3_effect (vga_after d v1)" by (rule drivesD [OF drives_mode3 v2])
  moreover have "vga_after d (v1\<lparr>io := h3\<rparr>) = palette_effect (vga_after d (v1\<lparr>io := h2\<rparr>))" using drivesD [OF drives_palette v3] by simp
  moreover have "vga_after d (v4\<lparr>io := h5\<rparr>) = indexed 0x3D4 0x0A 0x20 (vga_after d v4)"
    using drivesD [OF drives_indexed v5] by (simp add: indexed_def)
  moreover have "vga_after d ?w = port_write 0x3C0 0x20 ((vga_after d (v4\<lparr>io := h5\<rparr>))\<lparr>vd_data_next := False\<rparr>)"
    by (simp add: vga_after_def)
  ultimately show ?thesis using v1(2-) v4(2-) by (intro exI [of _ ?w]) simp
qed

lemma palette_result: "map (vd_dac (palette_effect d)) [0..<48] = concat mode3_palette"
  "palette_effect d = d\<lparr>vd_dac_mask := 0xFF, vd_dac_index := 48, vd_dac := vd_dac (palette_effect d)\<rparr>"
  unfolding palette_effect_def by (simp_all add: upt_rec port_write_def mode3_palette_def)

lemma font_effect_result:
  "font_effect d = d\<lparr>vd_sequencer_index := 0, vd_sequencer := (vd_sequencer d)(0 := 3, 2 := 3, 4 := 3), vd_graphics_index := 5,
     vd_graphics := (vd_graphics d)(4 := 0, 5 := 0x10, 6 := 0x0E)\<rparr>"
  by (simp add: font_effect_def indexed_def port_write_def fun_upd_twist)

text \<open>Text mode: mode 3 with the hardware cursor hidden, and the screen not blanked (bit 5 of the attribute index).\<close>

definition text_mode :: "u8 \<Rightarrow> vga_device \<Rightarrow> bool" where
  "text_mode memory_mode d \<longleftrightarrow> vd_misc d = 0x67 \<and>
     map (\<lambda>i. vd_sequencer d (of_nat i)) [0..<5] = [3, 0, 3, 0, memory_mode] \<and>
     map (\<lambda>i. vd_crtc d (of_nat i)) [0..<25] = mode3_crtc[0x0A := 0x20] \<and>
     map (\<lambda>i. vd_graphics d (of_nat i)) [0..<9] = mode3_graphics \<and>
     map (\<lambda>i. vd_attribute d (of_nat i)) [0..<21] = mode3_attribute @ [0] \<and>
     vd_attribute_index d = 0x20 \<and> vd_dac_mask d = 0xFF \<and> map (vd_dac d) [0..<48] = concat mode3_palette"

lemma final_effect_text_mode:
  "text_mode (if captured then 3 else 2) (port_write 0x3C0 0x20 ((indexed 0x3D4 0x0A 0x20
     ((if captured then font_effect else id) (palette_effect (mode3_effect d))))\<lparr>vd_data_next := False\<rparr>))"
proof -
  let ?m = "mode3_effect d"
  note m = mode3_result [of d]
  have "palette_effect ?m = ?m\<lparr>vd_dac_mask := 0xFF, vd_dac_index := 48, vd_dac := vd_dac (palette_effect ?m)\<rparr>"
    by (rule palette_result)
  then obtain f where p: "palette_effect ?m = ?m\<lparr>vd_dac_mask := 0xFF, vd_dac_index := 48, vd_dac := f\<rparr>"
    "map f [0..<48] = concat mode3_palette" using palette_result(1) [of ?m] by metis
  have seq: "vd_sequencer ?m 0 = 3" "vd_sequencer ?m 1 = 0" "vd_sequencer ?m 2 = 3" "vd_sequencer ?m 3 = 0" "vd_sequencer ?m 4 = 2"
    using m(2) by (simp_all add: upt_rec mode3_sequencer_def)
  show ?thesis
    using m p seq
    by (simp add: text_mode_def font_effect_result indexed_def port_write_def crtc_write_def upt_rec
      mode3_crtc_def mode3_graphics_def)
qed

lemma cell_inj: "inj_on (\<lambda>(g, r). g * 16 + r) (set cells)"
proof (rule inj_onI)
  fix x y
  assume "x \<in> set cells" "y \<in> set cells" and eq: "(case x of (g, r) \<Rightarrow> g * 16 + r) = (case y of (g, r) \<Rightarrow> g * 16 + r)"
  moreover obtain g r g' r' where "x = (g, r)" "y = (g', r')" by fastforce
  ultimately have xy: "x = (g, r)" "y = (g', r')" "r < 16" "r' < 16" "r + 16 * g = r' + 16 * g'" by (auto simp: cells_in)
  then have "(r + 16 * g) div 16 = (r' + 16 * g') div 16" "(r + 16 * g) mod 16 = (r' + 16 * g') mod 16" by (simp_all only:)
  then show "x = y" using xy(1-4) by simp
qed

lemma capture_run:
  assumes "length (vg_startup_font (vars w)) = 4096"
  shows "\<exists>w'. vga_capture_startup_font e w = Done () w' \<and> vg_startup_font_state (vars w') = VGA_FONT_CAPTURED \<and>
    map (\<lambda>(g, r). vg_startup_font (vars w') ! (g * 16 + r)) cells = map (\<lambda>(g, r). mem w (font_slot g r)) cells"
proof -
  obtain h x where a: "vga_begin_font_access e w = Done x (w\<lparr>io := h\<rparr>)"
    using speaks_registers(3) unfolding speaks_def by blast
  let ?font = "update_all (\<lambda>(g, r). g * 16 + r) (\<lambda>(g, r). mem w (font_slot g r)) cells (vg_startup_font (vars w))"
  let ?w = "w\<lparr>io := h, vars := (vars w)\<lparr>vg_startup_font := ?font\<rparr>\<rparr>"
  obtain k y where b: "vga_end_font_access e ?w = Done y (?w\<lparr>io := k\<rparr>)"
    using speaks_registers(4) unfolding speaks_def by blast
  have "?font ! (g * 16 + r) = mem w (font_slot g r)" if "g < 256" "r < 16" for g r
    using update_all_at [of "\<lambda>(g, r). g * 16 + r" cells "(g, r)" "vg_startup_font (vars w)" "\<lambda>(g, r). mem w (font_slot g r)"]
      that assms cell_inj by (simp add: cells_in del: set_product)
  then have "map (\<lambda>(g, r). ?font ! (g * 16 + r)) cells = map (\<lambda>(g, r). mem w (font_slot g r)) cells" by auto
  then show ?thesis
    using a b by (simp add: vga_capture_startup_font_def run_andthen capture_rows run_modify)
qed

section \<open>Property\<close>

definition vga_zero :: "i915_kernel \<Rightarrow> vga_vars" where
  "vga_zero k = \<lparr>vg_i915 = k, vg_startup_font = replicate 4096 0, vg_startup_font_state = 0x56474100\<rparr>"


end
