(* ===== verification/Panic.thy ===== *)
theory Panic
  imports Vga
begin

text \<open>
  The end of the line: \<^verbatim>\<open>Kernel/Panic.c\<close>, which takes the text screen back and prints a report, and the
  exception dispatcher of \<^verbatim>\<open>Arch/x86/Exceptions.c\<close> that decides between returning to the process
  handler and a panic. The endless loop around \<^verbatim>\<open>hlt\<close> is the outcome \<open>Panicked\<close>.
\<close>

section \<open>The code\<close>

abbreviation (input) VGA_TEXT_ADDRESS :: u32 where "VGA_TEXT_ADDRESS \<equiv> 0x80B80000"
abbreviation (input) PANIC_ATTRIBUTE :: u16 where "PANIC_ATTRIBUTE \<equiv> 0x4F"
abbreviation (input) EFLAGS_VM :: u32 where "EFLAGS_VM \<equiv> 0x20000"

record panic_vars =
  pn_vga :: vga_vars
  pn_cursor :: u32

record exception_frame =
  ef_edi :: u32
  ef_esi :: u32
  ef_ebp :: u32
  ef_saved_esp :: u32
  ef_ebx :: u32
  ef_edx :: u32
  ef_ecx :: u32
  ef_eax :: u32
  ef_gs :: u32
  ef_fs :: u32
  ef_es :: u32
  ef_ds :: u32
  ef_vector :: u32
  ef_error_code :: u32
  ef_eip :: u32
  ef_cs :: u32
  ef_eflags :: u32
  ef_user_esp :: u32
  ef_user_ss :: u32

definition panic_cell :: "char \<Rightarrow> u16" where
  "panic_cell c = of_char c OR push_bit 8 PANIC_ATTRIBUTE"

definition panic_put_character :: "char \<Rightarrow> (panic_vars, unit) prog" where
  "panic_put_character c = bind (gets pn_cursor) (\<lambda>cursor.
     if c = CHR 0x0A then modify (\<lambda>s. s\<lparr>pn_cursor := cursor + (80 - cursor mod 80)\<rparr>)
     else cond (cursor < 80 * 25)
       (andthen (store16 (VGA_TEXT_ADDRESS + 2 * cursor) (panic_cell c))
                (modify (\<lambda>s. s\<lparr>pn_cursor := cursor + 1\<rparr>))))"

text \<open>A C string is the list of its characters; a null pointer is \<open>None\<close>.\<close>

fun put_string :: "string \<Rightarrow> (panic_vars, unit) prog" where
  "put_string [] = ret ()"
| "put_string (c # cs) = andthen (panic_put_character c) (put_string cs)"

definition panic_put_text :: "string option \<Rightarrow> (panic_vars, unit) prog" where
  "panic_put_text text = (case text of None \<Rightarrow> ret () | Some s \<Rightarrow> put_string s)"

text \<open>The digits in the order of the loop of lines 48 to 52, the last digit first.\<close>

function decimal_digits :: "u32 \<Rightarrow> string" where
  "decimal_digits v = char_of (48 + unat (v mod 10)) # (if v div 10 = 0 then [] else decimal_digits (v div 10))"
  by pat_completeness auto
termination
proof (relation "measure unat", simp)
  fix v :: u32
  assume "v div 10 \<noteq> 0"
  then have "unat v \<noteq> 0" by (auto simp: unat_eq_0)
  then show "(v div 10, v) \<in> measure unat" by (simp add: unat_div)
qed

declare decimal_digits.simps [simp del]

definition panic_put_decimal :: "u32 \<Rightarrow> (panic_vars, unit) prog" where
  "panic_put_decimal v = put_string (rev (decimal_digits v))"

definition hex_digit :: "u32 \<Rightarrow> char" where
  "hex_digit v = ''0123456789ABCDEF'' ! unat (v AND 0x0F)"

text \<open>\<^verbatim>\<open>for (shift = 28; shift <= 28; shift -= 4)\<close>: the loop ends when the shift wraps below zero.\<close>

function hex_from :: "u32 \<Rightarrow> u32 \<Rightarrow> string" where
  "hex_from v shift = (if shift \<le> 28 then hex_digit (drop_bit (unat shift) v) # hex_from v (shift - 4) else [])"
  by pat_completeness auto
termination
proof (relation "measure (\<lambda>(v, shift). if shift \<le> 28 then Suc (unat shift) else 0)", simp)
  fix v shift :: u32
  assume "shift \<le> 28"
  then have "unat (shift - 4) < unat shift \<or> \<not> shift - 4 \<le> 28"
    by (cases "4 \<le> shift") (auto simp: word_le_nat_alt unat_sub_if' split: if_splits)
  then show "((v, shift - 4), v, shift) \<in> measure (\<lambda>(v, shift). if shift \<le> 28 then Suc (unat shift) else 0)"
    using \<open>shift \<le> 28\<close> by auto
qed

declare hex_from.simps [simp del]

definition panic_put_hex :: "u32 \<Rightarrow> (panic_vars, unit) prog" where
  "panic_put_hex v = andthen (put_string ''0x'') (put_string (hex_from v 28))"

definition panic_put_hex_byte :: "u8 \<Rightarrow> (panic_vars, unit) prog" where
  "panic_put_hex_byte b = andthen (panic_put_character (hex_digit (drop_bit 4 (ucast b)))) (panic_put_character (hex_digit (ucast b)))"

definition panic_range_is_mapped :: "u32 \<Rightarrow> u32 \<Rightarrow> u32 \<Rightarrow> (panic_vars, bool) prog" where
  "panic_range_is_mapped cr3 address extent = (if extent = 0 then ret True
     else let top = address + extent - 1
     in if top < address then ret False
     else bind (kernel_call Get_physical_address [cr3, address]) (\<lambda>first.
       if first = 0 then ret False
       else bind (kernel_call Get_physical_address [cr3, top]) (\<lambda>second.
       ret (second \<noteq> 0))))"

definition panic_put_instruction_bytes :: "u32 \<Rightarrow> (panic_vars, unit) prog" where
  "panic_put_instruction_bytes eip = bind (get_cpu cpu_cr3) (\<lambda>cr3.
    andthen (put_string (CHR 0x0A # ''CODE: ''))
    (for_each 0 16 (\<lambda>index. let address = eip + of_nat index in
       bind ((if address < eip then ret False
             else bind (kernel_call Get_physical_address [cr3, address]) (\<lambda>p. ret (p \<noteq> 0)))) (\<lambda>mapped.
         andthen ((if mapped then bind (load8 address) panic_put_hex_byte else put_string ''??''))
         (panic_put_character CHR '' '')))))"

text \<open>The loop of lines 139 to 166; the first argument counts the frames left.\<close>

fun backtrace_from :: "nat \<Rightarrow> u32 \<Rightarrow> u32 \<Rightarrow> u32 \<Rightarrow> (panic_vars, unit) prog" where
  "backtrace_from 0 cr3 depth frame_pointer = ret ()"
| "backtrace_from (Suc n) cr3 depth frame_pointer = (if frame_pointer AND 3 \<noteq> 0 then ret ()
  else bind (panic_range_is_mapped cr3 frame_pointer 8) (\<lambda>mapped.
  if \<not> mapped then ret ()
  else bind (load32 frame_pointer) (\<lambda>next_frame.
  bind (load32 (frame_pointer + 4)) (\<lambda>return_address.
  if return_address = 0 then ret ()
  else andthen (put_string (CHR 0x0A # ''#''))
  (andthen (panic_put_decimal depth)
  (andthen (panic_put_character CHR '' '')
  (andthen (panic_put_hex return_address)
  (if next_frame \<le> frame_pointer then ret ()
  else backtrace_from n cr3 (depth + 1) next_frame))))))))"

definition panic_put_backtrace :: "exception_frame \<Rightarrow> (panic_vars, unit) prog" where
  "panic_put_backtrace f = bind (get_cpu cpu_cr3) (\<lambda>cr3.
    andthen (put_string (CHR 0x0A # ''CALL STACK:''))
    (andthen (put_string (CHR 0x0A # ''#0 ''))
    (andthen (panic_put_hex (ef_eip f))
    (backtrace_from 9 cr3 1 (ef_ebp f)))))"

definition panic_clear_screen :: "(panic_vars, unit) prog" where
  "panic_clear_screen = andthen (for_each 0 2000 (\<lambda>index. store16 (VGA_TEXT_ADDRESS + 2 * of_nat index) (panic_cell CHR '' '')))
     (modify (\<lambda>s. s\<lparr>pn_cursor := 0\<rparr>))"

definition in_vga :: "(vga_vars, 'a) prog \<Rightarrow> (panic_vars, 'a) prog" where
  "in_vga = zoom pn_vga (\<lambda>v s. s\<lparr>pn_vga := v\<rparr>)"

text \<open>\<^verbatim>\<open>cli\<close>, the text mode and a clear screen: the start of both reports.\<close>

definition panic_begin :: "(panic_vars, unit) prog" where
  "panic_begin = andthen (irq_save)
    (andthen (in_vga vga_restore_text_mode)
    (panic_clear_screen))"

definition kernel_panic :: "string option \<Rightarrow> string option \<Rightarrow> u32 \<Rightarrow> (panic_vars, 'a) prog" where
  "kernel_panic message file line = andthen (panic_begin)
    (andthen (put_string (''KERNEL PANIC'' @ [CHR 0x0A]))
    (andthen (panic_put_text message)
    (andthen (put_string [CHR 0x0A])
    (andthen (panic_put_text file)
    (andthen (panic_put_character CHR '':'')
    (andthen (panic_put_decimal line)
    (panic (case message of None \<Rightarrow> [] | Some s \<Rightarrow> s))))))))"

text \<open>A label and a value in hexadecimal, the pattern of lines 216 to 248.\<close>

definition put_field :: "string \<Rightarrow> u32 \<Rightarrow> (panic_vars, unit) prog" where
  "put_field label v = andthen (put_string label) (panic_put_hex v)"

definition newline :: "string \<Rightarrow> string" where
  "newline s = CHR 0x0A # s"

definition put_registers :: "u32 \<Rightarrow> exception_frame \<Rightarrow> (panic_vars, unit) prog" where
  "put_registers cr2 f = (let privilege = ef_cs f AND 3 in andthen (put_field ''  VECTOR='' (ef_vector f))
    (andthen (put_field ''  ERROR='' (ef_error_code f))
    (andthen (put_field (newline ''EIP='') (ef_eip f))
    (andthen (put_field ''  CS='' (ef_cs f))
    (andthen (put_field ''  EFLAGS='' (ef_eflags f))
    (andthen (put_field (newline ''EAX='') (ef_eax f))
    (andthen (put_field ''  EBX='' (ef_ebx f))
    (andthen (put_field ''  ECX='' (ef_ecx f))
    (andthen (put_field ''  EDX='' (ef_edx f))
    (andthen (put_field (newline ''ESI='') (ef_esi f))
    (andthen (put_field ''  EDI='' (ef_edi f))
    (andthen (put_field ''  EBP='' (ef_ebp f))
    (andthen (put_field (newline ''ESP='') (if privilege \<noteq> 0 then ef_user_esp f else ef_saved_esp f + 36))
    (andthen (cond (privilege \<noteq> 0) (put_field ''  SS='' (ef_user_ss f)))
    (cond (ef_vector f = 14) (put_field ''  CR2='' cr2))))))))))))))))"

definition exception_title :: "u32 \<Rightarrow> string" where
  "exception_title privilege = (if privilege = 3 then ''DESKTOP USER EXCEPTION''
     else if privilege \<noteq> 0 then ''DRIVER EXCEPTION'' else ''KERNEL EXCEPTION'')"

text \<open>The register CR2 is an argument, read by the source when the vector is 14.\<close>

definition kernel_exception_panic :: "u32 \<Rightarrow> exception_frame \<Rightarrow> string \<Rightarrow> (panic_vars, 'a) prog" where
  "kernel_exception_panic cr2 f name = (let privilege = ef_cs f AND 3 in andthen (panic_begin)
    (andthen (put_string (exception_title privilege @ [CHR 0x0A]))
    (andthen (panic_put_text (Some name))
    (andthen (put_registers cr2 f)
    (andthen ((if privilege = 0 then andthen (panic_put_instruction_bytes (ef_eip f)) (panic_put_backtrace f)
      else put_string (newline ''EIP/ESP are segment offsets; flat code/stack walk skipped.'')))
    (panic name))))))"

definition kernel_assert_fail :: "string \<Rightarrow> string option \<Rightarrow> string option \<Rightarrow> u32 \<Rightarrow> (panic_vars, 'a) prog" where
  "kernel_assert_fail expression message file line =
     (case message of Some text \<Rightarrow> kernel_panic (Some text) file line | None \<Rightarrow> kernel_panic (Some expression) file line)"

section \<open>Exceptions\<close>

definition exception_names :: "string list" where
  "exception_names = [''Division Error'', ''Debug'', ''Non-maskable Interrupt'', ''Breakpoint'', ''Overflow'',
     ''BOUND Range Exceeded'', ''Invalid Opcode'', ''Device Not Available'', ''Double Fault'', ''Coprocessor Segment Overrun'',
     ''Invalid TSS'', ''Segment Not Present'', ''Stack-Segment Fault'', ''General Protection Fault'', ''Page Fault'', ''Reserved'',
     ''x87 Floating-Point Exception'', ''Alignment Check'', ''Machine Check'', ''SIMD Floating-Point Exception'', ''Reserved'',
     ''Reserved'', ''Reserved'', ''Reserved'', ''Reserved'', ''Reserved'', ''Reserved'', ''Reserved'', ''Reserved'', ''Reserved'',
     ''Reserved'', ''Reserved'']"

text \<open>\<^verbatim>\<open>__FILE__\<close> is what the compiler is given, an argument here.\<close>

definition exception_dispatch :: "string \<Rightarrow> u32 \<Rightarrow> exception_frame option \<Rightarrow> (panic_vars, unit) prog" where
  "exception_dispatch file cr2 pointer = (case pointer of
      None \<Rightarrow> kernel_panic (Some ''Invalid CPU exception frame'') (Some file) 57
    | Some f \<Rightarrow>
       if ef_vector f \<ge> 32 then kernel_panic (Some ''Invalid CPU exception frame'') (Some file) 57
       else let privilege = ef_cs f AND 3
       in if ef_eflags f AND EFLAGS_VM = 0 \<and> (privilege = 1 \<or> privilege = 2)
          then kernel_exception_panic cr2 f (exception_names ! unat (ef_vector f))
       else if ef_eflags f AND EFLAGS_VM \<noteq> 0 \<or> privilege \<noteq> 0 then ret ()
       else kernel_exception_panic cr2 f (exception_names ! unat (ef_vector f)))"

definition exception_initialize :: "u32 \<Rightarrow> ('s, unit) prog" where
  "exception_initialize handler = store32 0x80002320 handler"

section \<open>The screen\<close>

definition text_cell :: "(u32 \<Rightarrow> u8) \<Rightarrow> nat \<Rightarrow> u16" where
  "text_cell m i = ucast (m (VGA_TEXT_ADDRESS + 2 * of_nat i)) OR push_bit 8 (ucast (m (VGA_TEXT_ADDRESS + 2 * of_nat i + 1)))"

definition text_area :: "u32 set" where
  "text_area = {a. a - VGA_TEXT_ADDRESS < 4000}"

lemma word16_bytes: "(ucast (ucast v :: u8) :: u16) OR push_bit 8 (ucast (ucast (drop_bit 8 v) :: u8)) = v"
  by (rule bit_word_eqI) (auto simp: bit_or_iff bit_push_bit_iff bit_drop_bit_eq unsigned_ucast_eq bit_take_bit_iff bit_ucast_iff not_less)

lemma cell_address: "i < 2000 \<Longrightarrow> b \<le> 1 \<Longrightarrow> unat (VGA_TEXT_ADDRESS + 2 * of_nat i + of_nat b) = 0x80B80000 + 2 * i + b"
  by (simp add: unat_word_ariths unat_of_nat)

lemma text_area_cell: "i < 2000 \<Longrightarrow> VGA_TEXT_ADDRESS + 2 * of_nat i \<in> text_area" "i < 2000 \<Longrightarrow> VGA_TEXT_ADDRESS + 2 * of_nat i + 1 \<in> text_area"
  by (simp_all add: text_area_def word_less_nat_alt unat_word_ariths unat_of_nat)

definition poke16 :: "u32 \<Rightarrow> u16 \<Rightarrow> (u32 \<Rightarrow> u8) \<Rightarrow> (u32 \<Rightarrow> u8)" where
  "poke16 a v m = m(a := ucast v, a + 1 := ucast (drop_bit 8 v))"

lemma store16_run: "store16 a v e w = Done () (w\<lparr>mem := poke16 a v (mem w)\<rparr>)"
  by (simp add: store16_def store_list_def poke16_def)

lemma text_cell_poke:
  assumes "i < 2000" "j < 2000"
  shows "text_cell (poke16 (VGA_TEXT_ADDRESS + 2 * of_nat i) v m) j = (if j = i then v else text_cell m j)"
proof -
  have ne: "VGA_TEXT_ADDRESS + 2 * of_nat i \<noteq> VGA_TEXT_ADDRESS + 2 * of_nat i + (1 :: u32)" by simp
  show ?thesis
  proof (cases "j = i")
    case True
    then show ?thesis using ne by (simp add: text_cell_def poke16_def word16_bytes)
  next
    case False
    have "VGA_TEXT_ADDRESS + 2 * of_nat j + of_nat b \<noteq> (VGA_TEXT_ADDRESS + 2 * of_nat i + of_nat c :: u32)" if "b \<le> 1" "c \<le> 1" for b c
    proof
      assume "VGA_TEXT_ADDRESS + 2 * of_nat j + of_nat b = (VGA_TEXT_ADDRESS + 2 * of_nat i + of_nat c :: u32)"
      then have "unat (VGA_TEXT_ADDRESS + 2 * of_nat j + of_nat b :: u32) = unat (VGA_TEXT_ADDRESS + 2 * of_nat i + of_nat c :: u32)"
        by (rule arg_cong)
      then have "0x80B80000 + 2 * j + b = 0x80B80000 + 2 * i + c"
        by (simp only: cell_address [OF assms(2) that(1)] cell_address [OF assms(1) that(2)])
      then show False using False that by presburger
    qed
    from this [of 0 0] this [of 0 1] this [of 1 0] this [of 1 1] False show ?thesis
      by (simp add: text_cell_def poke16_def)
  qed
qed

text \<open>Typing a text on an abstract screen of characters, with the cursor as a cell number.\<close>

fun type_char :: "char \<Rightarrow> nat \<times> (nat \<Rightarrow> char) \<Rightarrow> nat \<times> (nat \<Rightarrow> char)" where
  "type_char c (cur, scr) = (if c = CHR 0x0A then (cur + (80 - cur mod 80), scr)
     else if cur < 2000 then (cur + 1, scr(cur := c)) else (cur, scr))"

definition type_text :: "string \<Rightarrow> nat \<times> (nat \<Rightarrow> char) \<Rightarrow> nat \<times> (nat \<Rightarrow> char)" where
  "type_text s = fold type_char s"

definition displays :: "panic_vars world \<Rightarrow> nat \<times> (nat \<Rightarrow> char) \<Rightarrow> bool" where
  "displays w t \<longleftrightarrow> pn_cursor (vars w) = of_nat (fst t) \<and> map (text_cell (mem w)) [0..<2000] = map (\<lambda>i. panic_cell (snd t i)) [0..<2000]"

lemma displays_cell: "displays w t \<Longrightarrow> i < 2000 \<Longrightarrow> text_cell (mem w) i = panic_cell (snd t i)"
  by (simp add: displays_def)

lemma put_character_displays:
  assumes "displays w t" "fst t < 2 ^ 31"
  shows "\<exists>w'. panic_put_character c e w = Done () w' \<and> displays w' (type_char c t)"
proof -
  obtain cur scr where t: "t = (cur, scr)" by fastforce
  have cur: "unat (of_nat cur :: u32) = cur" using assms(2) t by (simp add: unat_of_nat)
  then have "unat ((of_nat cur :: u32) mod 80) = cur mod 80" by (simp add: unat_mod)
  then have "(of_nat cur :: u32) mod 80 = of_nat (cur mod 80)" by (metis of_nat_unat ucast_id)
  then have nl: "(of_nat cur :: u32) + (80 - of_nat cur mod 80) = of_nat (cur + (80 - cur mod 80))"
    by (simp add: of_nat_diff)
  have less: "(of_nat cur :: u32) < 2000 \<longleftrightarrow> cur < 2000" using cur by (simp add: word_less_nat_alt)
  show ?thesis
  proof (cases "c = CHR 0x0A")
    case True
    then show ?thesis using assms(1) nl t by (simp add: panic_put_character_def prog_simps displays_def)
  next
    case False
    then show ?thesis
      using assms(1) less t
      by (auto simp: panic_put_character_def run_bind run_gets run_cond run_andthen store16_run run_modify displays_def text_cell_poke)
  qed
qed

lemma type_char_cursor: "fst (type_char c t) \<le> fst t + 80"
  by (cases t) simp

lemma put_string_displays:
  "displays w t \<Longrightarrow> fst t + 80 * length s < 2 ^ 31 \<Longrightarrow> \<exists>w'. put_string s e w = Done () w' \<and> displays w' (type_text s t)"
proof (induction s arbitrary: w t)
  case Nil
  then show ?case by (simp add: prog_simps type_text_def)
next
  case (Cons c s)
  obtain v where v: "panic_put_character c e w = Done () v" "displays v (type_char c t)"
    using put_character_displays [OF Cons.prems(1)] Cons.prems(2) by auto
  have "fst (type_char c t) + 80 * length s < 2 ^ 31" using type_char_cursor [of c t] Cons.prems(2) by simp
  then show ?case using Cons.IH [OF v(2)] v(1) by (simp add: run_andthen type_text_def)
qed

text \<open>A screen of lines, each shorter than a row.\<close>

definition layout :: "string list \<Rightarrow> nat \<Rightarrow> char" where
  "layout ls i = (if i div 80 < length ls \<and> i mod 80 < length (ls ! (i div 80)) then ls ! (i div 80) ! (i mod 80) else CHR '' '')"

definition line_ok :: "string \<Rightarrow> bool" where
  "line_ok l \<longleftrightarrow> length l < 80 \<and> CHR 0x0A \<notin> set l"

lemma layout_snoc:
  assumes "line_ok (l @ [c])"
  shows "layout (ls @ [l @ [c]]) = (layout (ls @ [l]))(length ls * 80 + length l := c)"
proof (rule ext)
  fix i
  have len: "length l < 79" using assms by (simp add: line_ok_def)
  have "i = length ls * 80 + length l \<longleftrightarrow> i div 80 = length ls \<and> i mod 80 = length l"
  proof
    assume "i = length ls * 80 + length l"
    then show "i div 80 = length ls \<and> i mod 80 = length l" using len by simp
  next
    assume "i div 80 = length ls \<and> i mod 80 = length l"
    then show "i = length ls * 80 + length l" using div_mult_mod_eq [of i 80] by simp
  qed
  then show "layout (ls @ [l @ [c]]) i = ((layout (ls @ [l]))(length ls * 80 + length l := c)) i"
    by (auto simp: layout_def nth_append less_Suc_eq)
qed

lemma type_line:
  "line_ok l \<Longrightarrow> length ls < 25 \<Longrightarrow>
   type_text l (length ls * 80, layout (ls @ [[]])) = (length ls * 80 + length l, layout (ls @ [l]))"
proof (induction l rule: rev_induct)
  case Nil
  then show ?case by (simp add: type_text_def)
next
  case (snoc c l)
  then have "type_text l (length ls * 80, layout (ls @ [[]])) = (length ls * 80 + length l, layout (ls @ [l]))"
    by (simp add: line_ok_def)
  moreover have "c \<noteq> CHR 0x0A" "length ls * 80 + length l < 2000" using snoc.prems by (auto simp: line_ok_def)
  ultimately show ?case using layout_snoc [OF snoc.prems(1)] by (simp add: type_text_def fun_upd_def)
qed

lemma layout_blank: "layout (ls @ [[]]) = layout ls"
  by (rule ext) (auto simp: layout_def nth_append less_Suc_eq)

lemma type_newline: "line_ok l \<Longrightarrow> type_text [CHR 0x0A] (length ls * 80 + length l, scr) = (length (ls @ [l]) * 80, scr)"
  by (simp add: type_text_def line_ok_def)

section \<open>What a report may change\<close>

text \<open>
  \<^verbatim>\<open>prints m\<close>: every run of \<open>m\<close> returns, and changes nothing but the text screen, its cursor and the
  history of calls; the display's registers stay as they are.
\<close>

definition prints :: "(panic_vars, 'a) prog \<Rightarrow> bool" where
  "prints m \<longleftrightarrow> (\<forall>e w d. \<exists>x w'. m e w = Done x w' \<and> cpu_regs w' = cpu_regs w \<and> pn_vga (vars w') = pn_vga (vars w) \<and>
     vga_after d w' = vga_after d w \<and> (\<forall>a. a \<notin> text_area \<longrightarrow> mem w' a = mem w a))"

lemma prints_prims: "prints (ret x)" "prints (gets f)" "prints (load8 a)" "prints (load32 a)" "prints (get_cpu g)" "prints (kernel_call fn args)"
  by (simp_all add: prints_def prog_simps vga_after_def)

lemma prints_bind: "prints m \<Longrightarrow> (\<And>x. prints (n x)) \<Longrightarrow> prints (bind m n)"
  unfolding prints_def
proof (intro allI)
  fix e w d
  assume "\<forall>e w d. \<exists>x w'. m e w = Done x w' \<and> cpu_regs w' = cpu_regs w \<and> pn_vga (vars w') = pn_vga (vars w) \<and>
     vga_after d w' = vga_after d w \<and> (\<forall>a. a \<notin> text_area \<longrightarrow> mem w' a = mem w a)"
  then obtain x v where m: "m e w = Done x v" "cpu_regs v = cpu_regs w" "pn_vga (vars v) = pn_vga (vars w)"
     "vga_after d v = vga_after d w" "\<forall>a. a \<notin> text_area \<longrightarrow> mem v a = mem w a" by blast
  assume "\<And>x. \<forall>e w d. \<exists>y w'. n x e w = Done y w' \<and> cpu_regs w' = cpu_regs w \<and> pn_vga (vars w') = pn_vga (vars w) \<and>
     vga_after d w' = vga_after d w \<and> (\<forall>a. a \<notin> text_area \<longrightarrow> mem w' a = mem w a)"
  then obtain y w' where "n x e v = Done y w'" "cpu_regs w' = cpu_regs v" "pn_vga (vars w') = pn_vga (vars v)"
     "vga_after d w' = vga_after d v" "\<forall>a. a \<notin> text_area \<longrightarrow> mem w' a = mem v a" by blast
  then show "\<exists>y w'. bind m n e w = Done y w' \<and> cpu_regs w' = cpu_regs w \<and> pn_vga (vars w') = pn_vga (vars w) \<and>
     vga_after d w' = vga_after d w \<and> (\<forall>a. a \<notin> text_area \<longrightarrow> mem w' a = mem w a)"
    using m by (simp add: run_bind)
qed

lemma prints_andthen: "prints m \<Longrightarrow> prints n \<Longrightarrow> prints (andthen m n)"
  unfolding andthen_def by (rule prints_bind)

lemma prints_if: "(b \<Longrightarrow> prints m) \<Longrightarrow> (\<not> b \<Longrightarrow> prints n) \<Longrightarrow> prints (if b then m else n)"
  by simp

lemma prints_cond: "prints m \<Longrightarrow> prints (cond b m)"
  by (simp add: cond_def prints_prims)

lemma prints_for_each: "(\<And>j. prints (body j)) \<Longrightarrow> prints (for_each i n body)"
  by (induction n arbitrary: i) (simp_all add: prints_prims prints_andthen)

lemma poke16_area:
  assumes "cursor < 2000" "a \<notin> text_area"
  shows "poke16 (VGA_TEXT_ADDRESS + 2 * cursor) v m a = m a"
proof -
  have "unat cursor < 2000" "cursor = of_nat (unat cursor)" using assms(1) by (simp_all add: word_less_nat_alt)
  then show ?thesis using text_area_cell [of "unat cursor"] assms(2) by (auto simp: poke16_def)
qed

lemma prints_character: "prints (panic_put_character c)"
  by (auto simp: prints_def panic_put_character_def run_bind run_gets run_cond run_andthen store16_run run_modify poke16_area vga_after_def)

lemma prints_string: "prints (put_string s)"
  by (induction s) (simp_all add: prints_prims prints_andthen prints_character)

lemma prints_text: "prints (panic_put_text t)"
  by (simp add: panic_put_text_def prints_prims prints_string split: option.split)

lemmas prints_steps = prints_prims prints_bind prints_andthen prints_if prints_cond prints_for_each prints_character prints_string prints_text

lemma prints_numbers: "prints (panic_put_decimal v)" "prints (panic_put_hex v)" "prints (panic_put_hex_byte b)" "prints (put_field l v)"
  unfolding panic_put_decimal_def panic_put_hex_def panic_put_hex_byte_def put_field_def by (intro prints_steps)+

lemma prints_mapped: "prints (panic_range_is_mapped cr3 a n)"
  unfolding panic_range_is_mapped_def Let_def by (intro prints_steps)

lemma prints_backtrace: "prints (backtrace_from n cr3 depth p)"
  by (induction n arbitrary: depth p) (auto intro!: prints_steps prints_numbers prints_mapped)

lemma prints_report: "prints (put_registers cr2 f)" "prints (panic_put_instruction_bytes eip)" "prints (panic_put_backtrace f)"
  unfolding put_registers_def panic_put_instruction_bytes_def panic_put_backtrace_def Let_def
  by (intro prints_steps prints_numbers prints_backtrace)+

section \<open>The start of a report\<close>

definition font_area :: "u32 set" where
  "font_area = (\<lambda>(g, r). font_slot g r) ` set cells"

lemma clear_loop_run:
  assumes "i + n \<le> 2000"
  shows "\<exists>m. for_each i n (\<lambda>j. store16 (VGA_TEXT_ADDRESS + 2 * of_nat j) v) e w = Done () (w\<lparr>mem := m\<rparr>) \<and>
    (\<forall>j<2000. text_cell m j = (if i \<le> j \<and> j < i + n then v else text_cell (mem w) j)) \<and> (\<forall>a. a \<notin> text_area \<longrightarrow> m a = mem w a)"
  using assms
proof (induction n arbitrary: i w)
  case 0
  have "w = w\<lparr>mem := mem w\<rparr>" by simp
  then show ?case unfolding for_each.simps run_ret by (intro exI [of _ "mem w"]) (simp, linarith?)
next
  case (Suc n)
  let ?m = "poke16 (VGA_TEXT_ADDRESS + 2 * of_nat i) v (mem w)"
  obtain m where m: "for_each (Suc i) n (\<lambda>j. store16 (VGA_TEXT_ADDRESS + 2 * of_nat j) v) e (w\<lparr>mem := ?m\<rparr>) = Done () (w\<lparr>mem := ?m\<rparr>\<lparr>mem := m\<rparr>)"
    "\<forall>j<2000. text_cell m j = (if Suc i \<le> j \<and> j < Suc i + n then v else text_cell ?m j)" "\<forall>a. a \<notin> text_area \<longrightarrow> m a = ?m a"
    using Suc.IH [of "Suc i" "w\<lparr>mem := ?m\<rparr>"] Suc.prems by auto
  have "text_cell m j = (if i \<le> j \<and> j < i + Suc n then v else text_cell (mem w) j)" if "j < 2000" for j
    using m(2) that Suc.prems by (auto simp: text_cell_poke)
  moreover have "?m a = mem w a" if "a \<notin> text_area" for a
    using that Suc.prems text_area_cell [of i] by (auto simp: poke16_def)
  moreover have "for_each i (Suc n) (\<lambda>j. store16 (VGA_TEXT_ADDRESS + 2 * of_nat j) v) e w = Done () (w\<lparr>mem := m\<rparr>)"
    using m(1) store16_run [of "VGA_TEXT_ADDRESS + 2 * of_nat i" v e w] by (simp add: run_andthen)
  ultimately show ?case using m(3) by (intro exI [of _ m]) simp
qed

lemma panic_begin_run:
  "\<exists>w'. panic_begin e w = Done () w' \<and> \<not> cpu_if (cpu_regs w') \<and> displays w' (0, layout []) \<and>
    text_mode (if vg_startup_font_state (pn_vga (vars w)) = VGA_FONT_CAPTURED then 3 else 2) (vga_after d w') \<and>
    (\<forall>a. a \<notin> text_area \<longrightarrow> a \<notin> font_area \<longrightarrow> mem w' a = mem w a)"
proof -
  let ?c = "vg_startup_font_state (pn_vga (vars w)) = VGA_FONT_CAPTURED"
  let ?v = "\<lparr>io = io w, mem = mem w, cpu_regs = (cpu_regs w)\<lparr>cpu_if := False\<rparr>, vars = pn_vga (vars w)\<rparr>"
  obtain v where v: "vga_restore_text_mode e ?v = Done () v" "cpu_regs v = cpu_regs ?v"
    "mem v = (if ?c then write_all (\<lambda>(g, r). font_slot g r) (\<lambda>(g, r). vg_startup_font (vars ?v) ! (g * 16 + r)) cells (mem ?v) else mem ?v)"
    "vga_after d v = port_write 0x3C0 0x20 ((indexed 0x3D4 0x0A 0x20
      ((if ?c then font_effect else id) (palette_effect (mode3_effect (vga_after d ?v)))))\<lparr>vd_data_next := False\<rparr>)"
    using restore_text_run [of e ?v d] by auto
  let ?u = "\<lparr>io = io v, mem = mem v, cpu_regs = cpu_regs v, vars = (vars w)\<lparr>pn_vga := vars v\<rparr>\<rparr>"
  obtain m where m: "for_each 0 2000 (\<lambda>j. store16 (VGA_TEXT_ADDRESS + 2 * of_nat j) (panic_cell CHR '' '')) e ?u = Done () (?u\<lparr>mem := m\<rparr>)"
    "\<forall>j<2000. text_cell m j = panic_cell CHR '' ''" "\<forall>a. a \<notin> text_area \<longrightarrow> m a = mem v a"
    using clear_loop_run [of 0 2000 "panic_cell CHR '' ''" e ?u] by auto
  let ?w = "?u\<lparr>mem := m, vars := (vars ?u)\<lparr>pn_cursor := 0\<rparr>\<rparr>"
  have "in_vga vga_restore_text_mode e (w\<lparr>cpu_regs := (cpu_regs w)\<lparr>cpu_if := False\<rparr>\<rparr>) = Done () ?u"
    using v(1) by (simp add: in_vga_def zoom_def Let_def)
  then have "panic_begin e w = Done () ?w"
    using m(1) by (simp add: panic_begin_def panic_clear_screen_def run_andthen irq_save_def run_modify)
  moreover have "displays ?w (0, layout [])" using m(2) by (simp add: displays_def layout_def)
  moreover have "text_mode (if ?c then 3 else 2) (vga_after d ?w)"
    using final_effect_text_mode [of ?c] v(4) by (simp add: vga_after_def)
  moreover have "m a = mem w a" if "a \<notin> text_area" "a \<notin> font_area" for a
    using m(3) that v(3) write_all_other [of a "\<lambda>(g, r). font_slot g r" cells] by (simp add: font_area_def split: if_splits)
  ultimately show ?thesis using v(2) by (intro exI [of _ ?w]) simp
qed

section \<open>Numbers\<close>

text \<open>Decimal notation of a number, most significant digit first.\<close>

fun decimal :: "nat \<Rightarrow> string" where
  "decimal n = (if n < 10 then [char_of (48 + n)] else decimal (n div 10) @ [char_of (48 + n mod 10)])"

declare decimal.simps [simp del]

lemma decimal_digits_correct: "rev (decimal_digits v) = decimal (unat v)"
proof (induction v rule: decimal_digits.induct)
  case (1 v)
  have ten: "v div 10 = 0 \<longleftrightarrow> unat v < 10" by (simp add: word_unat_eq_iff unat_div div_eq_0_iff)
  have "unat (v mod 10) = unat v mod 10" "unat (v div 10) = unat v div 10" by (simp_all add: unat_mod unat_div)
  then show ?case
    using 1 ten by (subst decimal_digits.simps, subst decimal.simps) (simp add: mod_less)
qed

lemma decimal_length: "n < 10 ^ Suc k \<Longrightarrow> length (decimal n) \<le> Suc k"
proof (induction k arbitrary: n)
  case (Suc k)
  have "n div 10 < 10 ^ Suc k" using Suc.prems by (simp add: div_less_iff_less_mult)
  then have "length (decimal (n div 10)) \<le> Suc k" by (rule Suc.IH)
  then show ?case by (subst decimal.simps) simp
qed (simp add: decimal.simps)

lemma decimal_no_newline: "CHR 0x0A \<notin> set (decimal n)"
proof (induction n rule: decimal.induct)
  case (1 n)
  have "char_of (48 + k) \<noteq> CHR 0x0A" if "k < 10" for k :: nat
  proof
    assume "char_of (48 + k) = CHR 0x0A"
    then have "of_char (char_of (48 + k) :: char) = (10 :: nat)" by simp
    then show False using that by simp
  qed
  then have "char_of (48 + n mod 10) \<noteq> CHR 0x0A" "n < 10 \<Longrightarrow> char_of (48 + n) \<noteq> CHR 0x0A" by simp_all
  then show ?case using 1 by (subst decimal.simps) auto
qed

lemma unat_decimal_length: "length (decimal (unat (v :: u32))) \<le> 10"
proof (rule decimal_length [of "unat v" 9, simplified])
  have "unat v < 2 ^ LENGTH(32)" by (rule unsigned_less)
  then show "unat v < 10000000000" by simp
qed

section \<open>Reports\<close>

lemma type_text_append: "type_text (s @ t) x = type_text t (type_text s x)"
  by (simp add: type_text_def)

lemma put_string_append: "put_string (s @ t) = andthen (put_string s) (put_string t)"
proof (induction s)
  case Nil
  then show ?case by (simp add: andthen_def)
next
  case (Cons c s)
  then show ?case by (simp add: andthen_def bind_assoc)
qed

lemma kernel_panic_text: "kernel_panic (Some msg) (Some file) line = andthen panic_begin
    (andthen (put_string (''KERNEL PANIC'' @ [CHR 0x0A] @ msg @ [CHR 0x0A] @ file @ '':'' @ decimal (unat line))) (panic msg))"
proof -
  have "(\<lambda>_ :: unit. ret () :: (panic_vars, unit) prog) = ret" by (rule ext) simp
  then have one: "panic_put_character c = put_string [c]" for c by (simp add: andthen_def)
  show ?thesis
    unfolding kernel_panic_def panic_put_text_def panic_put_decimal_def decimal_digits_correct option.case one
    by (simp add: put_string_append andthen_def bind_assoc del: put_string.simps append.simps)
qed

lemma printsD:
  assumes "prints m"
  obtains x w' where "m e w = Done x w'" "cpu_regs w' = cpu_regs w" "vga_after d w' = vga_after d w" "\<forall>a. a \<notin> text_area \<longrightarrow> mem w' a = mem w a"
  using assms unfolding prints_def by blast

text \<open>
  How a report leaves the machine: interrupts off, the display in text mode, and nothing written but the
  screen and the font.
\<close>

definition stopped_in_text :: "vga_device \<Rightarrow> panic_vars world \<Rightarrow> panic_vars world \<Rightarrow> bool" where
  "stopped_in_text d w w' \<longleftrightarrow> \<not> cpu_if (cpu_regs w') \<and>
     text_mode (if vg_startup_font_state (pn_vga (vars w)) = VGA_FONT_CAPTURED then 3 else 2) (vga_after d w') \<and>
     {a. mem w' a \<noteq> mem w a} \<subseteq> text_area \<union> font_area"

lemma report_run:
  assumes "prints m"
  shows "\<exists>w'. andthen panic_begin (andthen m (panic msg)) e w = Panicked msg w' \<and> stopped_in_text d w w'"
proof -
  obtain v where v: "panic_begin e w = Done () v" "\<not> cpu_if (cpu_regs v)"
    "text_mode (if vg_startup_font_state (pn_vga (vars w)) = VGA_FONT_CAPTURED then 3 else 2) (vga_after d v)"
    "\<forall>a. a \<notin> text_area \<longrightarrow> a \<notin> font_area \<longrightarrow> mem v a = mem w a"
    using panic_begin_run by blast
  obtain x w' where w': "m e v = Done x w'" "cpu_regs w' = cpu_regs v" "vga_after d w' = vga_after d v" "\<forall>a. a \<notin> text_area \<longrightarrow> mem w' a = mem v a"
    using printsD [OF assms] by blast
  have "mem w' a = mem w a" if "a \<notin> text_area" "a \<notin> font_area" for a using v(4) w'(4) that by simp
  then have "{a. mem w' a \<noteq> mem w a} \<subseteq> text_area \<union> font_area" by blast
  then show ?thesis using v w' by (intro exI [of _ w']) (simp add: run_andthen run_panic stopped_in_text_def)
qed

lemma exception_panic_report:
  "\<exists>m :: (panic_vars, unit) prog. prints m \<and> kernel_exception_panic cr2 f name = andthen panic_begin (andthen m (panic name))"
proof -
  let ?m = "andthen (put_string (exception_title (ef_cs f AND 3) @ [CHR 0x0A])) (andthen (panic_put_text (Some name)) (andthen (put_registers cr2 f)
    (if ef_cs f AND 3 = 0 then andthen (panic_put_instruction_bytes (ef_eip f)) (panic_put_backtrace f)
      else put_string (newline ''EIP/ESP are segment offsets; flat code/stack walk skipped.''))))"
  have "prints ?m" by (intro prints_steps prints_report)
  then show ?thesis by (intro exI [of _ ?m]) (simp add: kernel_exception_panic_def Let_def andthen_def bind_assoc)
qed

lemma three_lines:
  assumes "line_ok a" "line_ok b" "line_ok c"
  shows "type_text (a @ [CHR 0x0A] @ b @ [CHR 0x0A] @ c) (0, layout []) = (2 * 80 + length c, layout [a, b, c])"
  using type_line [OF assms(1), of "[]"] type_newline [OF assms(1), of "[]"] type_line [OF assms(2), of "[a]"]
    type_newline [OF assms(2), of "[a]"] type_line [OF assms(3), of "[a, b]"]
    layout_blank [of "[]"] layout_blank [of "[a]"] layout_blank [of "[a, b]"]
  by (simp add: type_text_append del: append.simps) simp

section \<open>Properties\<close>

text \<open>
  C37: a panic shows its message. For a message of one line and a file name that fits beside the line number,
  \<^verbatim>\<open>kernel_panic\<close> never returns, ends with interrupts disabled and the display in text mode, and
  leaves on the screen exactly the rows "KERNEL PANIC", the message, and the file, a colon and the line number in
  decimal, and blanks in all other cells; its digits fit the buffer of ten. Nothing but the 4000 bytes of the
  screen and the glyphs of the font is written. This holds in every state: whatever the display, the graphics driver
  and the caller were doing.
\<close>

theorem kernel_panic_shows_message:
  assumes "line_ok msg" "length file < 69" "CHR 0x0A \<notin> set file"
  shows "\<exists>w'. kernel_panic (Some msg) (Some file) line e w = Panicked msg w' \<and> stopped_in_text d w w' \<and>
    map (text_cell (mem w')) [0..<2000] =
      map (\<lambda>i. panic_cell (layout [''KERNEL PANIC'', msg, file @ '':'' @ decimal (unat line)] i)) [0..<2000] \<and>
    length (decimal_digits line) \<le> 10"
proof -
  define place where "place = file @ '':'' @ decimal (unat line)"
  define report where "report = ''KERNEL PANIC'' @ [CHR 0x0A] @ msg @ [CHR 0x0A] @ place"
  have ok: "line_ok ''KERNEL PANIC''" "line_ok place"
    using assms(2,3) unat_decimal_length [of line] decimal_no_newline by (auto simp: line_ok_def place_def)
  have "80 * length report < 2 ^ 31"
    using assms(1) ok(2) by (simp add: line_ok_def report_def)
  then have shown: "\<exists>w'. put_string report e v = Done () w' \<and> displays w' (2 * 80 + length place, layout [''KERNEL PANIC'', msg, place])"
    if "displays v (0, layout [])" for v
    using put_string_displays [OF that, of report e] three_lines [OF ok(1) assms(1) ok(2)] by (simp add: report_def)
  obtain v where v: "panic_begin e w = Done () v" "displays v (0, layout [])" using panic_begin_run by blast
  obtain w' where w': "put_string report e v = Done () w'" "displays w' (2 * 80 + length place, layout [''KERNEL PANIC'', msg, place])"
    using shown [OF v(2)] by blast
  have run: "andthen panic_begin (andthen (put_string report) (panic msg)) e w = Panicked msg w'"
    using v(1) w'(1) by (simp add: run_andthen run_panic)
  have "kernel_panic (Some msg) (Some file) line e w = Panicked msg w'"
    using run unfolding kernel_panic_text report_def place_def .
  moreover have "stopped_in_text d w w'" using report_run [OF prints_string [of report], of msg e w d] unfolding run by simp
  moreover have "length (decimal_digits line) \<le> 10"
    using unat_decimal_length [of line] decimal_digits_correct [of line] by (metis length_rev)
  moreover have "map (text_cell (mem w')) [0..<2000] = map (\<lambda>i. panic_cell (layout [''KERNEL PANIC'', msg, place] i)) [0..<2000]"
    using w'(2) unfolding displays_def by simp
  ultimately show ?thesis unfolding place_def by blast
qed

text \<open>A panic on the drawn desktop, the display in an unknown graphics mode with its CRTC registers locked.\<close>

definition panic_drawn :: panic_vars where
  "panic_drawn = \<lparr>pn_vga = vga_zero \<lparr>i9_panic_state = True, i9_shared = i915_drawn\<rparr>, pn_cursor = 7\<rparr>"

definition locked_display :: vga_device where
  "locked_display = \<lparr>vd_misc = 0xE3, vd_sequencer_index = 4, vd_sequencer = (\<lambda>_. 0xFF), vd_crtc_index = 0x11,
     vd_crtc = (\<lambda>_. 0x80), vd_graphics_index = 0, vd_graphics = (\<lambda>_. 0xFF), vd_data_next = True,
     vd_attribute_index = 3, vd_attribute = (\<lambda>_. 0xFF), vd_dac_mask = 0, vd_dac_index = 5, vd_dac = (\<lambda>_. 0)\<rparr>"

theorem kernel_panic_shows_message_witness:
  "\<exists>w'. kernel_panic (Some ''Assembly API magic mismatch'') (Some ''KernelMain.c'') 29 null_env (start_world panic_drawn) =
      Panicked ''Assembly API magic mismatch'' w' \<and> stopped_in_text locked_display (start_world panic_drawn) w' \<and>
    map (text_cell (mem w')) [0..<2000] =
      map (\<lambda>i. panic_cell (layout [''KERNEL PANIC'', ''Assembly API magic mismatch'', ''KernelMain.c:29''] i)) [0..<2000]"
proof -
  have "line_ok ''Assembly API magic mismatch''" by (simp add: line_ok_def)
  moreover have "''KernelMain.c'' @ '':'' @ decimal (unat (29 :: u32)) = ''KernelMain.c:29''"
    by (simp add: decimal.simps) code_simp
  ultimately show ?thesis
    using kernel_panic_shows_message [of "''Assembly API magic mismatch''" "''KernelMain.c''" 29 null_env "start_world panic_drawn" locked_display]
    by auto
qed


end
