(* ===== verification/Azalia.thy ===== *)
theory Azalia
  imports Runtime Clock
begin

text \<open>
  The audio driver of \<^verbatim>\<open>Drivers/Audio/Azalia.c\<close>: the search for an HD audio controller and the
  mapping of its registers, and the ring-1 service that asks a codec for its topology through the
  immediate command registers. It is query only; the lemmas show that no command it sends
  is anything but a query, for every controller and codec.
\<close>

abbreviation (input) AZALIA_MMIO :: u32 where "AZALIA_MMIO \<equiv> 0x72400000"
abbreviation (input) AZALIA_STACKS :: u32 where "AZALIA_STACKS \<equiv> 0x72020000"
abbreviation (input) ALC269_CODEC_ID :: u32 where "ALC269_CODEC_ID \<equiv> 0x10EC0269"
abbreviation (input) AZALIA_CONTROLLER_READY :: u32 where "AZALIA_CONTROLLER_READY \<equiv> 1"
abbreviation (input) AZALIA_CODEC_READY :: u32 where "AZALIA_CODEC_READY \<equiv> 2"
abbreviation (input) AZALIA_BAD_BAR :: u32 where "AZALIA_BAD_BAR \<equiv> 0x10"
abbreviation (input) AZALIA_LINK_STOPPED :: u32 where "AZALIA_LINK_STOPPED \<equiv> 0x11"
abbreviation (input) AZALIA_COMMAND_DMA_ACTIVE :: u32 where "AZALIA_COMMAND_DMA_ACTIVE \<equiv> 0x12"
abbreviation (input) AZALIA_COMMAND_TIMEOUT :: u32 where "AZALIA_COMMAND_TIMEOUT \<equiv> 0x13"
abbreviation (input) AZALIA_CODEC_NOT_FOUND :: u32 where "AZALIA_CODEC_NOT_FOUND \<equiv> 0x14"
abbreviation (input) AZALIA_BAD_TOPOLOGY :: u32 where "AZALIA_BAD_TOPOLOGY \<equiv> 0x15"
abbreviation (input) AZALIA_BUSY :: u32 where "AZALIA_BUSY \<equiv> 0x16"
abbreviation (input) AZALIA_WRONG_RING :: u32 where "AZALIA_WRONG_RING \<equiv> 0x17"
abbreviation (input) AZALIA_BAD_REQUEST :: u32 where "AZALIA_BAD_REQUEST \<equiv> 0x18"

section \<open>State\<close>

record azalia_widget =
  aw_node :: u32
  aw_capabilities :: u32
  aw_pin_default :: u32
  aw_pcm :: u32
  aw_formats :: u32

record azalia_state =
  az_status :: u32
  az_pci :: u32
  az_controller_id :: u32
  az_mmio_physical :: u32
  az_capabilities :: u32
  az_codec_mask :: u32
  az_codec_address :: u32
  az_codec_id :: u32
  az_revision :: u32
  az_audio_group :: u32
  az_widget_count :: u32
  az_code_selector :: u32
  az_data_selector :: u32
  az_gate_selector :: u32
  az_busy :: u32
  az_observed_cpl :: u32
  az_commands :: u32
  az_last_command :: u32
  az_widgets :: "azalia_widget list"
  az_initialized :: u32

section \<open>Codec discovery\<close>

definition azalia_verb :: "u32 \<Rightarrow> u32 \<Rightarrow> u32 \<Rightarrow> u32 \<Rightarrow> u32" where
  "azalia_verb codec node verb payload =
     (if codec > 14 \<or> node > 255 \<or> verb > 0xFFF \<or> payload > 255 then 0xFFFFFFFF
      else push_bit 28 codec OR push_bit 20 node OR push_bit 8 verb OR payload)"

text \<open>
  A function of type \<^verbatim>\<open>azalia_send_verb\<close> sends a command and returns \<open>None\<close> for 0, or \<open>Some\<close> of the response
  it has stored.
\<close>

type_synonym send_verb = "u32 \<Rightarrow> (azalia_state, u32 option) prog"

definition parameter :: "send_verb \<Rightarrow> u32 \<Rightarrow> u32 \<Rightarrow> (azalia_state, u32 option) prog" where
  "parameter send node ident = bind (gets az_codec_address) (\<lambda>codec. send (azalia_verb codec node 0xF00 ident))"

definition finish :: "u32 \<Rightarrow> (azalia_state, u32) prog" where
  "finish status = andthen (modify (\<lambda>s. s\<lparr>az_status := status\<rparr>)) (ret status)"

text \<open>Lines 19 to 26: \<open>Some True\<close> is the return on a timeout, \<open>Some False\<close> the break.\<close>

definition scan_codec :: "send_verb \<Rightarrow> nat \<Rightarrow> (azalia_state, bool option) prog" where
  "scan_codec send codec = bind (gets az_codec_mask) (\<lambda>mask.
     if mask AND push_bit codec 1 = 0 then ret None
     else andthen (modify (\<lambda>s. s\<lparr>az_codec_address := of_nat codec\<rparr>))
       (bind (parameter send 0 0) (\<lambda>vendor. case vendor of
          None \<Rightarrow> ret (Some True)
        | Some v \<Rightarrow> if v = ALC269_CODEC_ID then andthen (modify (\<lambda>s. s\<lparr>az_codec_id := v\<rparr>)) (ret (Some False)) else ret None)))"

text \<open>Lines 33 to 36, with the same results.\<close>

definition scan_group :: "send_verb \<Rightarrow> nat \<Rightarrow> (azalia_state, bool option) prog" where
  "scan_group send node = bind (parameter send (of_nat node) 5) (\<lambda>kind. case kind of
      None \<Rightarrow> ret (Some True)
    | Some t \<Rightarrow> if t AND 255 = 1 then andthen (modify (\<lambda>s. s\<lparr>az_audio_group := of_nat node\<rparr>)) (ret (Some False)) else ret None)"

definition set_widget :: "nat \<Rightarrow> (azalia_widget \<Rightarrow> azalia_widget) \<Rightarrow> (azalia_state, unit) prog" where
  "set_widget i f = modify (\<lambda>s. s\<lparr>az_widgets := (az_widgets s)[i := f (az_widgets s ! i)]\<rparr>)"

text \<open>A query whose answer goes into a field; \<open>False\<close> when it timed out.\<close>

definition query_into :: "(azalia_state, u32 option) prog \<Rightarrow> (u32 \<Rightarrow> (azalia_state, unit) prog) \<Rightarrow> (azalia_state, bool) prog" where
  "query_into q f = bind q (\<lambda>r. case r of None \<Rightarrow> ret False | Some v \<Rightarrow> andthen (f v) (ret True))"

text \<open>Lines 41 to 55; \<open>Some ()\<close> is \<^verbatim>\<open>goto timeout\<close>.\<close>

definition scan_widget :: "send_verb \<Rightarrow> nat \<Rightarrow> nat \<Rightarrow> (azalia_state, unit option) prog" where
  "scan_widget send start i = (let node = of_nat (start + i) :: u32
    in andthen (set_widget i (\<lambda>x. x\<lparr>aw_node := node, aw_pin_default := 0, aw_pcm := 0, aw_formats := 0\<rparr>))
    (bind (parameter send node 9) (\<lambda>answer.
    (case answer of None \<Rightarrow> ret (Some ()) | Some capabilities \<Rightarrow> andthen (set_widget i (\<lambda>x. x\<lparr>aw_capabilities := capabilities\<rparr>))
       (let kind = drop_bit 20 capabilities AND 15
       in bind (gets az_codec_address) (\<lambda>codec.
       bind ((if kind = 4 then query_into (send (azalia_verb codec node 0xF1C 0)) (\<lambda>v. set_widget i (\<lambda>x. x\<lparr>aw_pin_default := v\<rparr>)) else ret True)) (\<lambda>pin.
       if \<not> pin then ret (Some ())
       else bind (gets az_audio_group) (\<lambda>group.
       let format_node = (if capabilities AND 0x10 \<noteq> 0 then node else group)
       in bind ((if kind \<le> 1 then query_into (parameter send format_node 0xA) (\<lambda>v. set_widget i (\<lambda>x. x\<lparr>aw_pcm := v\<rparr>)) else ret True)) (\<lambda>pcm.
       if \<not> pcm then ret (Some ())
       else bind ((if kind \<le> 1 then query_into (parameter send format_node 0xB) (\<lambda>v. set_widget i (\<lambda>x. x\<lparr>aw_formats := v\<rparr>)) else ret True)) (\<lambda>formats.
       if \<not> formats then ret (Some ())
       else andthen (modify (\<lambda>s. s\<lparr>az_widget_count := az_widget_count s + 1\<rparr>))
       (ret None)))))))))))"

text \<open>A node range: first node and count.\<close>

definition node_range :: "u32 \<Rightarrow> nat \<times> nat" where
  "node_range nodes = (unat (drop_bit 16 nodes AND 255), unat (nodes AND 255))"

text \<open>Lines 38 to 60.\<close>

definition probe_widgets :: "send_verb \<Rightarrow> (azalia_state, u32) prog" where
  "probe_widgets send = bind (gets az_audio_group) (\<lambda>group.
    bind (parameter send group 4) (\<lambda>answer.
    (case answer of None \<Rightarrow> finish AZALIA_COMMAND_TIMEOUT | Some nodes \<Rightarrow> let start = fst (node_range nodes)
       in let count = snd (node_range nodes)
       in if start = 0 \<or> count = 0 \<or> count > 64 \<or> start + count > 256 then finish AZALIA_BAD_TOPOLOGY
       else bind (for_until 0 count (scan_widget send start)) (\<lambda>late.
       finish (if late = None then AZALIA_CODEC_READY else AZALIA_COMMAND_TIMEOUT)))))"

definition azalia_probe_codec :: "send_verb option \<Rightarrow> (azalia_state, u32) prog" where
  "azalia_probe_codec pointer = (case pointer of None \<Rightarrow> ret AZALIA_BAD_REQUEST | Some send \<Rightarrow> andthen (modify (\<lambda>s. s\<lparr>az_codec_id := 0, az_audio_group := 0, az_widget_count := 0, az_revision := 0\<rparr>))
    (bind (for_until 0 15 (scan_codec send)) (\<lambda>found.
    if found = Some True then finish AZALIA_COMMAND_TIMEOUT
    else bind (gets az_codec_id) (\<lambda>codec_id.
    if codec_id = 0 then finish AZALIA_CODEC_NOT_FOUND
    else bind (query_into (parameter send 0 2) (\<lambda>v. modify (\<lambda>s. s\<lparr>az_revision := v\<rparr>))) (\<lambda>revision.
    if \<not> revision then finish AZALIA_COMMAND_TIMEOUT
    else bind (parameter send 0 4) (\<lambda>answer.
    (case answer of None \<Rightarrow> finish AZALIA_COMMAND_TIMEOUT | Some nodes \<Rightarrow> let start = fst (node_range nodes)
       in let count = snd (node_range nodes)
       in if start = 0 \<or> count = 0 \<or> start + count > 256 then finish AZALIA_BAD_TOPOLOGY
       else bind (for_until start count (scan_group send)) (\<lambda>found.
       if found = Some True then finish AZALIA_COMMAND_TIMEOUT
       else bind (gets az_audio_group) (\<lambda>group.
       if group = 0 then finish AZALIA_BAD_TOPOLOGY
       else probe_widgets send)))))))))"

section \<open>Ring 1\<close>

text \<open>16-bit and 8-bit registers: the low part of the answer.\<close>

definition mmio_read16 :: "u32 \<Rightarrow> ('s, u16) prog" where
  "mmio_read16 a = bind (mmio_read a) (\<lambda>v. ret (ucast v))"

definition mmio_write16 :: "u32 \<Rightarrow> u16 \<Rightarrow> ('s, unit) prog" where
  "mmio_write16 a v = mmio_write a (ucast v)"

definition await_verb :: "u32 \<Rightarrow> nat \<Rightarrow> (azalia_state, u32 option option) prog" where
  "await_verb command attempt = bind (mmio_read16 (AZALIA_MMIO + 0x68)) (\<lambda>v.
    if v AND 1 \<noteq> 0 \<or> v AND 2 = 0 then ret None
    else if v AND 4 \<noteq> 0 \<and> (v AND 8 \<noteq> 0 \<or> ucast (drop_bit 4 v) \<noteq> drop_bit 28 command) then ret (Some None)
    else bind (mmio_read (AZALIA_MMIO + 0x64)) (\<lambda>response.
    andthen (mmio_write16 (AZALIA_MMIO + 0x68) 2)
    (ret (Some (Some response)))))"

definition immediate_verb :: send_verb where
  "immediate_verb command = bind (mmio_read16 (AZALIA_MMIO + 0x68)) (\<lambda>v.
    if v AND 1 \<noteq> 0 then ret None
    else andthen (mmio_write16 (AZALIA_MMIO + 0x68) 2)
    (andthen (mmio_write (AZALIA_MMIO + 0x60) command)
    (andthen (modify (\<lambda>s. s\<lparr>az_last_command := command, az_commands := az_commands s + 1\<rparr>))
    (andthen (mmio_write16 (AZALIA_MMIO + 0x68) 1)
    (bind (for_until 0 100000 (await_verb command)) (\<lambda>answer.
    (case answer of Some r \<Rightarrow> ret r | None \<Rightarrow> andthen (mmio_write16 (AZALIA_MMIO + 0x68) 0) (ret None))))))))"

text \<open>Lines 126 to 134.\<close>

definition bring_up :: "(azalia_state, unit) prog" where
  "bring_up = bind (mmio_read (AZALIA_MMIO + 8)) (\<lambda>control.
    if control AND 1 = 0 then modify (\<lambda>s. s\<lparr>az_status := AZALIA_LINK_STOPPED\<rparr>)
    else bind (mmio_read (AZALIA_MMIO + 0x4C)) (\<lambda>corb.
    bind ((if corb AND 2 \<noteq> 0 then ret 2 else mmio_read (AZALIA_MMIO + 0x5C))) (\<lambda>rirb.
    if rirb AND 2 \<noteq> 0 then modify (\<lambda>s. s\<lparr>az_status := AZALIA_COMMAND_DMA_ACTIVE\<rparr>)
    else bind (mmio_read16 (AZALIA_MMIO + 0xE)) (\<lambda>mask.
    andthen (modify (\<lambda>s. s\<lparr>az_codec_mask := ucast mask AND 0x7FFF\<rparr>))
    (andthen (azalia_probe_codec (Some immediate_verb))
    (ret ()))))))"

definition azalia_driver_service :: "u32 \<Rightarrow> (azalia_state, u32) prog" where
  "azalia_driver_service operation = bind (get_cpu cpu_cs) (\<lambda>cs.
    if cs AND 3 \<noteq> 1 then ret AZALIA_WRONG_RING
    else if operation > 2 then ret AZALIA_BAD_REQUEST
    else bind (gets az_busy) (\<lambda>busy.
    andthen (modify (\<lambda>s. s\<lparr>az_busy := 1\<rparr>))
    (if busy \<noteq> 0 then ret AZALIA_BUSY
    else andthen (modify (\<lambda>s. s\<lparr>az_observed_cpl := ucast (cs AND 3)\<rparr>))
    (bind (gets az_status) (\<lambda>status.
    andthen (cond (operation = 0 \<and> status \<noteq> AZALIA_CODEC_READY) bring_up)
    (bind (gets (\<lambda>s. if operation = 2 then az_codec_id s else az_status s)) (\<lambda>result.
    andthen (modify (\<lambda>s. s\<lparr>az_busy := 0\<rparr>))
    (ret result))))))))"

section \<open>Kernel half\<close>

definition pci_read :: "u32 \<Rightarrow> u32 \<Rightarrow> ('s, u32) prog" where
  "pci_read pci reg = andthen (out32 0xCF8 (0x80000000 OR pci OR reg)) (in32 0xCFC)"

definition try_function :: "u32 \<Rightarrow> nat \<Rightarrow> (azalia_state, u32 option) prog" where
  "try_function base function_number = (let pci = base OR push_bit 8 (of_nat function_number)
    in bind (pci_read pci 0) (\<lambda>ident.
    if ident AND 0xFFFF = 0xFFFF then ret None
    else bind (pci_read pci 8) (\<lambda>class_code.
    ret (if drop_bit 8 class_code = 0x040300 then Some pci else None))))"

definition try_device :: "nat \<Rightarrow> nat \<Rightarrow> (azalia_state, u32 option) prog" where
  "try_device bus device = (let base = push_bit 16 (of_nat bus) OR push_bit 11 (of_nat device) :: u32
    in bind (pci_read base 0) (\<lambda>ident.
    if ident AND 0xFFFF = 0xFFFF then ret None
    else bind (pci_read base 0xC) (\<lambda>header.
    for_until 0 (if header AND 0x800000 \<noteq> 0 then 8 else 1) (try_function base))))"

definition find_controller :: "(azalia_state, u32) prog" where
  "find_controller = bind (for_until 0 256 (\<lambda>bus. for_until 0 32 (try_device bus))) (\<lambda>found.
     ret (case found of None \<Rightarrow> 0xFFFFFFFF | Some pci \<Rightarrow> pci))"

definition map_page :: "u32 \<Rightarrow> u32 \<Rightarrow> u32 \<Rightarrow> ('s, unit) prog" where
  "map_page address physical flags = bind (kernel_call Get_physical_address [0x30030000, address]) (\<lambda>present.
    if present \<noteq> 0 then panic ''Cannot map Azalia driver memory''
    else bind (kernel_call Map_page [address, physical, flags]) (\<lambda>ok.
    cond (ok = 0) (panic ''Cannot map Azalia driver memory'')))"

definition map_stack :: "nat \<Rightarrow> ('s, unit) prog" where
  "map_stack i = bind (kernel_call Pmm_alloc_page []) (\<lambda>physical.
    if physical = 0 then panic ''No memory for Azalia ring-1 stacks''
    else map_page (AZALIA_STACKS + of_nat i * 0x1000) physical 3)"

text \<open>Lines 171 to 188; the address of \<^verbatim>\<open>azalia_driver_service\<close> is an argument.\<close>

definition install_gate :: "u32 \<Rightarrow> (azalia_state, unit) prog" where
  "install_gate service = andthen (for_each 0 200 map_stack)
    (andthen (mem_apply (\<lambda>m. memset m AZALIA_STACKS 0 819200))
    (bind (kernel_call Gdt_create_code_descriptor [0, 0xFFFFFFFF, 0x20]) (\<lambda>code.
    andthen (modify (\<lambda>s. s\<lparr>az_code_selector := code OR 1\<rparr>))
    (bind (kernel_call Gdt_create_data_descriptor [0, 0xFFFFFFFF, 0x20]) (\<lambda>data.
    andthen (modify (\<lambda>s. s\<lparr>az_data_selector := data OR 1\<rparr>))
    (bind (kernel_call Gdt_alloc_selector []) (\<lambda>gate.
    andthen (modify (\<lambda>s. s\<lparr>az_gate_selector := gate\<rparr>))
    (if code OR 1 = 1 \<or> data OR 1 = 1 \<or> gate = 0 then panic ''Cannot create Azalia ring-1 descriptors''
    else bind (load32 0x80002378) (\<lambda>entry.
    andthen (kernel_call Gdt_write_raw_descriptor [gate, push_bit 16 (code OR 1) OR (entry AND 0xFFFF), (entry AND 0xFFFF0000) OR 0xEC00])
    (andthen (store32 0x8000236C (data OR 1))
    (andthen (store32 0x80002370 service)
    (andthen (store32 0x80002368 (gate OR 3))
    (modify (\<lambda>s. s\<lparr>az_status := AZALIA_CONTROLLER_READY\<rparr>))))))))))))))"

definition bad_bar :: "(azalia_state, unit) prog" where
  "bad_bar = modify (\<lambda>s. s\<lparr>az_status := AZALIA_BAD_BAR\<rparr>)"

text \<open>Lines 154 to 170, then the gate; the condition of lines 160 and 161 reads the second BAR and the command register only when it has to.\<close>

definition bar_usable :: "u32 \<Rightarrow> u32 \<Rightarrow> (azalia_state, bool) prog" where
  "bar_usable pci bar = (let kind = bar AND 7
    in let base = bar AND NOT 0xF
    in if kind \<noteq> 0 \<and> kind \<noteq> 4 then ret False
    else bind ((if kind = 4 then pci_read pci 0x14 else ret 0)) (\<lambda>upper.
    if upper \<noteq> 0 \<or> base < 0x40000000 \<or> base > 0xFFFFC000 \<or> base AND 0x3FFF \<noteq> 0 then ret False
    else bind (pci_read pci 4) (\<lambda>command.
    ret (command AND 2 \<noteq> 0))))"

definition start_controller :: "u32 \<Rightarrow> (azalia_state, unit) prog" where
  "start_controller service = bind (find_controller) (\<lambda>pci.
    if pci = 0xFFFFFFFF then ret ()
    else andthen (modify (\<lambda>s. s\<lparr>az_pci := pci\<rparr>))
    (bind (pci_read pci 0) (\<lambda>ident.
    andthen (modify (\<lambda>s. s\<lparr>az_controller_id := ident\<rparr>))
    (bind (pci_read pci 0x10) (\<lambda>bar.
    bind (bar_usable pci bar) (\<lambda>usable.
    if \<not> usable then bad_bar
    else let base = bar AND NOT 0xF
    in andthen (modify (\<lambda>s. s\<lparr>az_mmio_physical := base\<rparr>))
    (andthen (for_each 0 4 (\<lambda>i. map_page (AZALIA_MMIO + of_nat i * 0x1000) (base + of_nat i * 0x1000) 0x1B))
    (bind (mmio_read16 AZALIA_MMIO) (\<lambda>capabilities.
    andthen (modify (\<lambda>s. s\<lparr>az_capabilities := ucast capabilities\<rparr>))
    (bind (mmio_read16 (AZALIA_MMIO + 0xE)) (\<lambda>mask.
    andthen (modify (\<lambda>s. s\<lparr>az_codec_mask := ucast mask AND 0x7FFF\<rparr>))
    (if capabilities = 0xFFFF then bad_bar
    else install_gate service))))))))))))"

definition azalia_initialize :: "u32 \<Rightarrow> u32 \<Rightarrow> (azalia_state, unit) prog" where
  "azalia_initialize state_address service = bind (get_cpu cpu_if) (\<lambda>enabled.
    if enabled then panic ''Initialize Azalia before enabling interrupts''
    else bind (gets az_initialized) (\<lambda>done.
    if done \<noteq> 0 then ret ()
    else andthen (modify (\<lambda>s. s\<lparr>az_initialized := 1\<rparr>))
    (andthen (store32 0x80002374 state_address)
    (start_controller service))))"

section \<open>Only queries\<close>

text \<open>
  The verbs F00h (get parameter) and F1Ch (get configuration default) read; the driver writes no other
  command, and no other register than the command and its status.
\<close>

definition codec_query :: "u32 \<Rightarrow> bool" where
  "codec_query v \<longleftrightarrow> drop_bit 28 v \<noteq> 15 \<and> drop_bit 8 v AND 0xFFF \<in> {0xF00, 0xF1C}"

fun query_event :: "io_event \<Rightarrow> bool" where
  "query_event (Mmio_write a v) = (a = AZALIA_MMIO + 0x68 \<and> v \<le> 2 \<or> a = AZALIA_MMIO + 0x60 \<and> codec_query v)"
| "query_event (Out8 p v) = False"
| "query_event (Out16 p v) = False"
| "query_event (Out32 p v) = (p = 0xCF8)"
| "query_event ev = True"

lemma bit_below: "(x :: u32) < 2 ^ k \<Longrightarrow> bit x n \<Longrightarrow> n < k"
  by (metis bit_and_iff bit_mask_iff less_mask_eq)

lemma verb_fields:
  assumes "codec < 2 ^ 4" "node < 2 ^ 8" "verb < 2 ^ 12" "payload < (2 :: u32) ^ 8"
  shows "drop_bit 28 (push_bit 28 codec OR push_bit 20 node OR push_bit 8 verb OR payload) = codec"
    "drop_bit 8 (push_bit 28 codec OR push_bit 20 node OR push_bit 8 verb OR payload) AND mask 12 = verb"
proof -
  have b: "\<And>n. bit codec n \<Longrightarrow> n < 4" "\<And>n. bit node n \<Longrightarrow> n < 8" "\<And>n. bit verb n \<Longrightarrow> n < 12" "\<And>n. bit payload n \<Longrightarrow> n < 8"
    using assms bit_below [of codec 4] bit_below [of node 8] bit_below [of verb 12] bit_below [of payload 8] by simp_all
  show "drop_bit 28 (push_bit 28 codec OR push_bit 20 node OR push_bit 8 verb OR payload) = codec"
    by (rule bit_word_eqI) (auto simp: bit_or_iff bit_push_bit_iff bit_drop_bit_eq dest: b)
  show "drop_bit 8 (push_bit 28 codec OR push_bit 20 node OR push_bit 8 verb OR payload) AND mask 12 = verb"
    by (rule bit_word_eqI) (auto simp: bit_or_iff bit_and_iff bit_push_bit_iff bit_drop_bit_eq bit_mask_iff dest: b)
qed

lemma azalia_verb_query:
  assumes "codec < 15" "node < 256" "verb \<in> {0xF00, 0xF1C}" "payload < 256"
  shows "codec_query (azalia_verb codec node verb payload)"
proof -
  have small: "\<not> codec > 14" "\<not> node > 255" "\<not> verb > 0xFFF" "\<not> payload > 255"
    and "codec < 2 ^ 4" "node < 2 ^ 8" "verb < 2 ^ 12" "payload < 2 ^ 8" "codec \<noteq> 15"
    using assms by (auto simp: word_less_nat_alt)
  then show ?thesis
    using assms(3) verb_fields [of codec node verb payload] by (simp add: codec_query_def azalia_verb_def mask_eq_exp_minus_1)
qed

section \<open>Every run\<close>

text \<open>
  \<^verbatim>\<open>asks P m Q\<close>: from a world with \<open>P\<close>, a run of \<open>m\<close> returns with \<open>Q\<close>, or panics with a good trace;
  no run hangs.
\<close>

definition good_trace :: "io_event list \<Rightarrow> 's world \<Rightarrow> bool" where
  "good_trace h w \<longleftrightarrow> (\<exists>new. io w = new @ h \<and> list_all query_event new)"

definition asks :: "io_event list \<Rightarrow> ('s world \<Rightarrow> bool) \<Rightarrow> ('s, 'a) prog \<Rightarrow> ('a \<Rightarrow> 's world \<Rightarrow> bool) \<Rightarrow> bool" where
  "asks h P m Q \<longleftrightarrow> (\<forall>e w. P w \<longrightarrow> (case m e w of Done x w' \<Rightarrow> Q x w' | Panicked msg w' \<Rightarrow> good_trace h w' | Unfinished w' \<Rightarrow> False))"

lemma asks_bind:
  assumes "asks h P m R" "\<And>x. asks h (R x) (f x) Q"
  shows "asks h P (bind m f) Q"
  unfolding asks_def
proof (intro allI impI)
  fix e w
  assume "P w"
  then have m: "case m e w of Done x w' \<Rightarrow> R x w' | Panicked msg w' \<Rightarrow> good_trace h w' | Unfinished w' \<Rightarrow> False"
    using assms(1) by (simp add: asks_def)
  show "case bind m f e w of Done x w' \<Rightarrow> Q x w' | Panicked msg w' \<Rightarrow> good_trace h w' | Unfinished w' \<Rightarrow> False"
  proof (cases "m e w")
    case (Done x v)
    then show ?thesis using m assms(2) [of x] by (simp add: run_bind asks_def)
  qed (use m in \<open>simp_all add: run_bind\<close>)
qed

lemma asks_andthen: "asks h P m (\<lambda>_. R) \<Longrightarrow> asks h R n Q \<Longrightarrow> asks h P (andthen m n) Q"
  unfolding andthen_def by (rule asks_bind)

lemma asks_gets: "(\<And>w. P w \<Longrightarrow> asks h P (f (g (vars w))) Q) \<Longrightarrow> asks h P (bind (gets g) f) Q"
  by (simp add: asks_def run_bind run_gets)

lemma asks_ret: "(\<And>w. P w \<Longrightarrow> Q x w) \<Longrightarrow> asks h P (ret x) Q"
  by (simp add: asks_def run_ret)

lemma asks_if: "(b \<Longrightarrow> asks h P m Q) \<Longrightarrow> (\<not> b \<Longrightarrow> asks h P n Q) \<Longrightarrow> asks h P (if b then m else n) Q"
  by simp

lemma asks_option: "(x = None \<Longrightarrow> asks h P m Q) \<Longrightarrow> (\<And>y. x = Some y \<Longrightarrow> asks h P (f y) Q) \<Longrightarrow> asks h P (case x of None \<Rightarrow> m | Some y \<Rightarrow> f y) Q"
  by (simp split: option.split)

lemma asks_weaken: "asks h P m R \<Longrightarrow> (\<And>x w. R x w \<Longrightarrow> Q x w) \<Longrightarrow> asks h P m Q"
  unfolding asks_def by (fastforce split: outcome.splits)

lemma asks_for_until:
  assumes "\<And>j. i \<le> j \<Longrightarrow> j < i + n \<Longrightarrow> asks h (P j) (body j) (\<lambda>_. P (Suc j))" "\<And>j w. P j w \<Longrightarrow> P (Suc j) w"
  shows "asks h (P i) (for_until i n body) (\<lambda>_. P (i + n))"
  using assms(1)
proof (induction n arbitrary: i)
  case 0
  then show ?case by (simp add: asks_ret)
next
  case (Suc n)
  have up: "P j w \<Longrightarrow> P (j + k) w" for j k w by (induction k) (simp_all add: assms(2))
  have "asks h (P (Suc i)) (for_until (Suc i) n body) (\<lambda>_. P (i + Suc n))" using Suc.IH [of "Suc i"] Suc.prems by simp
  moreover have "asks h (P i) (body i) (\<lambda>_. P (Suc i))" using Suc.prems by simp
  moreover have "P (Suc i) w \<Longrightarrow> P (i + Suc n) w" for w using up [of "Suc i" w n] by simp
  ultimately show ?case by (auto intro!: asks_bind [of _ _ _ "\<lambda>_. P (Suc i)"] asks_option asks_ret)
qed

lemma asks_for_each: "(\<And>j. asks h P (body j) (\<lambda>_. P)) \<Longrightarrow> asks h P (for_each i n body) (\<lambda>_. P)"
  by (induction n arbitrary: i) (simp_all add: asks_ret asks_andthen [where R = P])

text \<open>The state between two steps: node numbers and the codec address fit a verb, the widgets found fit the table.\<close>

definition azalia_ok :: "u32 \<Rightarrow> nat \<Rightarrow> azalia_state \<Rightarrow> bool" where
  "azalia_ok b k s \<longleftrightarrow> az_busy s = b \<and> az_codec_address s < 15 \<and> az_audio_group s < 256 \<and> length (az_widgets s) = 64 \<and> unat (az_widget_count s) \<le> k"

abbreviation (input) sane :: "io_event list \<Rightarrow> u32 \<Rightarrow> nat \<Rightarrow> azalia_state world \<Rightarrow> bool" where
  "sane h b k w \<equiv> good_trace h w \<and> azalia_ok b k (vars w)"

lemma sane_modify: "(\<And>s. azalia_ok b k s \<Longrightarrow> azalia_ok b k (f s)) \<Longrightarrow> asks h (sane h b k) (modify f) (\<lambda>_. sane h b k)"
  by (simp add: asks_def run_modify good_trace_def)

lemma good_trace_step: "query_event ev \<Longrightarrow> good_trace h w \<Longrightarrow> good_trace h (w\<lparr>io := ev # io w\<rparr>)"
  unfolding good_trace_def
proof -
  assume "query_event ev" "\<exists>new. io w = new @ h \<and> list_all query_event new"
  then obtain new where "io w = new @ h" "list_all query_event (ev # new)" by auto
  then show "\<exists>new. io (w\<lparr>io := ev # io w\<rparr>) = new @ h \<and> list_all query_event new" by (intro exI [of _ "ev # new"]) simp
qed

lemma sane_prims:
  "asks h (sane h b k) (mmio_read a) (\<lambda>_. sane h b k)" "asks h (sane h b k) (mmio_read16 a) (\<lambda>_. sane h b k)"
  "asks h (sane h b k) (kernel_call fn args) (\<lambda>_. sane h b k)" "asks h (sane h b k) (Azalia.pci_read pci reg) (\<lambda>_. sane h b k)"
  "asks h (sane h b k) (load32 a) (\<lambda>_. sane h b k)" "asks h (sane h b k) (store32 a v) (\<lambda>_. sane h b k)"
  "asks h (sane h b k) (mem_apply g) (\<lambda>_. sane h b k)" "asks h (sane h b k) (get_cpu c) (\<lambda>_. sane h b k)" "asks h (sane h b k) (panic msg) Q"
  "asks h (sane h b k) (gets f) (\<lambda>_. sane h b k)"
proof -
  have "good_trace h (w\<lparr>io := In32 p x # Out32 0xCF8 v # io w\<rparr>)" if "good_trace h w" for p x v and w :: "azalia_state world"
    using good_trace_step [of "In32 p x" h "w\<lparr>io := Out32 0xCF8 v # io w\<rparr>"] good_trace_step [of "Out32 0xCF8 v" h w] that by simp
  then show "asks h (sane h b k) (Azalia.pci_read pci reg) (\<lambda>_. sane h b k)"
    by (simp add: asks_def Azalia.pci_read_def prog_simps)
qed (simp_all add: asks_def mmio_read16_def prog_simps good_trace_step, simp_all add: good_trace_def)

lemma sane_write: "query_event (Mmio_write a v) \<Longrightarrow> asks h (sane h b k) (mmio_write a v) (\<lambda>_. sane h b k)"
  by (simp add: asks_def prog_simps good_trace_step del: query_event.simps)

lemma sane_write16: "v \<le> 2 \<Longrightarrow> asks h (sane h b k) (mmio_write16 (AZALIA_MMIO + 0x68) v) (\<lambda>_. sane h b k)"
  unfolding mmio_write16_def by (rule sane_write) (simp add: word_le_nat_alt unsigned_ucast_eq)

lemmas sane_steps = sane_prims sane_write16 asks_if asks_option

text \<open>The immediate command interface.\<close>

lemma sane_any: "asks h (sane h b k) m (\<lambda>_. sane h b k) \<Longrightarrow> (\<And>x. asks h (sane h b k) (f x) Q) \<Longrightarrow> asks h (sane h b k) (bind m f) Q"
  by (rule asks_bind)

lemma sane_then: "asks h (sane h b k) m (\<lambda>_. sane h b k) \<Longrightarrow> asks h (sane h b k) n Q \<Longrightarrow> asks h (sane h b k) (andthen m n) Q"
  by (rule asks_andthen)

lemma sane_ret: "asks h (sane h b k) (ret x) (\<lambda>_. sane h b k)"
  by (rule asks_ret)

lemma sane_until: "(\<And>j. i \<le> j \<Longrightarrow> j < i + n \<Longrightarrow> asks h (sane h b k) (body j) (\<lambda>_. sane h b k)) \<Longrightarrow> asks h (sane h b k) (for_until i n body) (\<lambda>_. sane h b k)"
  using asks_for_until [of i n h "\<lambda>_. sane h b k" body] by simp

lemma immediate_verb_sane:
  assumes "codec_query command"
  shows "asks h (sane h b k) (immediate_verb command) (\<lambda>_. sane h b k)"
proof -
  have "asks h (sane h b k) (mmio_write (AZALIA_MMIO + 0x60) command) (\<lambda>_. sane h b k)"
    by (rule sane_write) (simp add: assms)
  then show ?thesis
    unfolding immediate_verb_def await_verb_def
    by (intro sane_any sane_then sane_steps sane_until sane_ret sane_modify) (simp_all add: azalia_ok_def)
qed

lemma parameter_sane:
  assumes "node < 256" "ident < 256"
  shows "asks h (sane h b k) (parameter immediate_verb node ident) (\<lambda>_. sane h b k)"
  unfolding parameter_def
  by (rule asks_gets, rule immediate_verb_sane, rule azalia_verb_query) (use assms in \<open>simp_all add: azalia_ok_def\<close>)

lemma scan_codec_sane: "codec < 15 \<Longrightarrow> asks h (sane h b k) (scan_codec immediate_verb codec) (\<lambda>_. sane h b k)"
  unfolding scan_codec_def
  by (intro sane_any sane_then sane_steps sane_ret sane_modify parameter_sane)
    (simp_all add: azalia_ok_def word_less_nat_alt unat_of_nat)

lemma scan_group_sane: "node < 256 \<Longrightarrow> asks h (sane h b k) (scan_group immediate_verb node) (\<lambda>_. sane h b k)"
  unfolding scan_group_def
  by (intro sane_any sane_then sane_steps sane_ret sane_modify parameter_sane)
    (simp_all add: azalia_ok_def word_less_nat_alt unat_of_nat)

lemma set_widget_sane: "asks h (sane h b k) (set_widget i f) (\<lambda>_. sane h b k)"
  unfolding set_widget_def by (rule sane_modify) (simp add: azalia_ok_def)

lemma query_into_sane: "asks h (sane h b k) q (\<lambda>_. sane h b k) \<Longrightarrow> (\<And>v. asks h (sane h b k) (f v) (\<lambda>_. sane h b k)) \<Longrightarrow>
    asks h (sane h b k) (query_into q f) (\<lambda>_. sane h b k)"
  unfolding query_into_def by (intro sane_any sane_then sane_steps sane_ret)

text \<open>One widget adds at most one to the count.\<close>

lemma scan_widget_sane:
  assumes "start + i < 256" "i < 64"
  shows "asks h (sane h b i) (scan_widget immediate_verb start i) (\<lambda>_. sane h b (Suc i))"
proof -
  have node: "(of_nat (start + i) :: u32) < 256" using assms(1) by (simp add: word_less_nat_alt unat_of_nat del: of_nat_add)
  have pin: "asks h (sane h b i) (bind (gets az_codec_address) (\<lambda>codec.
      bind (if kind = 4 then query_into (immediate_verb (azalia_verb codec (of_nat (start + i)) 0xF1C 0)) (\<lambda>v. set_widget i (g v)) else ret True) (f codec))) Q"
    if "\<And>codec x. asks h (sane h b i) (f codec x) Q" for kind :: u32 and f g Q
    by (rule asks_gets, intro sane_any that asks_if query_into_sane immediate_verb_sane azalia_verb_query set_widget_sane sane_ret)
      (use node in \<open>simp_all add: azalia_ok_def\<close>)
  have group: "asks h (sane h b i) (bind (gets az_audio_group) f) Q" if "\<And>group. group < 256 \<Longrightarrow> asks h (sane h b i) (f group) Q" for f Q
    by (rule asks_gets, rule that) (simp add: azalia_ok_def)
  have count: "asks h (sane h b i) (andthen (modify (\<lambda>s. s\<lparr>az_widget_count := az_widget_count s + 1\<rparr>)) (ret None)) (\<lambda>_. sane h b (Suc i))"
    using assms(2) by (auto simp: asks_def prog_simps good_trace_def azalia_ok_def unat_word_ariths)
  have early: "asks h (sane h b i) (ret x) (\<lambda>_. sane h b (Suc i))" for x
    by (rule asks_ret) (use assms(2) in \<open>simp add: azalia_ok_def\<close>)
  show ?thesis
    unfolding scan_widget_def Let_def
    by (intro sane_then set_widget_sane sane_any [OF parameter_sane] asks_option early pin group asks_if count
        sane_any [OF asks_if [OF query_into_sane [OF parameter_sane set_widget_sane] sane_ret]]) (use node in simp_all)
qed

lemma node_range_bounds: "fst (node_range n) < 256" "snd (node_range n) < 256"
proof -
  have "unat (x AND 255) < 256" for x :: u32 using word_and_le1 [of x 255] by (simp add: word_le_nat_alt)
  then show "fst (node_range n) < 256" "snd (node_range n) < 256" by (simp_all add: node_range_def)
qed

lemma finish_sane: "k \<le> 64 \<Longrightarrow> asks h (sane h b k) (finish status) (\<lambda>_. sane h b 64)"
  by (auto simp: asks_def finish_def prog_simps good_trace_def azalia_ok_def)

lemma probe_widgets_sane: "asks h (sane h b 0) (probe_widgets immediate_verb) (\<lambda>_. sane h b 64)"
proof -
  have loop: "asks h (sane h b 0) (for_until 0 count (scan_widget immediate_verb start)) (\<lambda>_. sane h b 64)"
    if "\<not> (start = 0 \<or> count = 0 \<or> 64 < count \<or> 256 < start + count)" for start count
  proof -
    have "asks h (sane h b 0) (for_until 0 count (scan_widget immediate_verb start)) (\<lambda>_. sane h b (0 + count))"
    proof (rule asks_for_until [where P = "sane h b"])
      show "asks h (sane h b j) (scan_widget immediate_verb start j) (\<lambda>_. sane h b (Suc j))" if "j < 0 + count" for j
        using that \<open>\<not> (start = 0 \<or> count = 0 \<or> 64 < count \<or> 256 < start + count)\<close> by (intro scan_widget_sane) simp_all
    qed (simp add: azalia_ok_def)
    then show ?thesis by (rule asks_weaken) (use that in \<open>simp add: azalia_ok_def\<close>)
  qed
  have group: "asks h (sane h b 0) (bind (gets az_audio_group) f) Q" if "\<And>group. group < 256 \<Longrightarrow> asks h (sane h b 0) (f group) Q" for f Q
    by (rule asks_gets, rule that) (simp add: azalia_ok_def)
  show ?thesis
    unfolding probe_widgets_def Let_def
    by (intro group sane_any [OF parameter_sane] asks_option asks_if asks_bind [OF loop] finish_sane) simp_all
qed

lemma probe_codec_sane: "asks h (sane h b k) (azalia_probe_codec (Some immediate_verb)) (\<lambda>_. sane h b 64)"
proof -
  have reset: "asks h (sane h b k) (modify (\<lambda>s. s\<lparr>az_codec_id := 0, az_audio_group := 0, az_widget_count := 0, az_revision := 0\<rparr>)) (\<lambda>_. sane h b 0)"
    by (simp add: asks_def run_modify good_trace_def azalia_ok_def)
  have groups: "asks h (sane h b 0) (for_until (fst (node_range nodes)) (snd (node_range nodes)) (scan_group immediate_verb)) (\<lambda>_. sane h b 0)"
    if "\<not> (fst (node_range nodes) = 0 \<or> snd (node_range nodes) = 0 \<or> 256 < fst (node_range nodes) + snd (node_range nodes))" for nodes
    by (rule sane_until, rule scan_group_sane) (use that in simp)
  show ?thesis
    unfolding azalia_probe_codec_def Let_def option.case
    by (intro asks_andthen [OF reset] sane_any [OF sane_until [OF scan_codec_sane]] sane_any [OF sane_prims(10)]
        sane_any [OF query_into_sane [OF parameter_sane sane_modify]] sane_any [OF parameter_sane] sane_any [OF groups]
        asks_if asks_option finish_sane probe_widgets_sane) (simp_all add: azalia_ok_def)
qed

lemma service_sane: "asks h (sane h 0 64) (azalia_driver_service operation) (\<lambda>_. sane h 0 64)"
proof -
  have bring: "asks h (sane h b 64) bring_up (\<lambda>_. sane h b 64)" for b
    unfolding bring_up_def
    by (intro sane_any sane_then [OF probe_codec_sane] sane_then sane_steps sane_ret sane_modify) (simp_all add: azalia_ok_def)
  have lock: "asks h (sane h 0 64) (modify (\<lambda>s. s\<lparr>az_busy := 1\<rparr>)) (\<lambda>_. sane h 1 64)"
    and unlock: "asks h (sane h 1 64) (modify (\<lambda>s. s\<lparr>az_busy := 0\<rparr>)) (\<lambda>_. sane h 0 64)"
    by (simp_all add: asks_def run_modify good_trace_def azalia_ok_def)
  have free: "asks h (sane h 0 64) (bind (gets az_busy) f) Q" if "asks h (sane h 0 64) (f 0) Q" for f and Q :: "u32 \<Rightarrow> azalia_state world \<Rightarrow> bool"
    using that by (simp add: asks_def run_bind run_gets azalia_ok_def)
  show ?thesis
    unfolding azalia_driver_service_def cond_def
    by (rule sane_any, rule sane_prims, intro asks_if sane_ret free asks_andthen [OF lock])
      (simp, intro sane_any sane_then asks_andthen [OF unlock] sane_steps sane_ret sane_modify bring, simp_all add: azalia_ok_def)
qed

lemma initialize_sane: "asks h (sane h b 64) (azalia_initialize state_address service) (\<lambda>_. sane h b 64)"
proof -
  have map: "asks h (sane h b 64) (map_page a p f) (\<lambda>_. sane h b 64)" for a p f
    unfolding map_page_def cond_def by (intro sane_any sane_steps sane_ret)
  then have "asks h (sane h b 64) (map_stack i) (\<lambda>_. sane h b 64)" for i
    unfolding map_stack_def by (intro sane_any sane_steps)
  then have gate: "asks h (sane h b 64) (install_gate service) (\<lambda>_. sane h b 64)"
    unfolding install_gate_def by (intro sane_any sane_then sane_steps asks_for_each sane_modify) (simp_all add: azalia_ok_def)
  have find: "asks h (sane h b 64) find_controller (\<lambda>_. sane h b 64)"
    unfolding find_controller_def try_device_def try_function_def Let_def by (intro sane_any sane_steps sane_until sane_ret)
  have bar: "asks h (sane h b 64) (bar_usable pci bar) (\<lambda>_. sane h b 64)" for pci bar
    unfolding bar_usable_def Let_def by (intro sane_any sane_steps sane_ret)
  have "asks h (sane h b 64) (Azalia.start_controller service) (\<lambda>_. sane h b 64)"
    unfolding Azalia.start_controller_def bad_bar_def Let_def
    by (intro sane_any [OF find] sane_any [OF bar] sane_any sane_then sane_steps sane_ret asks_for_each map gate sane_modify) (simp_all add: azalia_ok_def)
  then show ?thesis
    unfolding azalia_initialize_def by (intro sane_any sane_then sane_steps sane_ret sane_modify) (simp_all add: azalia_ok_def)
qed

section \<open>Property\<close>

definition azalia_zero :: azalia_state where
  "azalia_zero = \<lparr>az_status = 0, az_pci = 0, az_controller_id = 0, az_mmio_physical = 0, az_capabilities = 0, az_codec_mask = 0,
     az_codec_address = 0, az_codec_id = 0, az_revision = 0, az_audio_group = 0, az_widget_count = 0, az_code_selector = 0,
     az_data_selector = 0, az_gate_selector = 0, az_busy = 0, az_observed_cpl = 0, az_commands = 0, az_last_command = 0,
     az_widgets = replicate 64 \<lparr>aw_node = 0, aw_capabilities = 0, aw_pin_default = 0, aw_pcm = 0, aw_formats = 0\<rparr>, az_initialized = 0\<rparr>"

datatype azalia_call = Audio_initialize u32 u32 | Audio_request u32

fun azalia_run :: "azalia_call \<Rightarrow> (azalia_state, unit) prog" where
  "azalia_run (Audio_initialize state_address service) = azalia_initialize state_address service"
| "azalia_run (Audio_request operation) = andthen (azalia_driver_service operation) (ret ())"

fun azalia_session :: "azalia_call list \<Rightarrow> (azalia_state, unit) prog" where
  "azalia_session [] = ret ()"
| "azalia_session (c # cs) = andthen (azalia_run c) (azalia_session cs)"

lemma azalia_session_sane: "asks h (sane h 0 64) (azalia_session cs) (\<lambda>_. sane h 0 64)"
proof (induction cs)
  case (Cons c cs)
  have "asks h (sane h 0 64) (azalia_run c) (\<lambda>_. sane h 0 64)"
    by (cases c) (simp_all add: initialize_sane sane_then [OF service_sane] sane_ret)
  then show ?case using Cons by (simp add: sane_then)
qed (simp add: sane_ret)

text \<open>
  C39: audio bring-up is query only and bounded. Initialise the driver and let processes send any
  requests, in any order: whatever the PCI bus, the controller and the codec answer, every call comes back (or
  the initialisation panics), the service is left unlocked, at most 64 widgets are recorded, each in its table, and
  the only outputs are PCI configuration addresses, the status of the immediate command register and commands that
  are well formed get-parameter or get-default-configuration verbs for a codec address below 15; so no
  codec setting is changed and no DMA engine is started.
\<close>

theorem azalia_only_queries:
  "let r = azalia_session cs e (w0\<lparr>vars := azalia_zero\<rparr>)
   in good_trace (io w0) (final r) \<and>
      (case r of Done x w' \<Rightarrow> azalia_ok 0 64 (vars w') | Panicked msg w' \<Rightarrow> True | Unfinished w' \<Rightarrow> False)"
proof -
  have "sane (io w0) 0 64 (w0\<lparr>vars := azalia_zero\<rparr>)" by (simp add: good_trace_def azalia_ok_def azalia_zero_def)
  then show ?thesis
    using azalia_session_sane [of "io w0" cs, unfolded asks_def, rule_format, of "w0\<lparr>vars := azalia_zero\<rparr>" e]
    by (cases "azalia_session cs e (w0\<lparr>vars := azalia_zero\<rparr>)") (simp_all add: Let_def)
qed

end
