(* ===== verification/Ps2.thy ===== *)
theory Ps2
  imports Keyboard Machine
begin

text \<open>
  \<^verbatim>\<open>Drivers/Keyboard/Ps2Keyboard.c\<close>: the 8042 controller bring-up with its bounded
  polling loops, the I/O APIC route, and the keyboard interrupt handler that feeds the
  queue of \<^verbatim>\<open>Keyboard\<close>.
\<close>

section \<open>State\<close>

record ps2_vars =
  ps2_keyboard_interrupt_count :: u32
  ps2_keyboard_dropped_count :: u32
  ps2_keyboard_last_scancode :: u8
  ps2_callback_installed :: bool
  keyboard_ready :: u32
  kbd_queue :: keyboard_shared

abbreviation (input) PS2_DATA_PORT :: u16 where "PS2_DATA_PORT \<equiv> 0x60"
abbreviation (input) PS2_STATUS_PORT :: u16 where "PS2_STATUS_PORT \<equiv> 0x64"
abbreviation (input) PS2_COMMAND_PORT :: u16 where "PS2_COMMAND_PORT \<equiv> 0x64"
abbreviation (input) PS2_STATUS_OUTPUT_FULL :: u8 where "PS2_STATUS_OUTPUT_FULL \<equiv> 0x01"
abbreviation (input) PS2_STATUS_INPUT_FULL :: u8 where "PS2_STATUS_INPUT_FULL \<equiv> 0x02"
abbreviation (input) PS2_STATUS_AUX_DATA :: u8 where "PS2_STATUS_AUX_DATA \<equiv> 0x20"
abbreviation (input) PS2_IO_TIMEOUT :: nat where "PS2_IO_TIMEOUT \<equiv> 1000000"
abbreviation (input) PS2_KEYBOARD_VECTOR :: u32 where "PS2_KEYBOARD_VECTOR \<equiv> 0x31"
abbreviation (input) IOAPIC_SELECT :: u32 where "IOAPIC_SELECT \<equiv> 0xFEC00000"
abbreviation (input) IOAPIC_WINDOW :: u32 where "IOAPIC_WINDOW \<equiv> 0xFEC00010"
abbreviation (input) LAPIC_ID :: u32 where "LAPIC_ID \<equiv> 0xFEE00020"

section \<open>Interrupt routing\<close>

definition ioapic_read :: "u32 \<Rightarrow> ('s, u32) prog" where
  "ioapic_read index = andthen (mmio_write IOAPIC_SELECT index) (mmio_read IOAPIC_WINDOW)"

definition ioapic_write :: "u32 \<Rightarrow> u32 \<Rightarrow> ('s, unit) prog" where
  "ioapic_write index value =
     andthen (mmio_write IOAPIC_SELECT index) (mmio_write IOAPIC_WINDOW value)"

definition ps2_route_keyboard_interrupt :: "('s, u32) prog" where
  "ps2_route_keyboard_interrupt =
     bind (ioapic_read 1) (\<lambda>version.
       let maximum_redirection = drop_bit 16 version AND 0xFF; low_register = 0x10 + 1 * 2
       in if maximum_redirection < 1 then ret 0
          else bind (mmio_read LAPIC_ID) (\<lambda>lapic_id.
            andthen (ioapic_write (low_register + 1) (lapic_id AND 0xFF000000))
              (andthen (ioapic_write low_register PS2_KEYBOARD_VECTOR) (ret 1))))"

section \<open>Controller access\<close>

definition ps2_wait_input_empty :: "('s, u32) prog" where
  "ps2_wait_input_empty =
     bind (for_until 0 PS2_IO_TIMEOUT (\<lambda>_.
         bind (in8 PS2_STATUS_PORT) (\<lambda>status.
           ret (if status AND PS2_STATUS_INPUT_FULL = 0 then Some 1 else None))))
       (\<lambda>r. ret (case r of Some x \<Rightarrow> x | None \<Rightarrow> 0))"

definition ps2_wait_output_full :: "('s, u32) prog" where
  "ps2_wait_output_full =
     bind (for_until 0 PS2_IO_TIMEOUT (\<lambda>_.
         bind (in8 PS2_STATUS_PORT) (\<lambda>status.
           ret (if status AND PS2_STATUS_OUTPUT_FULL \<noteq> 0 then Some 1 else None))))
       (\<lambda>r. ret (case r of Some x \<Rightarrow> x | None \<Rightarrow> 0))"

definition ps2_write_command :: "u8 \<Rightarrow> ('s, u32) prog" where
  "ps2_write_command command =
     bind ps2_wait_input_empty (\<lambda>ready.
       if ready = 0 then ret 0 else andthen (out8 PS2_COMMAND_PORT command) (ret 1))"

definition ps2_write_data :: "u8 \<Rightarrow> ('s, u32) prog" where
  "ps2_write_data value =
     bind ps2_wait_input_empty (\<lambda>ready.
       if ready = 0 then ret 0 else andthen (out8 PS2_DATA_PORT value) (ret 1))"

text \<open>
  The output pointer is the address of a local in every call, so its NULL test never fires;
  \<open>None\<close> is the return value 0.
\<close>

definition ps2_read_data :: "('s, u8 option) prog" where
  "ps2_read_data =
     bind ps2_wait_output_full (\<lambda>ready.
       if ready = 0 then ret None else bind (in8 PS2_DATA_PORT) (\<lambda>v. ret (Some v)))"

definition ps2_flush_output :: "('s, unit) prog" where
  "ps2_flush_output =
     bind (for_until 0 256 (\<lambda>_.
         bind (in8 PS2_STATUS_PORT) (\<lambda>status.
           if status AND PS2_STATUS_OUTPUT_FULL \<noteq> 0
           then bind (in8 PS2_DATA_PORT) (\<lambda>_. ret None) else ret (Some ()))))
       (\<lambda>_. ret ())"

definition ps2_write_config :: "u8 \<Rightarrow> ('s, u32) prog" where
  "ps2_write_config configuration =
     bind (ps2_write_command 0x60) (\<lambda>ok.
       if ok \<noteq> 0 then bind (ps2_write_data configuration) (\<lambda>ok. ret (c_bool (ok \<noteq> 0))) else ret 0)"

text \<open>A command whose answer byte has to be the expected one.\<close>

definition ps2_expect :: "('s, u32) prog \<Rightarrow> u8 \<Rightarrow> ('s, u32) prog \<Rightarrow> ('s, u32) prog" where
  "ps2_expect request expected rest =
     bind request (\<lambda>ok. if ok = 0 then ret 0
       else bind ps2_read_data (\<lambda>response.
         if response \<noteq> Some expected then ret 0 else rest))"

text \<open>
  The configuration byte while the controller is being tested (both interrupts and the
  translation off) and the one in force afterwards.
\<close>

definition ps2_quiet_config :: "u8 \<Rightarrow> u8" where
  "ps2_quiet_config configuration = configuration AND NOT (0x01 OR 0x02 OR 0x40)"

definition ps2_active_config :: "u8 \<Rightarrow> u8" where
  "ps2_active_config configuration =
     ((configuration OR (0x01 OR 0x40)) AND NOT (0x02 OR 0x10)) OR 0x20"

definition ps2_start_device :: "u8 \<Rightarrow> ('s, u32) prog" where
  "ps2_start_device configuration =
     ps2_expect (ps2_write_data 0xF4) 0xFA
       (bind (ps2_write_config (ps2_active_config configuration)) (\<lambda>ok.
          if ok = 0 then ret 0 else
          bind ps2_route_keyboard_interrupt (\<lambda>ok. if ok = 0 then ret 0 else ret 1)))"

definition ps2_test_and_start :: "u8 \<Rightarrow> ('s, u32) prog" where
  "ps2_test_and_start configuration =
     ps2_expect (ps2_write_command 0xAA) 0x55
       (ps2_expect (ps2_write_command 0xAB) 0x00
         (bind (ps2_write_command 0xAE) (\<lambda>ok.
            if ok = 0 then ret 0 else ps2_start_device configuration)))"

definition ps2_configure :: "('s, u32) prog" where
  "ps2_configure =
     bind (ps2_write_command 0xAD) (\<lambda>ok. if ok = 0 then ret 0 else
     bind (ps2_write_command 0xA7) (\<lambda>ok. if ok = 0 then ret 0 else
     andthen ps2_flush_output
       (bind (ps2_write_command 0x20) (\<lambda>ok. if ok = 0 then ret 0 else
        bind ps2_read_data (\<lambda>answer. case answer of None \<Rightarrow> ret 0
        | Some configuration \<Rightarrow>
            bind (ps2_write_config (ps2_quiet_config configuration)) (\<lambda>ok.
              if ok = 0 then ret 0 else ps2_test_and_start (ps2_quiet_config configuration)))))))"

definition ps2_reset_vars :: "ps2_vars \<Rightarrow> ps2_vars" where
  "ps2_reset_vars v = v\<lparr>ps2_keyboard_interrupt_count := 0, ps2_keyboard_dropped_count := 0,
     ps2_keyboard_last_scancode := 0\<rparr>"

definition ps2_keyboard_initialize :: "(ps2_vars, u32) prog" where
  "ps2_keyboard_initialize =
     andthen (modify ps2_reset_vars)
    (bind (gets keyboard_ready) (\<lambda>ready.
     andthen (kassert_msg (ready \<noteq> 0) ''Keyboard driver queue is not mapped'')
    (andthen (modify (\<lambda>v. v\<lparr>kbd_queue := (kbd_queue v)\<lparr>head := 0, tail := 0\<rparr>\<rparr>))
    (andthen (modify (\<lambda>v. v\<lparr>ps2_callback_installed := True\<rparr>))
     ps2_configure))))"

section \<open>The interrupt handler\<close>

text \<open>
  \<open>frame_vector\<close> is the vector of the interrupt frame, \<open>None\<close> for a NULL frame.
\<close>

definition ps2_count_drop :: "ps2_vars \<Rightarrow> ps2_vars" where
  "ps2_count_drop v = v\<lparr>ps2_keyboard_dropped_count := ps2_keyboard_dropped_count v + 1,
     kbd_queue := (kbd_queue v)\<lparr>dropped := dropped (kbd_queue v) + 1\<rparr>\<rparr>"

definition ps2_accept :: "u8 \<Rightarrow> ps2_vars \<Rightarrow> ps2_vars" where
  "ps2_accept scancode v =
     (let v1 = v\<lparr>ps2_keyboard_last_scancode := scancode\<rparr>; q = kbd_queue v1
      in if (head q + 1) AND 255 = tail q then ps2_count_drop v1
         else v1\<lparr>kbd_queue := keyboard_enqueue scancode q\<rparr>)"

definition ps2_keyboard_interrupt :: "u32 option \<Rightarrow> (ps2_vars, unit) prog" where
  "ps2_keyboard_interrupt frame_vector =
     (if frame_vector \<noteq> Some PS2_KEYBOARD_VECTOR then panic ''Invalid PS/2 keyboard interrupt frame''
      else andthen (modify (\<lambda>v. v\<lparr>ps2_keyboard_interrupt_count := ps2_keyboard_interrupt_count v + 1\<rparr>))
       (bind (in8 PS2_STATUS_PORT) (\<lambda>status.
          if status AND PS2_STATUS_OUTPUT_FULL = 0 then ret ()
          else bind (in8 PS2_DATA_PORT) (\<lambda>scancode.
            if status AND PS2_STATUS_AUX_DATA \<noteq> 0 then ret ()
            else if status AND 0xC0 \<noteq> 0 then modify ps2_count_drop
            else modify (ps2_accept scancode)))))"

section \<open>Lemmas\<close>

lemma ps2_accept_queue:
  "kbd_queue (ps2_accept b v) = keyboard_enqueue b (kbd_queue v)"
  by (simp add: ps2_accept_def Let_def ps2_count_drop_def keyboard_enqueue_def)

text \<open>Only the route function touches the window register of the I/O APIC.\<close>

definition window_write :: "io_event \<Rightarrow> bool" where
  "window_write ev = (case ev of Mmio_write a _ \<Rightarrow> a = IOAPIC_WINDOW | _ \<Rightarrow> False)"

lemma window_write_simps [simp]:
  "\<not> window_write (In8 p v8)" "\<not> window_write (Out8 p v8)" "\<not> window_write (Mmio_read a v)"
  "window_write (Mmio_write a v) \<longleftrightarrow> a = IOAPIC_WINDOW"
  by (simp_all add: window_write_def)

lemma ps2_polling_quiet [emits_intros]:
  "emits (\<lambda>ev. \<not> window_write ev) ps2_wait_input_empty"
  "emits (\<lambda>ev. \<not> window_write ev) ps2_wait_output_full"
  by (auto simp: ps2_wait_input_empty_def ps2_wait_output_full_def intro!: emits_intros)

lemma ps2_access_quiet [emits_intros]:
  "emits (\<lambda>ev. \<not> window_write ev) (ps2_write_command c)"
  "emits (\<lambda>ev. \<not> window_write ev) (ps2_write_data d)"
  "emits (\<lambda>ev. \<not> window_write ev) ps2_read_data"
  "emits (\<lambda>ev. \<not> window_write ev) ps2_flush_output"
  "emits (\<lambda>ev. \<not> window_write ev) (ps2_write_config k)"
  by (auto simp: ps2_write_command_def ps2_write_data_def ps2_read_data_def ps2_flush_output_def
      ps2_write_config_def intro!: emits_intros)

lemma ps2_returns [returns_intros]:
  "returns ps2_wait_input_empty" "returns ps2_wait_output_full" "returns (ps2_write_command c)"
  "returns (ps2_write_data d)" "returns ps2_read_data" "returns ps2_flush_output"
  "returns (ps2_write_config k)" "returns ps2_route_keyboard_interrupt"
  by (auto simp: ps2_wait_input_empty_def ps2_wait_output_full_def ps2_write_command_def
      ps2_write_data_def ps2_read_data_def ps2_flush_output_def ps2_write_config_def
      ps2_route_keyboard_interrupt_def ioapic_read_def ioapic_write_def Let_def
      intro!: returns_intros split: option.split)

lemma ps2_expect_returns [returns_intros]: "returns r \<Longrightarrow> returns m \<Longrightarrow> returns (ps2_expect r x m)"
  by (auto simp: ps2_expect_def intro!: returns_intros)

lemma ps2_configure_returns: "returns ps2_configure"
  by (auto simp: ps2_configure_def ps2_test_and_start_def ps2_start_device_def intro!: returns_intros)

text \<open>
  \<open>route_last m\<close>: a run of \<open>m\<close> that returns 0 leaves the window register alone, and one
  that returns 1 ends with the destination and then the unmasked vector, nothing else having
  been written there before.
\<close>

definition routed :: "u32 \<Rightarrow> io_event list" where
  "routed lapic_id = [Mmio_write IOAPIC_WINDOW PS2_KEYBOARD_VECTOR, Mmio_write IOAPIC_SELECT 0x12,
     Mmio_write IOAPIC_WINDOW (lapic_id AND 0xFF000000), Mmio_write IOAPIC_SELECT 0x13,
     Mmio_read LAPIC_ID lapic_id]"

definition route_last_run :: "io_event list \<Rightarrow> u32 \<Rightarrow> io_event list \<Rightarrow> bool" where
  "route_last_run old r log \<longleftrightarrow>
     (r = 0 \<and> (\<exists>new. log = new @ old \<and> list_all (\<lambda>ev. \<not> window_write ev) new)) \<or>
     (r = 1 \<and> (\<exists>lapic_id before. log = routed lapic_id @ before @ old \<and>
        list_all (\<lambda>ev. \<not> window_write ev) before))"

definition route_last :: "('s, u32) prog \<Rightarrow> bool" where
  "route_last m \<longleftrightarrow> (\<forall>e w r w'. m e w = Done r w' \<longrightarrow> route_last_run (io w) r (io w'))"

lemma route_last_ret0: "route_last (ret 0)"
  by (simp add: route_last_def route_last_run_def ret_def)

lemma route_last_run_prefix:
  assumes "route_last_run mid r log" "mid = new @ old" "list_all (\<lambda>ev. \<not> window_write ev) new"
  shows "route_last_run old r log"
  using assms unfolding route_last_run_def
  by (metis append.assoc list_all_append)

lemma route_last_bind:
  assumes m: "emits (\<lambda>ev. \<not> window_write ev) m" and f: "\<And>x. route_last (f x)"
  shows "route_last (bind m f)"
  unfolding route_last_def
proof (intro allI impI)
  fix e w r w'
  assume "bind m f e w = Done r w'"
  then obtain x v where mx: "m e w = Done x v" and fx: "f x e v = Done r w'"
    by (auto simp: bind_def split: outcome.splits)
  from emitsD [OF m, of e w] mx obtain new where
    "io v = new @ io w" "list_all (\<lambda>ev. \<not> window_write ev) new" by auto
  moreover have "route_last_run (io v) r (io w')" using f fx by (simp add: route_last_def)
  ultimately show "route_last_run (io w) r (io w')" by (blast intro: route_last_run_prefix)
qed

lemma route_last_andthen:
  "emits (\<lambda>ev. \<not> window_write ev) m \<Longrightarrow> route_last n \<Longrightarrow> route_last (andthen m n)"
  by (simp add: andthen_def route_last_bind)

lemma route_last_expect:
  "emits (\<lambda>ev. \<not> window_write ev) m \<Longrightarrow> route_last n \<Longrightarrow> route_last (ps2_expect m x n)"
  by (auto simp: ps2_expect_def intro!: route_last_bind route_last_ret0 emits_intros)

lemma route_last_final:
  "route_last (bind ps2_route_keyboard_interrupt (\<lambda>ok. if ok = 0 then ret 0 else ret 1))"
  by (auto simp: route_last_def route_last_run_def routed_def ps2_route_keyboard_interrupt_def
      ioapic_read_def ioapic_write_def Let_def prog_simps split: if_splits)

lemmas route_last_intros = route_last_ret0 route_last_bind route_last_andthen route_last_expect
  route_last_final

lemma ps2_initialize_route_last: "route_last ps2_keyboard_initialize"
proof -
  have "route_last (ps2_start_device c)" for c
    by (auto simp: ps2_start_device_def intro!: route_last_intros emits_intros)
  then have "route_last (ps2_test_and_start c)" for c
    by (auto simp: ps2_test_and_start_def intro!: route_last_intros emits_intros)
  then have "route_last ps2_configure"
    by (auto simp: ps2_configure_def intro!: route_last_intros emits_intros split: option.split)
  then show ?thesis
    by (auto simp: ps2_keyboard_initialize_def intro!: route_last_intros emits_intros)
qed

section \<open>A controller that answers\<close>

text \<open>
  One environment in which the bring-up succeeds: an 8042 that is always ready, drains to
  empty, passes its self tests and acknowledges the scan command.
\<close>

fun last_out :: "io_event list \<Rightarrow> u16 \<times> u8" where
  "last_out [] = (0, 0)"
| "last_out (Out8 p v # h) = (p, v)"
| "last_out (_ # h) = last_out h"

definition good_8042 :: env where
  "good_8042 = \<lparr>env_in = (\<lambda>h req. case req of
       Req_in8 p \<Rightarrow> (if p = 0x64 then (if last_out h = (0x64, 0xA7) then 0 else 1)
         else if last_out h = (0x64, 0xAA) then 0x55
         else if last_out h = (0x60, 0xF4) then 0xFA else 0)
     | Req_mmio a \<Rightarrow> 0x00170020 | _ \<Rightarrow> 0), env_dma = (\<lambda>_ _. None), env_fuel = 0\<rparr>"

lemma for_until_first:
  "0 < n \<Longrightarrow> body i e w = Done (Some x) w' \<Longrightarrow> for_until i n body e w = Done (Some x) w'"
  by (cases n) (simp_all add: run_bind run_ret)

lemma ps2_wait_now:
  assumes "v = (ucast (env_in e (io w) (Req_in8 0x64)) :: u8)"
  shows "v AND 2 = 0 \<Longrightarrow> ps2_wait_input_empty e w = Done 1 (w\<lparr>io := In8 0x64 v # io w\<rparr>)"
    and "v AND 1 \<noteq> 0 \<Longrightarrow> ps2_wait_output_full e w = Done 1 (w\<lparr>io := In8 0x64 v # io w\<rparr>)"
    and "v AND 1 = 0 \<Longrightarrow> ps2_flush_output e w = Done () (w\<lparr>io := In8 0x64 v # io w\<rparr>)"
  using assms
  by (simp_all add: ps2_wait_input_empty_def ps2_wait_output_full_def ps2_flush_output_def run_bind
      run_ret run_in8 for_until_first)

lemma good_8042_runs:
  assumes "keyboard_ready (vars w) \<noteq> 0"
  shows "\<exists>w'. ps2_keyboard_initialize good_8042 w = Done 1 w'"
  using assms
  by (simp add: ps2_keyboard_initialize_def ps2_configure_def ps2_test_and_start_def
      ps2_start_device_def ps2_expect_def ps2_write_command_def ps2_write_data_def ps2_read_data_def
      ps2_write_config_def ps2_route_keyboard_interrupt_def ioapic_read_def ioapic_write_def
      ps2_reset_vars_def ps2_wait_now [OF refl] good_8042_def prog_simps)

definition ps2_fresh :: "ps2_vars world" where
  "ps2_fresh = start_world \<lparr>ps2_keyboard_interrupt_count = 0, ps2_keyboard_dropped_count = 0,
       ps2_keyboard_last_scancode = 0, ps2_callback_installed = False, keyboard_ready = 1,
       kbd_queue = keyboard_fresh\<rparr>"

section \<open>Interrupts and the scan codes they deliver\<close>

definition keyboard_interrupts :: "nat \<Rightarrow> (ps2_vars, unit) prog" where
  "keyboard_interrupts n = for_each 0 n (\<lambda>_. ps2_keyboard_interrupt (Some PS2_KEYBOARD_VECTOR))"

text \<open>
  The scan codes in a history of the handler's port reads, oldest first: a data byte counts if the status before it
  says full and not auxiliary; \<open>None\<close> if one came with a parity or timeout error.
\<close>

fun scan_codes :: "io_event list \<Rightarrow> u8 list option" where
  "scan_codes (In8 p status # evs) =
     (if status AND PS2_STATUS_OUTPUT_FULL = 0 then scan_codes evs
      else case evs of In8 q b # rest \<Rightarrow>
          (if status AND PS2_STATUS_AUX_DATA \<noteq> 0 then scan_codes rest
           else if status AND 0xC0 \<noteq> 0 then None else map_option ((#) b) (scan_codes rest))
        | _ \<Rightarrow> Some [])"
| "scan_codes _ = Some []"

lemma interrupt_delivers:
  "\<exists>new w1. ps2_keyboard_interrupt (Some PS2_KEYBOARD_VECTOR) e w = Done () w1 \<and> io w1 = rev new @ io w \<and>
    (kbd_queue (vars w1) = kbd_queue (vars w) \<and> (\<forall>more. scan_codes (new @ more) = scan_codes more) \<or>
     (\<forall>more. scan_codes (new @ more) = None) \<or>
     (\<exists>b. kbd_queue (vars w1) = keyboard_enqueue b (kbd_queue (vars w)) \<and>
       (\<forall>more. scan_codes (new @ more) = map_option ((#) b) (scan_codes more))))"
proof -
  define st where "st = (ucast (env_in e (io w) (Req_in8 PS2_STATUS_PORT)) :: u8)"
  define b where "b = (ucast (env_in e (In8 PS2_STATUS_PORT st # io w) (Req_in8 PS2_DATA_PORT)) :: u8)"
  note run = ps2_keyboard_interrupt_def prog_simps st_def [symmetric] b_def [symmetric]
  show ?thesis
  proof (cases "st AND PS2_STATUS_OUTPUT_FULL = 0")
    case True
    then show ?thesis by (intro exI [of _ "[In8 PS2_STATUS_PORT st]"]) (simp add: run)
  next
    case False
    then show ?thesis
      by (intro exI [of _ "[In8 PS2_STATUS_PORT st, In8 PS2_DATA_PORT b]"]) (auto simp: run ps2_accept_queue)
  qed
qed

lemma interrupts_deliver:
  "\<exists>w' new. for_each i n (\<lambda>_. ps2_keyboard_interrupt (Some PS2_KEYBOARD_VECTOR)) e w = Done () w' \<and> io w' = rev new @ io w \<and>
    (\<forall>bs. scan_codes new = Some bs \<longrightarrow> kbd_queue (vars w') = fold keyboard_enqueue bs (kbd_queue (vars w)))"
proof (induction n arbitrary: i w)
  case 0
  show ?case by (intro exI [of _ w] exI [of _ "[]"]) (simp add: prog_simps)
next
  case (Suc n)
  obtain w1 new where one: "ps2_keyboard_interrupt (Some PS2_KEYBOARD_VECTOR) e w = Done () w1" "io w1 = rev new @ io w"
    "kbd_queue (vars w1) = kbd_queue (vars w) \<and> (\<forall>more. scan_codes (new @ more) = scan_codes more) \<or>
     (\<forall>more. scan_codes (new @ more) = None) \<or>
     (\<exists>b. kbd_queue (vars w1) = keyboard_enqueue b (kbd_queue (vars w)) \<and>
       (\<forall>more. scan_codes (new @ more) = map_option ((#) b) (scan_codes more)))"
    using interrupt_delivers [of e w] by blast
  obtain w' more where rest: "for_each (Suc i) n (\<lambda>_. ps2_keyboard_interrupt (Some PS2_KEYBOARD_VECTOR)) e w1 = Done () w'"
    "io w' = rev more @ io w1"
    "\<And>bs. scan_codes more = Some bs \<Longrightarrow> kbd_queue (vars w') = fold keyboard_enqueue bs (kbd_queue (vars w1))"
    using Suc.IH [of "Suc i" w1] by blast
  have "kbd_queue (vars w') = fold keyboard_enqueue bs (kbd_queue (vars w))" if "scan_codes (new @ more) = Some bs" for bs
    using one(3) that rest(3) by auto
  then show ?case
    using one(1,2) rest(1,2) by (intro exI [of _ w'] exI [of _ "new @ more"]) (simp add: run_andthen)
qed

section \<open>Properties\<close>

text \<open>
  Bring-up always comes back. With any controller behaviour, even one that never
  empties its input buffer, the bounded polling loops end, and initialization returns
  success or failure or panics because the driver page is not mapped; it never hangs.
\<close>

lemma ps2_initialize_returns:
  "(\<exists>r w'. ps2_keyboard_initialize e w = Done r w') \<or>
   (\<exists>w'. ps2_keyboard_initialize e w = Panicked ''Keyboard driver queue is not mapped'' w' \<and>
      keyboard_ready (vars w) = 0)"
proof (cases "keyboard_ready (vars w) = 0")
  case True
  then show ?thesis by (simp add: ps2_keyboard_initialize_def ps2_reset_vars_def prog_simps)
next
  case False
  let ?w = "w\<lparr>vars := (ps2_reset_vars (vars w))\<lparr>kbd_queue := (kbd_queue (vars w))\<lparr>head := 0, tail := 0\<rparr>,
     ps2_callback_installed := True\<rparr>\<rparr>"
  have "ps2_keyboard_initialize e w = ps2_configure e ?w"
    using False by (simp add: ps2_keyboard_initialize_def ps2_reset_vars_def prog_simps)
  then show ?thesis using returnsD [OF ps2_configure_returns, of e ?w] by simp
qed

text \<open>
  C6: no early unmasking. If initialization returns 0 the keyboard's I/O APIC entry was
  never written; if it returns 1 its last events are the destination and only then the
  unmasked entry with vector 31h, and nothing was written there before.
\<close>

theorem ps2_unmasks_last:
  assumes "ps2_keyboard_initialize e w = Done r w'"
  shows "(r = 0 \<and> (\<exists>new. io w' = new @ io w \<and> list_all (\<lambda>ev. \<not> window_write ev) new)) \<or>
     (r = 1 \<and> (\<exists>lapic_id before. io w' =
        [Mmio_write 0xFEC00010 0x31, Mmio_write 0xFEC00000 0x12,
         Mmio_write 0xFEC00010 (lapic_id AND 0xFF000000), Mmio_write 0xFEC00000 0x13,
         Mmio_read 0xFEE00020 lapic_id] @ before @ io w \<and>
        list_all (\<lambda>ev. \<not> window_write ev) before))"
  using ps2_initialize_route_last assms
  unfolding route_last_def route_last_run_def routed_def by blast

theorem ps2_unmasks_last_witness:
  "\<exists>w'. ps2_keyboard_initialize good_8042 ps2_fresh = Done 1 w' \<and>
     (\<exists>lapic_id before. io w' =
        [Mmio_write 0xFEC00010 0x31, Mmio_write 0xFEC00000 0x12,
         Mmio_write 0xFEC00010 (lapic_id AND 0xFF000000), Mmio_write 0xFEC00000 0x13,
         Mmio_read 0xFEE00020 lapic_id] @ before @ io ps2_fresh \<and>
        list_all (\<lambda>ev. \<not> window_write ev) before)"
proof -
  obtain w' where run: "ps2_keyboard_initialize good_8042 ps2_fresh = Done 1 w'"
    using good_8042_runs [of ps2_fresh] by (auto simp: ps2_fresh_def)
  from ps2_unmasks_last [OF run] run show ?thesis by auto
qed

end
