(* ===== verification/Kernel.thy ===== *)
theory Kernel
  imports Usb_Mouse_Safety Mouse_Driver Panic Azalia Ps2
begin

text \<open>
  The kernel's start: \<^verbatim>\<open>Kernel/KernelMain.c\<close>, with the parts that only it calls, namely the local APIC interrupts
  (\<^verbatim>\<open>Arch/x86/LapicInterrupts.c\<close>), the two driver loaders (\<^verbatim>\<open>KeyboardDriverHost.c\<close> and the kernel half of
  \<^verbatim>\<open>MouseDriver.c\<close>) and the desktop (\<^verbatim>\<open>Desktop/Desktop.c\<close>). The state is one record with a field for each component.
  Addresses of functions and constants come from the linker: they are the arguments in \<^verbatim>\<open>link\<close>.
\<close>

section \<open>Local APIC interrupts\<close>

record lapic_vars =
  lapic_lint0_count :: u32
  lapic_lint1_count :: u32
  lapic_error_count :: u32
  lapic_spurious_count :: u32
  lapic_last_error_status :: u32

definition lapic_interrupt_initialize :: "u32 \<Rightarrow> (lapic_vars, unit) prog" where
  "lapic_interrupt_initialize dispatch = andthen (modify (\<lambda>s. \<lparr>lapic_lint0_count = 0, lapic_lint1_count = 0, lapic_error_count = 0,
       lapic_spurious_count = 0, lapic_last_error_status = 0\<rparr>)) (store32 0x80002324 dispatch)"

definition lapic_interrupt_dispatch :: "exception_frame option \<Rightarrow> (lapic_vars, unit) prog" where
  "lapic_interrupt_dispatch pointer = (case pointer of None \<Rightarrow> panic ''Null LAPIC interrupt frame''
     | Some f \<Rightarrow>
        if ef_vector f = 0x21 then modify (\<lambda>s. s\<lparr>lapic_lint0_count := lapic_lint0_count s + 1\<rparr>)
        else if ef_vector f = 0x22 then modify (\<lambda>s. s\<lparr>lapic_lint1_count := lapic_lint1_count s + 1\<rparr>)
        else if ef_vector f = 0x23 then andthen (modify (\<lambda>s. s\<lparr>lapic_error_count := lapic_error_count s + 1\<rparr>))
          (andthen (mmio_write (0xFEE00000 + 0x280) 0)
          (bind (mmio_read (0xFEE00000 + 0x280)) (\<lambda>status.
          modify (\<lambda>s. s\<lparr>lapic_last_error_status := status\<rparr>))))
        else if ef_vector f = 0xFF then modify (\<lambda>s. s\<lparr>lapic_spurious_count := lapic_spurious_count s + 1\<rparr>)
        else panic ''Unexpected LAPIC interrupt vector'')"

section \<open>State\<close>

text \<open>The mouse driver's state as the client of the host driver; \<open>None\<close> after a loop that does not end, which does not occur.\<close>

type_synonym mouse_client = "(mouse_shared \<times> mouse_cursor_queue) option"

record kernel_state =
  ks_usb :: "mouse_client usb_mouse"
  ks_panic :: panic_vars
  ks_ps2 :: ps2_vars
  ks_lapic :: lapic_vars
  ks_audio :: azalia_state
  ks_driver_code :: u32
  ks_driver_data :: u32
  ks_driver_gate :: u32

record link =
  lk_exception_dispatch :: u32
  lk_lapic_dispatch :: u32
  lk_storage_entry :: u32
  lk_usb_state :: u32
  lk_usb_interrupt :: u32
  lk_audio_state :: u32
  lk_audio_service :: u32
  lk_cursor_service :: u32
  lk_background_service :: u32
  lk_expected :: u32
  lk_kernel_text :: u32
  lk_kern_text :: u32

definition in_usb :: "(mouse_client usb_mouse, 'a) prog \<Rightarrow> (kernel_state, 'a) prog" where
  "in_usb = zoom ks_usb (\<lambda>v s. s\<lparr>ks_usb := v\<rparr>)"

definition in_panic :: "(panic_vars, 'a) prog \<Rightarrow> (kernel_state, 'a) prog" where
  "in_panic = zoom ks_panic (\<lambda>v s. s\<lparr>ks_panic := v\<rparr>)"

definition in_ps2 :: "(ps2_vars, 'a) prog \<Rightarrow> (kernel_state, 'a) prog" where
  "in_ps2 = zoom ks_ps2 (\<lambda>v s. s\<lparr>ks_ps2 := v\<rparr>)"

definition in_lapic :: "(lapic_vars, 'a) prog \<Rightarrow> (kernel_state, 'a) prog" where
  "in_lapic = zoom ks_lapic (\<lambda>v s. s\<lparr>ks_lapic := v\<rparr>)"

definition in_audio :: "(azalia_state, 'a) prog \<Rightarrow> (kernel_state, 'a) prog" where
  "in_audio = zoom ks_audio (\<lambda>v s. s\<lparr>ks_audio := v\<rparr>)"

abbreviation (input) in_graphics :: "(i915_kernel, 'a) prog \<Rightarrow> (kernel_state, 'a) prog" where
  "in_graphics m \<equiv> in_panic (in_vga (in_i915 m))"

section \<open>Driver loaders\<close>

definition create_driver_call_gate :: "u32 \<Rightarrow> ('s, u32) prog" where
  "create_driver_call_gate code_selector = bind (kernel_call Gdt_alloc_selector []) (\<lambda>gate.
    if gate = 0 then ret 0
    else andthen (kernel_call Gdt_write_raw_descriptor [gate, push_bit 16 code_selector, 0xEC00])
    (ret (gate OR 3)))"

definition map_driver_page :: "nat \<Rightarrow> ('s, unit) prog" where
  "map_driver_page i = (let address = 0x70000000 + of_nat i * 0x1000 in bind (kernel_call Get_physical_address [0x30030000, address]) (\<lambda>present.
    andthen (kassert_msg (present = 0) ''Keyboard driver address already mapped'')
    (bind (kernel_call Pmm_alloc_page []) (\<lambda>physical.
    andthen (kassert_msg (physical \<noteq> 0) ''No physical memory for keyboard driver'')
    (bind (kernel_call Map_page [address, physical, 3]) (\<lambda>mapped.
    kassert_msg (mapped \<noteq> 0) ''Cannot map keyboard driver''))))))"

text \<open>
  The ready word at \<^verbatim>\<open>KEYBOARD_READY_ADDRESS\<close> and the shared page at \<^verbatim>\<open>KEYBOARD_QUEUE_OFFSET\<close> are
  fields of the PS/2 driver's state; clearing the driver's memory clears the page.
\<close>

definition keyboard_driver_initialize :: "(kernel_state, unit) prog" where
  "keyboard_driver_initialize = bind (in_ps2 (gets keyboard_ready)) (\<lambda>before.
    andthen (kassert_msg (before = 0) ''Keyboard driver initialized twice'')
    (andthen (for_each 0 256 map_driver_page)
    (andthen (mem_apply (\<lambda>m. memset m 0x70000000 0 0x100000))
    (andthen (in_ps2 (modify (\<lambda>s. s\<lparr>kbd_queue := keyboard_fresh\<rparr>)))
    (andthen (mem_apply (\<lambda>m. memcpy m 0x70000000 0x80018000 0x4000))
    (bind (kernel_call Gdt_create_code_descriptor [0x70000000, 0x3FFF, 0x40]) (\<lambda>code.
    andthen (modify (\<lambda>s. s\<lparr>ks_driver_code := code\<rparr>))
    (bind (kernel_call Gdt_create_data_descriptor [0x70000000, 0xFFFFF, 0x40]) (\<lambda>data.
    andthen (modify (\<lambda>s. s\<lparr>ks_driver_data := data\<rparr>))
    (andthen (kassert_msg (code \<noteq> 0 \<and> data \<noteq> 0) ''Cannot allocate keyboard driver segments'')
    (bind (create_driver_call_gate code) (\<lambda>gate.
    andthen (modify (\<lambda>s. s\<lparr>ks_driver_gate := gate\<rparr>))
    (andthen (kassert_msg (gate \<noteq> 0) ''Cannot allocate keyboard call gate'')
    (andthen (store32 0x8000232C gate)
    (andthen (store32 0x80002330 (data OR 2))
    (andthen (store32 0x80002334 (code OR 2))
    (andthen (store32 0x80002338 1)
    (in_ps2 (modify (\<lambda>s. s\<lparr>keyboard_ready := 1\<rparr>))))))))))))))))))))"

definition mouse_callback :: "u32 \<Rightarrow> u32 \<Rightarrow> u8 list option \<Rightarrow> u32 \<Rightarrow> mouse_client \<Rightarrow> mouse_client" where
  "mouse_callback controller event data len st = Option.bind st (mouse_receive controller event data len)"

definition set_client :: "mouse_client \<Rightarrow> (kernel_state, unit) prog" where
  "set_client st = in_usb (in_host (modify (\<lambda>s. s\<lparr>uh_client := st\<rparr>)))"

definition mouse_driver_initialize :: "u32 \<Rightarrow> (kernel_state, unit) prog" where
  "mouse_driver_initialize cursor_service = bind (in_ps2 (gets keyboard_ready)) (\<lambda>keyboard.
    andthen (kassert_msg (keyboard = 1) ''Mouse driver requires ring-2 stack setup'')
    (bind (load32 0x8000235C) (\<lambda>before.
    andthen (kassert_msg (before = 0) ''Mouse driver initialized twice'')
    (andthen (mem_apply (\<lambda>m. memcpy m 0x70004000 0x8001D000 0x3000))
    (andthen (set_client (Some (mouse_fresh, cursor_fresh)))
    (bind (kernel_call Gdt_create_code_descriptor [0x70000000, 0x6FFF, 0x40]) (\<lambda>code.
    andthen (kassert_msg (code \<noteq> 0) ''Cannot allocate mouse code selector'')
    (bind (kernel_call Gdt_alloc_selector []) (\<lambda>gate.
    andthen (kassert_msg (gate \<noteq> 0) ''Cannot allocate mouse call gate'')
    (andthen (kernel_call Gdt_write_raw_descriptor [gate, push_bit 16 code OR 0x4000, 0xEC00])
    (bind (in_usb (in_host (usb_host_set_report_callback (Some mouse_callback)))) (\<lambda>attached.
    andthen (kassert_msg (attached \<noteq> 0) ''Cannot attach mouse report queue'')
    (andthen (store32 0x80002358 (gate OR 3))
    (andthen (store32 0x8000235C 1)
    (store32 0x80002364 cursor_service)))))))))))))))"

text \<open>\<^verbatim>\<open>popfl\<close> restores the interrupt flag to what it was.\<close>

definition mouse_cursor_service :: "(kernel_state, unit) prog" where
  "mouse_cursor_service = bind (irq_save) (\<lambda>flags.
    bind (gets (\<lambda>s. uh_client (um_host (ks_usb s)))) (\<lambda>client.
    andthen ((case client of None \<Rightarrow> ret ()
      | Some (shared, queue) \<Rightarrow> bind (mouse_cursor_drain queue (ms_connected shared) (Some (\<lambda>motions. in_graphics (intel915_update_cursor motions)))) (\<lambda>(sent, queue).
        set_client (Some (shared, queue)))))
    (irq_restore flags)))"

definition kernel_background_service :: "(kernel_state, unit) prog" where
  "kernel_background_service = andthen (in_usb usb_mouse_service) mouse_cursor_service"

section \<open>The desktop\<close>

definition desktop_create :: "(kernel_state, unit) prog" where
  "desktop_create = bind (get_cpu cpu_if) (\<lambda>enabled.
    if enabled then panic ''Create the boot desktop before enabling interrupts''
    else bind (kernel_call Process_create [0]) (\<lambda>process.
    if process = 0 then panic ''Cannot create desktop process''
    else bind (kernel_call Process_prepare_test_task [process, 0x80014000, 0x1000]) (\<lambda>loaded.
    if loaded = 0 then andthen (kernel_call Process_destroy [process]) (panic ''Cannot load desktop code and stack'')
    else bind (load32 (process + 44)) (\<lambda>selector.
    bind (in_graphics (intel915_claim_desktop selector)) (\<lambda>claimed.
    cond (claimed = 0) (andthen (kernel_call Process_destroy [process]) (panic ''Cannot assign graphics ownership to the desktop'')))))))"

text \<open>
  The user side calls the assembly stubs of \<^verbatim>\<open>UserServices.asm\<close>; what they do is the argument \<open>us\<close>.
\<close>

record 's user_services =
  us_display_write_cell :: "u32 \<Rightarrow> u32 \<Rightarrow> ('s, u32) prog"
  us_graphics_initialize_desktop :: "('s, u32) prog"
  us_graphics_get_screen_size :: "('s, u32) prog"
  us_audio_initialize :: "('s, u32) prog"
  us_mouse_read_event :: "('s, u32) prog"

definition error_digit :: "u32 \<Rightarrow> nat \<Rightarrow> u32" where
  "error_digit result index = (let digit = drop_bit (28 - index * 4) result AND 15 in if digit < 10 then 48 + digit else 65 + digit - 10)"

text \<open>Both functions end in a loop that never exits: a run is \<open>Unfinished\<close> there.\<close>

definition desktop_graphics_error :: "'s user_services \<Rightarrow> u32 \<Rightarrow> ('s, unit) prog" where
  "desktop_graphics_error us result = andthen (us_display_write_cell us 0 71)
    (andthen (for_each 0 8 (\<lambda>index. andthen (us_display_write_cell us (of_nat index + 1) (error_digit result index)) (ret ())))
    (poll (ret None)))"

definition drain_events :: "'s user_services \<Rightarrow> nat \<Rightarrow> ('s, unit option) prog" where
  "drain_events us count = bind (us_mouse_read_event us) (\<lambda>event.
    if event = 0 \<or> event = MOUSE_BUSY then ret (Some ())
    else if event = MOUSE_EVENT_LOST then ret None
    else ret (if event AND MOUSE_EVENT_VALID = 0 then Some () else None))"

definition desktop_main :: "'s user_services \<Rightarrow> ('s, unit) prog" where
  "desktop_main us = bind (us_graphics_initialize_desktop us) (\<lambda>result.
    if result \<noteq> I915_DRAWN then desktop_graphics_error us result
    else bind (us_graphics_get_screen_size us) (\<lambda>screen_size.
    let width = screen_size AND 0xFFFF
    in let height = drop_bit 16 screen_size
    in if width < 320 \<or> width > 2048 \<or> height < 200 \<or> height > 2048 then desktop_graphics_error us screen_size
    else andthen (us_audio_initialize us)
    (poll (andthen (for_until 0 32 (drain_events us)) (ret None)))))"

section \<open>\<^verbatim>\<open>kernel_main\<close>\<close>

definition kernel_check_task_address_space :: "('s, unit) prog" where
  "kernel_check_task_address_space = bind (get_cpu cpu_tr) (\<lambda>selector.
    bind (get_cpu cpu_ldtr) (\<lambda>ldt.
    bind (get_cpu cpu_cr3) (\<lambda>cr3.
    if selector = 0 \<or> selector AND 7 \<noteq> 0 then panic ''Invalid kernel task selector''
    else bind (load32 (0x30010000 + ucast selector)) (\<lambda>low.
    bind (load32 (0x30010000 + ucast selector + 4)) (\<lambda>high.
    if high AND 0xFF00 \<noteq> 0x8B00 then panic ''Kernel task descriptor is not a present busy 32-bit TSS''
    else let base = drop_bit 16 low OR push_bit 16 (high AND 255) OR (high AND 0xFF000000)
    in if base = 0 then panic ''Kernel TSS has no base address''
    else bind (load32 (base + 0x1C)) (\<lambda>tss_cr3.
    if tss_cr3 \<noteq> cr3 then panic ''Kernel TSS CR3 does not match the active page directory''
    else bind (load16 (base + 0x60)) (\<lambda>tss_ldt.
    cond (tss_ldt \<noteq> ldt) (panic ''Kernel TSS LDTR does not match the active LDT''))))))))"

definition get_mem :: "((u32 \<Rightarrow> u8) \<Rightarrow> 'a) \<Rightarrow> ('s, 'a) prog" where
  "get_mem f = (\<lambda>e w. Done (f (mem w)) w)"

definition quoted :: "string \<Rightarrow> string" where
  "quoted s = CHR 0x22 # s @ [CHR 0x22]"

text \<open>The buffer \<^verbatim>\<open>expected\<close> on the stack and the string constants are at the linker's addresses.\<close>

definition kernel_runtime_self_test :: "link \<Rightarrow> ('s, unit) prog" where
  "kernel_runtime_self_test lk = bind (kernel_call Heap_validate []) (\<lambda>valid.
    andthen (kassert_msg (valid \<noteq> 0) ''Heap was corrupt before C runtime test'')
    (bind (kernel_call Heap_alloc [32]) (\<lambda>allocation.
    andthen (kassert_msg (allocation \<noteq> 0) ''C runtime test allocation failed'')
    (andthen (mem_apply (\<lambda>m. memset m allocation 0xA5 32))
    (andthen (mem_apply (\<lambda>m. memset m (lk_expected lk) 0xA5 32))
    (bind (get_mem (\<lambda>m. memcmp m allocation (lk_expected lk) 32 = 0)) (\<lambda>same.
    andthen (kassert_msg same ''memcmp(allocation, expected, sizeof(expected)) == 0'')
    (bind (get_mem (\<lambda>m. strlen m (lk_kernel_text lk))) (\<lambda>len.
    andthen (kassert_msg (len = Some 6) (''strlen('' @ quoted ''kernel'' @ '') == 6u''))
    (bind (get_mem (\<lambda>m. strcmp m (lk_kernel_text lk) (lk_kernel_text lk))) (\<lambda>eq.
    andthen (kassert_msg (eq = Some 0) (''strcmp('' @ quoted ''kernel'' @ '', '' @ quoted ''kernel'' @ '') == 0''))
    (bind (get_mem (\<lambda>m. strncmp m (lk_kernel_text lk) (lk_kern_text lk) 4)) (\<lambda>prefix.
    andthen (kassert_msg (prefix = 0) (''strncmp('' @ quoted ''kernel'' @ '', '' @ quoted ''kern'' @ '', 4u) == 0''))
    (andthen (kernel_call Heap_free [allocation])
    (bind (kernel_call Heap_validate []) (\<lambda>valid.
    kassert_msg (valid \<noteq> 0) ''Heap was corrupt after C runtime test''))))))))))))))))"

definition in_storage_service :: "(storage_vars, 'a) prog \<Rightarrow> (kernel_state, 'a) prog" where
  "in_storage_service m = in_usb (in_host (in_storage m))"

definition kernel_main :: "link \<Rightarrow> (kernel_state, unit) prog" where
  "kernel_main lk = bind (load32 0x80002200) (\<lambda>magic.
    if magic \<noteq> 0x4B415049 then panic ''Assembly API magic mismatch''
    else bind (load32 0x80002204) (\<lambda>version.
    if version \<noteq> 1 then panic ''Assembly API version mismatch''
    else bind (load32 0x80002208) (\<lambda>entries.
    if entries < 64 then panic ''Assembly API table is incomplete''
    else andthen (in_panic (in_vga vga_capture_startup_font))
    (andthen (exception_initialize (lk_exception_dispatch lk))
    (andthen (kernel_check_task_address_space)
    (andthen (in_lapic (lapic_interrupt_initialize (lk_lapic_dispatch lk)))
    (andthen (keyboard_driver_initialize)
    (andthen (mouse_driver_initialize (lk_cursor_service lk))
    (bind (in_ps2 ps2_keyboard_initialize) (\<lambda>keyboard.
    if keyboard = 0 then panic ''PS/2 keyboard initialization failed''
    else andthen (kernel_runtime_self_test lk)
    (andthen (in_storage_service (storage_initialize (lk_storage_entry lk)))
    (andthen (in_usb (in_host (usb_host_initialize (lk_usb_state lk) (lk_usb_interrupt lk))))
    (andthen (in_usb usb_mouse_initialize)
    (andthen (in_audio (azalia_initialize (lk_audio_state lk) (lk_audio_service lk)))
    (andthen (store32 0x80002360 (lk_background_service lk))
    (bind (in_graphics intel915_initialize) (\<lambda>graphics_ready.
    cond (graphics_ready \<noteq> 0) desktop_create)))))))))))))))))"

section \<open>Parts that cannot hang\<close>

lemma ends_zoom: "ends m \<Longrightarrow> ends (zoom get upd m)"
  unfolding ends_def zoom_def Let_def by (auto split: outcome.split)

lemma ends_returns: "returns m \<Longrightarrow> ends m"
  unfolding ends_def by (metis outcome.distinct(3) returnsD)

lemma ends_prod: "(\<And>a b. ends (f a b)) \<Longrightarrow> ends (case x of (a, b) \<Rightarrow> f a b)"
  by (simp split: prod.split)

lemma ps2_initialize_ends: "ends ps2_keyboard_initialize"
  unfolding ps2_keyboard_initialize_def by (intro ends_intros ends_returns [OF ps2_configure_returns])

lemma vga_capture_ends: "ends vga_capture_startup_font"
  unfolding vga_capture_startup_font_def vga_begin_font_access_def vga_end_font_access_def vga_write_indexed_def capture_row_def
  by (intro ends_intros)

lemma lapic_initialize_ends: "ends (lapic_interrupt_initialize dispatch)"
  unfolding lapic_interrupt_initialize_def by (intro ends_intros)

lemma azalia_initialize_ends: "ends (azalia_initialize state_address service)"
proof -
  have map: "ends (Azalia.map_page a p f)" for a p f
    unfolding Azalia.map_page_def by (intro ends_intros)
  have pci: "ends (Azalia.pci_read pci reg)" for pci reg
    unfolding Azalia.pci_read_def by (intro ends_intros)
  have "ends (install_gate service)"
    unfolding install_gate_def map_stack_def by (intro ends_intros map)
  moreover have "ends find_controller"
    unfolding find_controller_def try_device_def try_function_def Let_def by (intro ends_intros pci)
  moreover have "ends (bar_usable pci bar)" for pci bar
    unfolding bar_usable_def Let_def by (intro ends_intros pci)
  ultimately have "ends (Azalia.start_controller service)"
    unfolding Azalia.start_controller_def bad_bar_def mmio_read16_def Let_def by (intro ends_intros map pci)
  then show ?thesis unfolding azalia_initialize_def by (intro ends_intros)
qed

lemma intel915_initialize_ends: "ends intel915_initialize"
proof -
  have pci: "ends (Intel915_Driver.pci_read a b)" for a b
    unfolding Intel915_Driver.pci_read_def by (intro ends_intros)
  have map: "ends (map_checked a p f)" "ends (allocate_page a f)" for a p f
    unfolding map_checked_def allocate_page_def by (intro ends_intros)+
  have alloc: "ends (cursor_alloc_loop n pages)" for n pages
    by (induction n arbitrary: pages) (auto simp: Let_def intro!: ends_intros)
  have fail: "ends (graphics_failure err)" for err
    unfolding graphics_failure_def by (intro ends_intros)
  have "ends find_gpu" unfolding find_gpu_def Let_def by (intro ends_intros pci)
  moreover have "ends (i915_read_bars pci)" for pci unfolding i915_read_bars_def Let_def by (intro ends_intros pci)
  moreover have "ends allocate_cursor_pages"
    unfolding allocate_cursor_pages_def Let_def by (intro ends_intros alloc ends_prod)
  then have "ends (i915_map_memory pci mmio gtt aperture n stolen)" for pci mmio gtt aperture n stolen
    unfolding i915_map_memory_def set_gfx_def Let_def by (intro ends_intros map)
  moreover have "ends (i915_read_mode n)" for n
    unfolding i915_read_mode_def i915_select_output_def set_gfx_def host_register_def Let_def by (intro ends_intros fail ends_prod)
  moreover have "ends i915_save_display"
    unfolding i915_save_display_def set_gfx_def host_register_def by (intro ends_intros fail)
  moreover have "ends (i915_make_gate pci)" for pci
    unfolding i915_make_gate_def set_gfx_def create_gate_def enable_bus_master_def by (intro ends_intros fail map pci)
  ultimately show ?thesis
    unfolding intel915_initialize_def by (intro ends_intros ends_prod)
qed

section \<open>Boot and idle come back\<close>

text \<open>What a run relies on and keeps: the host driver's data are well formed and the two calibrations are sane.\<close>

definition usb_live :: "env \<Rightarrow> 'm usb_host \<Rightarrow> bool" where
  "usb_live e s \<longleftrightarrow> host_ok s \<and> (steady_clock e \<longrightarrow> unat (bv_ticks_per_ms (uh_storage s)) \<le> 4000000 \<and> unat (uh_ticks_per_ms s) \<le> 4000000)"

lemma usb_live_safe: "usb_safe e UNIV m None w \<and> ticks_ok e w \<longleftrightarrow> usb_live e (vars w)"
  by (auto simp: usb_live_def usb_safe_def usb_sound_def window_def ticks_ok_def calibrated_by_def)

abbreviation (input) boots :: "env \<Rightarrow> (kernel_state, 'r) prog \<Rightarrow> bool" where
  "boots e m \<equiv> keeps e (\<lambda>w. usb_live e (um_host (ks_usb (vars w)))) (\<lambda>_. True) (\<lambda>_. \<not> steady_clock e) m"

lemma boots_mouse:
  assumes "keeps e (\<lambda>w. usb_safe e UNIV m None (host_world w) \<and> ticks_ok e (host_world w))
    (\<lambda>w. usb_sound e UNIV m (host_world w)) (\<lambda>w. usb_sound e UNIV m (host_world w) \<and> \<not> steady_clock e) p"
  shows "boots e (in_usb p)"
  unfolding keeps_def
proof (intro allI impI)
  fix w :: "kernel_state world"
  let ?v = "\<lparr>io = io w, mem = mem w, cpu_regs = cpu_regs w, vars = ks_usb (vars w)\<rparr>"
  assume "usb_live e (um_host (ks_usb (vars w)))"
  then have "case p e ?v of Done x w' \<Rightarrow> usb_live e (um_host (vars w')) | Panicked msg w' \<Rightarrow> True | Unfinished w' \<Rightarrow> \<not> steady_clock e"
    using assms unfolding keeps_def usb_live_safe by (auto simp: host_world_def split: outcome.split dest!: spec [of _ ?v])
  then show "case in_usb p e w of Done x w' \<Rightarrow> usb_live e (um_host (ks_usb (vars w'))) | Panicked msg w' \<Rightarrow> True | Unfinished w' \<Rightarrow> \<not> steady_clock e"
    by (cases "p e ?v") (simp_all add: in_usb_def zoom_def Let_def)
qed

lemma boots_host: "usb_keeps e UNIV (\<lambda>_. 0) None p \<Longrightarrow> boots e (in_usb (in_host p))"
  by (rule boots_mouse, rule uhci_in_host)

lemma boots_zoom:
  assumes "ends m" "\<And>v s. ks_usb (upd v s) = ks_usb s"
  shows "boots e (zoom get upd m)"
  unfolding keeps_def
proof (intro allI impI)
  fix w :: "kernel_state world"
  assume "usb_live e (um_host (ks_usb (vars w)))"
  then show "case zoom get upd m e w of Done x w' \<Rightarrow> usb_live e (um_host (ks_usb (vars w'))) | Panicked msg w' \<Rightarrow> True | Unfinished w' \<Rightarrow> \<not> steady_clock e"
    using assms unfolding ends_def
    by (cases "m e \<lparr>io = io w, mem = mem w, cpu_regs = cpu_regs w, vars = get (vars w)\<rparr>") (simp_all add: zoom_def Let_def)
qed

lemma boots_parts: "ends p \<Longrightarrow> boots e (in_panic p)" "ends q \<Longrightarrow> boots e (in_ps2 q)" "ends r \<Longrightarrow> boots e (in_lapic r)" "ends a \<Longrightarrow> boots e (in_audio a)"
  unfolding in_panic_def in_ps2_def in_lapic_def in_audio_def by (rule boots_zoom; simp)+

lemma boots_prims: "boots e (kernel_call fn args)" "boots e (load16 a)" "boots e (store32 a v)" "boots e (mem_apply g)" "boots e (get_cpu c)"
  "boots e (get_mem h)" "boots e (kassert_msg b msg)" "boots e (panic msg)" "boots e irq_save" "boots e (irq_restore f)"
  by (simp_all add: keeps_def prog_simps get_mem_def)

lemma boots_modify: "(\<And>s. ks_usb (f s) = ks_usb s) \<Longrightarrow> boots e (modify f)"
  by (simp add: keeps_def run_modify)

lemma boots_client: "boots e (set_client st)"
  by (simp add: keeps_def set_client_def in_usb_def in_host_def zoom_def Let_def run_modify usb_live_def host_ok_def slot_ok_def)

lemmas boots_steps = keeps_intros boots_prims boots_modify boots_client boots_parts

lemma loaders_boot: "boots e keyboard_driver_initialize" "boots e (mouse_driver_initialize service)"
proof -
  have "boots e (create_driver_call_gate code)" for code
    unfolding create_driver_call_gate_def by (intro boots_steps)
  moreover have "boots e (map_driver_page i)" for i
    unfolding map_driver_page_def Let_def by (intro boots_steps)
  ultimately show "boots e keyboard_driver_initialize"
    unfolding keyboard_driver_initialize_def by (intro boots_steps ends_intros) simp_all
  show "boots e (mouse_driver_initialize service)"
    unfolding mouse_driver_initialize_def
    by (intro boots_steps ends_intros boots_host usb_host_set_report_callback_keeps)
qed

lemma desktop_boots: "boots e desktop_create"
proof -
  have "ends (intel915_claim_desktop selector)" for selector
    unfolding intel915_claim_desktop_def by (intro ends_intros)
  then show ?thesis
    unfolding desktop_create_def in_vga_def in_i915_def by (intro boots_steps ends_zoom)
qed

lemma storage_boots: "boots e (in_storage_service (storage_initialize entry))"
proof -
  have "keeps e (window e UNIV m) (window e UNIV m) (window e UNIV m) (storage_initialize entry)" for m
    by (rule keepsI) (simp add: window_def)
  moreover have "finishes e (storage_initialize entry)"
    unfolding storage_initialize_def
    by (intro keeps_intros keeps_panic) (auto simp: keeps_def prog_simps calibrated_by_def)
  ultimately show ?thesis unfolding in_storage_service_def by (intro boots_host in_storage_keeps)
qed

lemma kernel_main_boots: "boots e (kernel_main lk)"
proof -
  have task: "boots e kernel_check_task_address_space"
    unfolding kernel_check_task_address_space_def Let_def by (intro boots_steps)
  have test: "boots e (kernel_runtime_self_test lk)"
    unfolding kernel_runtime_self_test_def by (intro boots_steps)
  have "ends (in_vga vga_capture_startup_font)" "ends (in_vga (in_i915 intel915_initialize))"
    unfolding in_vga_def in_i915_def by (intro ends_zoom vga_capture_ends intel915_initialize_ends)+
  then show ?thesis
    unfolding kernel_main_def exception_initialize_def
    by (intro boots_steps task test loaders_boot storage_boots desktop_boots boots_host usb_host_initialize_keeps
      boots_mouse [OF uhci_bus.initialize_keeps] ps2_initialize_ends lapic_initialize_ends azalia_initialize_ends)
qed

lemma update_cursor_ends: "ends (intel915_update_cursor motions)"
proof -
  have "ends (intel915_cursor_flush present regs motions)" for present regs
    unfolding intel915_cursor_flush_def Let_def by (intro ends_intros ends_prod)
  then show ?thesis unfolding intel915_update_cursor_def by (intro ends_intros ends_zoom)
qed

lemma background_boots: "boots e kernel_background_service"
proof -
  have "ends (in_vga (in_i915 (intel915_update_cursor motions)))" for motions
    unfolding in_vga_def in_i915_def by (intro ends_zoom update_cursor_ends)
  then have drain: "boots e (mouse_cursor_drain queue connected (Some (\<lambda>motions. in_graphics (intel915_update_cursor motions))))" for queue connected
    unfolding mouse_cursor_drain_def Let_def by (auto intro!: boots_steps split: prod.split)
  have "boots e mouse_cursor_service"
    unfolding mouse_cursor_service_def by (auto intro!: boots_steps drain split: option.split prod.split)
  then show ?thesis
    unfolding kernel_background_service_def by (intro keeps_andthen boots_mouse [OF uhci_bus.service_keeps])
qed

section \<open>Property\<close>

definition kernel_zero :: "i915_kernel \<Rightarrow> ps2_vars \<Rightarrow> lapic_vars \<Rightarrow> storage_vars \<Rightarrow> kernel_state" where
  "kernel_zero gpu ps2 lapic st = \<lparr>ks_usb = mouse_zero (usb_zero None (st\<lparr>bv_ticks_per_ms := 0\<rparr>)),
     ks_panic = \<lparr>pn_vga = vga_zero gpu, pn_cursor = 0\<rparr>, ks_ps2 = ps2, ks_lapic = lapic, ks_audio = azalia_zero,
     ks_driver_code = 0, ks_driver_data = 0, ks_driver_gate = 0\<rparr>"

text \<open>
  The kernel after \<^verbatim>\<open>kernel_main\<close>: its idle callback runs, interrupts arrive, and processes call the disk, audio,
  graphics and mouse services through their gates.
\<close>

datatype kernel_event =
    Idle | Usb_line u32 | Apic_line exception_frame | Key_line u32
  | Disk_call storage_call | Audio_call u32 | Draw_call u32 | Mouse_request u16 u32

fun kernel_react :: "kernel_event \<Rightarrow> (kernel_state, unit) prog" where
  "kernel_react Idle = kernel_background_service"
| "kernel_react (Usb_line vector) = in_usb (in_host (usb_host_interrupt (Some vector)))"
| "kernel_react (Apic_line f) = in_lapic (lapic_interrupt_dispatch (Some f))"
| "kernel_react (Key_line vector) = in_ps2 (ps2_keyboard_interrupt (Some vector))"
| "kernel_react (Disk_call c) = andthen (in_storage_service (storage_run c)) (ret ())"
| "kernel_react (Audio_call operation) = andthen (in_audio (azalia_driver_service operation)) (ret ())"
| "kernel_react (Draw_call operation) = andthen (in_graphics (on_shared (intel915_driver_service operation))) (ret ())"
| "kernel_react (Mouse_request cs operation) = bind (gets (\<lambda>s. uh_client (um_host (ks_usb s)))) (\<lambda>client. case client of
     None \<Rightarrow> ret () | Some (shared, queue) \<Rightarrow> set_client (Some (snd (mouse_driver_service cs operation shared), queue)))"

fun kernel_life :: "kernel_event list \<Rightarrow> (kernel_state, unit) prog" where
  "kernel_life [] = ret ()"
| "kernel_life (c # cs) = andthen (kernel_react c) (kernel_life cs)"

lemma services_boot:
  "boots e (in_storage_service (storage_run c))" "boots e (in_audio (azalia_driver_service operation))"
  "boots e (in_graphics (on_shared (intel915_driver_service operation)))" "boots e (in_ps2 (ps2_keyboard_interrupt v))"
proof -
  have "keeps e (window e UNIV m) (window e UNIV m) (window e UNIV m) (storage_run c)" for m
    by (rule keepsI) (simp add: window_def)
  then show "boots e (in_storage_service (storage_run c))"
    unfolding in_storage_service_def by (intro boots_host in_storage_keeps service_live.storage_run_keeps)
  have "ends (immediate_verb command)" for command
    unfolding immediate_verb_def await_verb_def mmio_read16_def mmio_write16_def by (intro ends_intros)
  then have "ends (parameter immediate_verb node ident)" "ends (scan_widget immediate_verb start i)" for node ident start i
    unfolding parameter_def scan_widget_def query_into_def set_widget_def Let_def by (intro ends_intros; assumption?)+
  then have "ends (azalia_probe_codec (Some immediate_verb))"
    unfolding azalia_probe_codec_def probe_widgets_def scan_codec_def scan_group_def query_into_def finish_def Let_def option.case
    by (intro ends_intros)
  then have "ends (azalia_driver_service operation)"
    unfolding azalia_driver_service_def bring_up_def mmio_read16_def by (intro ends_intros)
  then show "boots e (in_audio (azalia_driver_service operation))" by (rule boots_parts)
  have "ends (intel915_driver_service operation)"
    unfolding intel915_driver_service_def by (intro ends_intros ends_returns [OF intel915_serve_returns])
  then show "boots e (in_graphics (on_shared (intel915_driver_service operation)))"
    unfolding in_vga_def in_i915_def by (intro boots_parts ends_zoom)
  have "ends (ps2_keyboard_interrupt v)"
    unfolding ps2_keyboard_interrupt_def by (intro ends_intros)
  then show "boots e (in_ps2 (ps2_keyboard_interrupt v))" by (rule boots_parts)
qed

lemma kernel_life_boots: "boots e (kernel_life cs)"
proof (induction cs)
  case (Cons c cs)
  have apic: "ends (lapic_interrupt_dispatch (Some f))" for f
    unfolding lapic_interrupt_dispatch_def option.case by (intro ends_intros)
  have "boots e (kernel_react c)"
  proof (cases c)
    case (Mouse_request cs operation)
    then show ?thesis by (auto intro!: boots_steps split: option.split prod.split)
  qed (simp_all add: background_boots boots_parts boots_host usb_host_interrupt_keeps services_boot keeps_andthen keeps_ret apic)
  then show ?case using Cons by (simp add: keeps_andthen)
qed (simp add: keeps_ret)


definition lapic_zero :: lapic_vars where
  "lapic_zero = \<lparr>lapic_lint0_count = 0, lapic_lint1_count = 0, lapic_error_count = 0, lapic_spurious_count = 0,
     lapic_last_error_status = 0\<rparr>"

definition cleared_kernel :: "i915_kernel \<Rightarrow> kernel_state" where
  "cleared_kernel gpu = kernel_zero gpu (vars ps2_fresh) lapic_zero storage_zero"

text \<open>Some addresses that the linker could choose.\<close>

definition sample_link :: link where
  "sample_link = \<lparr>lk_exception_dispatch = 0x80021000, lk_lapic_dispatch = 0x80021400, lk_storage_entry = 0x80022000,
     lk_usb_state = 0x80023000, lk_usb_interrupt = 0x80024000, lk_audio_state = 0x80025000, lk_audio_service = 0x80026000,
     lk_cursor_service = 0x80027000, lk_background_service = 0x80028000, lk_expected = 0x80029000,
     lk_kernel_text = 0x80029010, lk_kern_text = 0x80029020\<rparr>"


end
