(* ===== verification/Mouse_Path.thy ===== *)
theory Mouse_Path
  imports Kernel
begin

text \<open>
  The way of a mouse motion through the components: from the completed transfer of the UHCI driver
  through its callback into the cursor queue, and from there by the idle service into the
  cursor registers of the graphics driver.
\<close>

section \<open>A completed transfer\<close>

lemma report_data_kept:
  assumes "i < 4" "placed i c"
  shows "mem_load_list (mem_store32 (uc_interrupt_qh c + 4) v m) (uc_interrupt_data c) 64 = mem_load_list m (uc_interrupt_data c) 64"
proof -
  have "mem_store32 (at i 0x1014) v m (at i (0x2100 + k)) = m (at i (0x2100 + k))" if "k < 64" for k
    by (rule mem_store32_at) (use assms that in auto)
  moreover have "uc_interrupt_qh c + 4 = at i 0x1014" "uc_interrupt_data c = at i 0x2100"
    using assms(2) by (simp_all add: placed_def at_def)
  ultimately show ?thesis by (simp add: mem_load_list_def at_add)
qed

lemma completed_length_range:
  assumes "0 \<le> uhci_completed_length td n"
  shows "uhci_completed_length td n = uint (word_of_int (uhci_completed_length td n) :: u32)"
    "(word_of_int (uhci_completed_length td n) :: u32) \<le> n"
  using assms by (auto simp: uhci_completed_length_def Let_def split: if_splits)

lemma service_report_runs:
  assumes "i < length (uh_info (vars w))" "ci_status (uh_info (vars w) ! i) = UHCI_READY" "uh_callback (vars w) = Some f"
  shows "\<exists>w'. service_report i c irq td e w = Done 1 w' \<and> uh_callback (vars w') = Some f \<and> cpu_regs w' = cpu_regs w \<and>
    uh_client (vars w') = f (of_nat i) REPORT_DATA
      (Some (mem_load_list (mem_store32 (uc_interrupt_qh c + 4) 1 (mem w)) (uc_interrupt_data c) 64))
      (word_of_int (uhci_completed_length td (uc_packet c))) (uh_client (vars w)) \<and>
    io w' = Fence # io w"
  using assms
  by (simp add: service_report_def get_info_def set_info_def set_ctl_def get_ctl_def call_client_def store_report_def
      arm_interrupt_def prog_simps Let_def split: option.split)

text \<open>
  \<^verbatim>\<open>transfer_done e h m i d len\<close>: controller \<open>i\<close> has completed the transfer of its stream. Its registers answer without
  an error, with the device connected and the port enabled and unchanged; the memory as the controller has left it
  is \<open>m\<close>, with an inactive descriptor of \<open>len\<close> bytes and the report in \<open>d\<close>.
\<close>

definition dma_view :: "(u32 \<Rightarrow> u8 option) \<Rightarrow> (u32 \<Rightarrow> u8) \<Rightarrow> u32 \<Rightarrow> u8" where
  "dma_view dma m = (\<lambda>a. case dma a of None \<Rightarrow> m a | Some b \<Rightarrow> b)"

definition transfer_done :: "env \<Rightarrow> 'm usb_host \<Rightarrow> (u32 \<Rightarrow> u8) \<Rightarrow> nat \<Rightarrow> u8 list \<Rightarrow> int \<Rightarrow> bool" where
  "transfer_done e h m i d len \<longleftrightarrow> (let info = uh_info h ! i; c = uh_ctl h ! i; base = ucast (ci_io_base info) in
     ci_status info = UHCI_READY \<and> uc_active c \<noteq> 0 \<and>
     (\<forall>h. (ucast (ucast (env_in e h (Req_in16 (base + 2))) :: u16) :: u32) AND 0x18 = 0) \<and>
     (\<forall>h. (ucast (ucast (env_in e h (Req_in16 (base + 0x10 + ucast (uc_port c * 2)))) :: u16) :: u32) AND 7 = 5) \<and>
     (\<exists>dma. (\<forall>h. env_dma e h = dma) \<and> len = uhci_completed_length (mem_load32 (dma_view dma m) (uc_interrupt_td c + 4)) (uc_packet c) \<and>
        0 \<le> len \<and> d = mem_load_list (dma_view dma m) (uc_interrupt_data c) 64))"

lemma port_bits: "p AND 7 = 5 \<Longrightarrow> p AND 5 = 5 \<and> p AND 2 = 0" for p :: u32
proof -
  assume p: "p AND 7 = 5"
  have "p AND 5 = (p AND 7) AND 5" "p AND 2 = (p AND 7) AND 2" by (simp_all add: and.assoc)
  with p show ?thesis by simp
qed

lemma completed_inactive: "0 \<le> uhci_completed_length td n \<Longrightarrow> td AND UHCI_ACTIVE = 0"
  by (auto simp: uhci_completed_length_def split: if_splits)

lemma service_stream_reaches_report:
  assumes "host_ok (vars w)" "i < 4" "transfer_done e (vars w) (mem w) i d len"
  shows "\<exists>w2 td new. service_stream i irq status e w = service_report i (uh_ctl (vars w) ! i) irq td e w2 \<and>
    uh_callback (vars w2) = uh_callback (vars w) \<and> uh_client (vars w2) = uh_client (vars w) \<and>
    i < length (uh_info (vars w2)) \<and> ci_status (uh_info (vars w2) ! i) = UHCI_READY \<and> io w2 = new @ io w \<and>
    len = uhci_completed_length td (uc_packet (uh_ctl (vars w) ! i)) \<and>
    d = mem_load_list (mem w2) (uc_interrupt_data (uh_ctl (vars w) ! i)) 64"
proof -
  let ?c = "uh_ctl (vars w) ! i" and ?info = "uh_info (vars w) ! i"
  obtain dma where dma: "\<And>h. env_dma e h = dma"
    "len = uhci_completed_length (mem_load32 (dma_view dma (mem w)) (uc_interrupt_td ?c + 4)) (uc_packet ?c)" "0 \<le> len"
    "d = mem_load_list (dma_view dma (mem w)) (uc_interrupt_data ?c) 64"
    using assms(3) by (auto simp: transfer_done_def Let_def)
  define td where "td = mem_load32 (dma_view dma (mem w)) (uc_interrupt_td ?c + 4)"
  define req where "req = Req_in16 (ucast (ci_io_base ?info) + 0x10 + ucast (uc_port ?c * 2))"
  define p where "p = (ucast (env_in e (io w) req) :: u16)"
  define w2 where "w2 = w\<lparr>io := Sync # In16 (ucast (ci_io_base ?info) + 0x10 + ucast (uc_port ?c * 2)) p # io w, mem := dma_view dma (mem w),
    vars := (vars w)\<lparr>uh_info := (uh_info (vars w))[i := ?info\<lparr>ci_port_status := (ci_port_status ?info)[unat (uc_port ?c) := ucast p]\<rparr>],
      uh_last_td := (uh_last_td (vars w))[i := td]\<rparr>\<rparr>"
  have "td AND UHCI_ACTIVE = 0" "\<not> uhci_completed_length td (uc_packet ?c) < 0"
    using dma(2,3) completed_inactive by (auto simp: td_def)
  moreover have "(ucast p :: u32) AND 5 = 5 \<and> (ucast p :: u32) AND 2 = 0"
    using assms(3) port_bits by (auto simp: transfer_done_def Let_def p_def req_def)
  ultimately have "service_stream i irq status e w = service_report i ?c irq td e w2"
    using assms(3) dma(1)
    by (simp add: service_stream_def get_info_def get_ctl_def set_info_def prog_simps Let_def transfer_done_def w2_def
        p_def [symmetric] req_def [symmetric] dma_view_def [symmetric] td_def [symmetric])
  moreover have "i < length (uh_info (vars w))" using assms(1,2) by (simp add: host_ok_def)
  ultimately show ?thesis
    using assms(3) dma(2,4) by (intro exI [of _ w2] exI [of _ td]) (simp add: w2_def td_def transfer_done_def Let_def)
qed

lemma service_controller_reaches_report:
  assumes "host_ok (vars w)" "i < 4" "transfer_done e (vars w) (mem w) i d len"
  shows "\<exists>w2 td new. service_controller i irq e w = service_report i (uh_ctl (vars w) ! i) irq td e w2 \<and>
    uh_callback (vars w2) = uh_callback (vars w) \<and> uh_client (vars w2) = uh_client (vars w) \<and>
    i < length (uh_info (vars w2)) \<and> ci_status (uh_info (vars w2) ! i) = UHCI_READY \<and> io w2 = new @ io w \<and>
    len = uhci_completed_length td (uc_packet (uh_ctl (vars w) ! i)) \<and>
    d = mem_load_list (mem w2) (uc_interrupt_data (uh_ctl (vars w) ! i)) 64"
proof -
  let ?c = "uh_ctl (vars w) ! i" and ?info = "uh_info (vars w) ! i"
  have n: "length (uh_info (vars w)) = 4" "placed i ?c"
    using assms by (auto simp: host_ok_def slot_ok_def transfer_done_def Let_def)
  moreover have "i = 0 \<or> i = 1 \<or> i = 2 \<or> i = 3" using assms(2) by auto
  ultimately have frames: "uc_frames ?c \<noteq> 0" by (auto simp: placed_def dma_of_def)
  define st where "st = (ucast (env_in e (io w) (Req_in16 (ucast (ci_io_base ?info) + 2))) :: u16)"
  have st: "(ucast st :: u32) AND 0x18 = 0" using assms(3) by (simp add: transfer_done_def Let_def st_def)
  define w1 where "w1 = (if (ucast st :: u32) AND 0x1F = 0 then w\<lparr>io := In16 (ucast (ci_io_base ?info) + 2) st # io w\<rparr>
    else w\<lparr>vars := (vars w)\<lparr>uh_info := (uh_info (vars w))[i := ?info\<lparr>ci_interrupts := (if irq then ci_interrupts ?info + 1 else ci_interrupts ?info),
        ci_last_status := ucast st\<rparr>]\<rparr>,
      io := Out16 (ucast (ci_io_base ?info) + 2) (ucast ((ucast st :: u32) AND 0x1F)) # In16 (ucast (ci_io_base ?info) + 2) st # io w\<rparr>)"
  have "service_controller i irq e w = service_stream i irq (ucast st) e w1"
    using assms(3) frames st
    by (simp add: service_controller_def get_info_def get_ctl_def set_info_def prog_simps Let_def transfer_done_def
        st_def [symmetric] w1_def)
  moreover have "host_ok (vars w1)" "uh_ctl (vars w1) = uh_ctl (vars w)" "uh_callback (vars w1) = uh_callback (vars w)"
    "uh_client (vars w1) = uh_client (vars w)" "mem w1 = mem w"
    using assms(1,2) by (simp_all add: w1_def host_ok_def slot_ok_def nth_list_update)
  moreover have "transfer_done e (vars w1) (mem w1) i d len"
    using assms(2,3) n(1) by (simp add: w1_def transfer_done_def Let_def)
  moreover have "\<exists>new. io w1 = new @ io w" by (simp add: w1_def)
  ultimately show ?thesis using service_stream_reaches_report [of w1 i e d len irq "ucast st"] assms(2) by fastforce
qed

section \<open>The cursor queue\<close>

lemma receive_queues_motion:
  assumes "cursor_ok q" "length (cursor_ring.pending q) < 63" "i < 4" "3 \<le> len" "len \<le> 64" "d ! 1 \<noteq> 0 \<or> d ! 2 \<noteq> 0"
  shows "\<exists>q'. mouse_callback (of_nat i) REPORT_DATA (Some d) len (Some (s, q)) = Some (mouse_queue_report s (of_nat i) (Some d) len, q') \<and>
    cursor_ok q' \<and> cursor_ring.pending q' = cursor_ring.pending q @ [\<lparr>cp_dx = d ! 1, cp_dy = d ! 2, cp_controller = of_nat i\<rparr>]"
proof -
  let ?p = "\<lparr>cp_dx = d ! 1, cp_dy = d ! 2, cp_controller = of_nat i\<rparr>"
  have i: "i = 0 \<or> i = 1 \<or> i = 2 \<or> i = 3" using assms(3) by auto
  then have item: "cursor_item_ok ?p" using assms(6) by (auto simp: cursor_item_ok_def)
  have "mouse_cursor_enqueue q (of_nat i) (Some d) len = cursor_store ?p q"
    using i assms(4,5,6) by (auto simp: mouse_cursor_enqueue_def cursor_store_def not_less Let_def)
  then have "mouse_callback (of_nat i) REPORT_DATA (Some d) len (Some (s, q)) = Some (mouse_queue_report s (of_nat i) (Some d) len, cursor_store ?p q)"
    using i by (auto simp: mouse_callback_def mouse_receive_def word_le_nat_alt)
  then show ?thesis
    using cursor_ring.store_ok [OF assms(1) item] cursor_ring.pending_store [OF assms(1) item] assms(2) by simp
qed

lemma queue_report_connected: "ms_connected (mouse_queue_report s c d n) = ms_connected s"
  by (simp add: mouse_queue_report_def Let_def split: option.split)

section \<open>The idle service\<close>

definition kernel_graphics :: "kernel_state \<Rightarrow> intel915_shared" where
  "kernel_graphics s = i9_shared (vg_i915 (pn_vga (ks_panic s)))"

definition kernel_client :: "kernel_state \<Rightarrow> mouse_client" where
  "kernel_client s = uh_client (um_host (ks_usb s))"

text \<open>The pointer at the graphics page, the desktop drawn, the cursor on the screen and the page free.\<close>

definition cursor_shown :: "kernel_state \<Rightarrow> bool" where
  "cursor_shown s \<longleftrightarrow> i9_panic_state (vg_i915 (pn_vga (ks_panic s))) \<and> g_busy (kernel_graphics s) = 0 \<and>
     cursor_usable (kernel_graphics s) \<and> g_cursor_x (kernel_graphics s) < g_width (kernel_graphics s) \<and>
     g_cursor_y (kernel_graphics s) < g_height (kernel_graphics s)"

lemma run_zoom:
  "m e \<lparr>io = io w, mem = mem w, cpu_regs = cpu_regs w, vars = get (vars w)\<rparr> = Done x w' \<Longrightarrow>
   zoom get upd m e w = Done x \<lparr>io = io w', mem = mem w', cpu_regs = cpu_regs w', vars = upd (vars w') (vars w)\<rparr>"
  by (simp add: zoom_def)

text \<open>The events of a flush that moves the cursor of \<open>g\<close> to \<open>(x, y)\<close>, newest first; none if it is there already.\<close>

definition cursor_trace :: "intel915_shared \<Rightarrow> u32 \<Rightarrow> u32 \<Rightarrow> io_event list \<Rightarrow> bool" where
  "cursor_trace g x y new \<longleftrightarrow> (if x = g_cursor_x g \<and> y = g_cursor_y g then new = []
     else \<exists>v1 v2. new = [Mmio_read (0x71400000 + (0x70084 + g_pipe g * 0x40)) v2,
       Mmio_write (0x71400000 + (0x70084 + g_pipe g * 0x40)) (g_cursor_physical g),
       Mmio_read (0x71400000 + (0x70088 + g_pipe g * 0x40)) v1,
       Mmio_write (0x71400000 + (0x70088 + g_pipe g * 0x40)) (push_bit 16 y OR x)])"

lemma cursor_flush_traced:
  assumes "motions \<noteq> []" "length motions \<le> 64" "g_busy (vars w) = 0" "cursor_usable (vars w)"
    and "cursor_walk motions (g_width (vars w)) (g_height (vars w)) (g_cursor_x (vars w), g_cursor_y (vars w)) = (x, y)"
  shows "\<exists>w' new. intel915_cursor_flush True 0x71400000 motions e w = Done 1 w' \<and> io w' = new @ io w \<and>
    cursor_trace (vars w) x y new \<and> g_cursor_x (vars w') = x \<and> g_cursor_y (vars w') = y"
proof (cases "x = g_cursor_x (vars w) \<and> y = g_cursor_y (vars w)")
  case True
  then show ?thesis using cursor_flush_run(1) [OF _ assms, of "0x71400000" e] by (simp add: cursor_trace_def)
next
  case False
  then show ?thesis using cursor_flush_run(2) [OF _ assms, of "0x71400000" e] by (auto simp: cursor_trace_def)
qed

lemma update_cursor_runs:
  assumes "cursor_shown (vars w)" "motions \<noteq> []" "length motions \<le> 64"
    and "cursor_walk motions (g_width (kernel_graphics (vars w))) (g_height (kernel_graphics (vars w)))
      (g_cursor_x (kernel_graphics (vars w)), g_cursor_y (kernel_graphics (vars w))) = (x, y)"
  shows "\<exists>w' new. in_graphics (intel915_update_cursor motions) e w = Done 1 w' \<and> ks_usb (vars w') = ks_usb (vars w) \<and>
    io w' = new @ io w \<and> cursor_trace (kernel_graphics (vars w)) x y new \<and>
    g_cursor_x (kernel_graphics (vars w')) = x \<and> g_cursor_y (kernel_graphics (vars w')) = y"
proof -
  let ?g = "\<lparr>io = io w, mem = mem w, cpu_regs = cpu_regs w, vars = kernel_graphics (vars w)\<rparr>"
  obtain w1 new where "intel915_cursor_flush True 0x71400000 motions e ?g = Done 1 w1" "io w1 = new @ io w"
    "cursor_trace (kernel_graphics (vars w)) x y new" "g_cursor_x (vars w1) = x" "g_cursor_y (vars w1) = y"
    using cursor_flush_traced [of motions ?g x y e] assms by (auto simp: cursor_shown_def)
  then show ?thesis
    using assms(1) by (simp add: in_panic_def in_vga_def in_i915_def intel915_update_cursor_def zoom_def prog_simps
        kernel_graphics_def cursor_shown_def)
qed

lemma cursor_service_moves:
  assumes "cursor_shown (vars w)" "kernel_client (vars w) = Some (s, q)" "cursor_ok q"
    and "motions = map packet_motion (filter (cursor_deliverable (ms_connected s)) (cursor_ring.pending q))" "motions \<noteq> []"
    and "cursor_walk motions (g_width (kernel_graphics (vars w))) (g_height (kernel_graphics (vars w)))
      (g_cursor_x (kernel_graphics (vars w)), g_cursor_y (kernel_graphics (vars w))) = (x, y)"
  shows "\<exists>w' q' new. mouse_cursor_service e w = Done () w' \<and> kernel_client (vars w') = Some (s, q') \<and>
    cursor_ring.pending q' = [] \<and> io w' = new @ io w \<and> cursor_trace (kernel_graphics (vars w)) x y new \<and>
    g_cursor_x (kernel_graphics (vars w')) = x \<and> g_cursor_y (kernel_graphics (vars w')) = y"
proof -
  let ?w = "w\<lparr>cpu_regs := (cpu_regs w)\<lparr>cpu_if := False\<rparr>\<rparr>"
  have "length motions \<le> length (cursor_ring.pending q)" by (simp add: assms(4))
  then have n: "length motions \<le> 64" using cursor_ring.pending_bound [of q] by simp
  obtain w1 new where u: "in_graphics (intel915_update_cursor motions) e ?w = Done 1 w1" "ks_usb (vars w1) = ks_usb (vars w)"
    "io w1 = new @ io w" "cursor_trace (kernel_graphics (vars w)) x y new"
    "g_cursor_x (kernel_graphics (vars w1)) = x" "g_cursor_y (kernel_graphics (vars w1)) = y"
    using update_cursor_runs [of ?w motions x y e] assms n by auto
  show ?thesis
    using u assms(2,5) cursor_collect_all [OF assms(3), of "ms_connected s", folded assms(4)]
    by (simp add: mouse_cursor_service_def mouse_cursor_drain_def Let_def prog_simps kernel_client_def set_client_def
        in_usb_def in_host_def zoom_def kernel_graphics_def cursor_ring.pending_def)
qed

lemma report_reaches_client:
  assumes "host_ok (um_host (ks_usb (vars w)))" "i < 4" "transfer_done e (um_host (ks_usb (vars w))) (mem w) i d len"
    and "uh_callback (um_host (ks_usb (vars w))) = Some mouse_callback" "kernel_client (vars w) = Some (s, q)"
    and "cursor_ok q" "length (cursor_ring.pending q) < 63" "d ! 1 \<noteq> 0 \<or> d ! 2 \<noteq> 0" "3 \<le> len"
  shows "\<exists>w' q' new. in_usb (in_host (service_controller i irq)) e w = Done 1 w' \<and>
    kernel_client (vars w') = Some (mouse_queue_report s (of_nat i) (Some d) (word_of_int len), q') \<and> cursor_ok q' \<and>
    cursor_ring.pending q' = cursor_ring.pending q @ [\<lparr>cp_dx = d ! 1, cp_dy = d ! 2, cp_controller = of_nat i\<rparr>] \<and>
    ks_panic (vars w') = ks_panic (vars w) \<and> io w' = new @ io w"
proof -
  let ?h = "\<lparr>io = io w, mem = mem w, cpu_regs = cpu_regs w, vars = um_host (ks_usb (vars w))\<rparr>"
  let ?c = "uh_ctl (vars ?h) ! i" and ?len = "word_of_int len :: u32"
  obtain w2 td new where w2: "service_controller i irq e ?h = service_report i ?c irq td e w2"
    "uh_callback (vars w2) = Some mouse_callback" "uh_client (vars w2) = kernel_client (vars w)"
    "i < length (uh_info (vars w2))" "ci_status (uh_info (vars w2) ! i) = UHCI_READY" "io w2 = new @ io w"
    "len = uhci_completed_length td (uc_packet ?c)" "d = mem_load_list (mem w2) (uc_interrupt_data ?c) 64"
    using service_controller_reaches_report [of ?h i e d len irq] assms(1-4) by (auto simp: kernel_client_def)
  have "slot_ok (vars ?h) i" using assms(1,2) by (simp add: host_ok_def)
  moreover have "ci_status (uh_info (vars ?h) ! i) = UHCI_READY" using assms(3) by (simp add: transfer_done_def Let_def)
  ultimately have c: "placed i ?c" "uc_packet ?c \<le> 64" by (auto simp: slot_ok_def ctl_ok_def)
  have len: "len = uint ?len" "?len \<le> uc_packet ?c" using completed_length_range [of td "uc_packet ?c"] w2(7) assms(9) by auto
  then have range: "3 \<le> ?len" "?len \<le> 64" using assms(9) c(2) by (auto simp: word_le_def)
  obtain q' where q': "mouse_callback (of_nat i) REPORT_DATA (Some d) ?len (Some (s, q)) =
      Some (mouse_queue_report s (of_nat i) (Some d) ?len, q')" "cursor_ok q'"
    "cursor_ring.pending q' = cursor_ring.pending q @ [\<lparr>cp_dx = d ! 1, cp_dy = d ! 2, cp_controller = of_nat i\<rparr>]"
    using receive_queues_motion [OF assms(6,7,2) range assms(8), of s] by blast
  obtain w1 where "service_report i ?c irq td e w2 = Done 1 w1" "io w1 = Fence # new @ io w"
    "uh_client (vars w1) = mouse_callback (of_nat i) REPORT_DATA (Some d) ?len (kernel_client (vars w))"
    using service_report_runs [OF w2(4,5,2), of ?c irq td e] w2(3,6-8) report_data_kept [OF assms(2) c(1)] by auto
  then show ?thesis
    using q' assms(5) w2(1) by (simp add: in_usb_def in_host_def zoom_def kernel_client_def)
qed

section \<open>A mouse on the first controller\<close>

text \<open>A machine with a drawn desktop, on whose first controller a transfer of the report (0, 5, -5) is complete.\<close>

definition pointing_host :: "mouse_client usb_host" where
  "pointing_host = (let h = usb_zero (Some (mouse_fresh\<lparr>ms_connected := 1\<rparr>, cursor_fresh)) storage_zero
     in h\<lparr>uh_info := (uh_info h)[0 := (uh_info h ! 0)\<lparr>ci_status := UHCI_READY, ci_io_base := 0xE000\<rparr>],
          uh_ctl := (uh_ctl h)[0 := wrapping_controller], uh_callback := Some mouse_callback\<rparr>)"

definition pointing_state :: kernel_state where
  "pointing_state = (let s = cleared_kernel \<lparr>i9_panic_state = True, i9_shared = i915_drawn\<rparr>
     in s\<lparr>ks_usb := (ks_usb s)\<lparr>um_host := pointing_host\<rparr>\<rparr>)"

definition pointing_world :: "kernel_state world" where
  "pointing_world = (start_world pointing_state)\<lparr>mem := (\<lambda>_. 0)(0x30061034 := 2, 0x30062101 := 5, 0x30062102 := 0xFB)\<rparr>"

definition pointing_env :: env where
  "pointing_env = \<lparr>env_in = (\<lambda>_ r. if r = Req_in16 0xE002 then 1 else 5), env_dma = (\<lambda>_ _. None), env_fuel = 0\<rparr>"

lemma pointing_host_ok: "host_ok pointing_host"
proof -
  have "placed 0 wrapping_controller" by (simp add: placed_def wrapping_controller_def)
  then have "ctl_ok 0 wrapping_controller" "placed 0 wrapping_controller" by (simp_all add: ctl_ok_def wrapping_controller_def usb_zero_def)
  then show ?thesis
    using usb_zero_ok [of "Some (mouse_fresh\<lparr>ms_connected := 1\<rparr>, cursor_fresh)" storage_zero]
    by (auto simp: pointing_host_def Let_def host_ok_def slot_ok_def nth_list_update)
qed

lemma pointing_report:
  fixes d defines "d \<equiv> mem_load_list (mem pointing_world) 0x30062100 64"
  shows "transfer_done pointing_env pointing_host (mem pointing_world) 0 d 3" "d ! 1 = 5" "d ! 2 = 0xFB"
proof -
  have c: "uh_ctl pointing_host ! 0 = wrapping_controller" "ci_status (uh_info pointing_host ! 0) = UHCI_READY"
    "ci_io_base (uh_info pointing_host ! 0) = 0xE000"
    by (simp_all add: pointing_host_def Let_def usb_zero_def)
  have w: "uc_active wrapping_controller = 1" "uc_port wrapping_controller = 0" "uc_packet wrapping_controller = 8"
    "uc_interrupt_td wrapping_controller = 0x30061030" "uc_interrupt_data wrapping_controller = 0x30062100"
    by (simp_all add: wrapping_controller_def dma_of_def usb_zero_def)
  have "mem_load32 (mem pointing_world) 0x30061034 = 2" by (simp add: pointing_world_def mem_load32_def)
  then have "uhci_completed_length (mem_load32 (mem pointing_world) 0x30061034) 8 = 3"
    by (simp add: uhci_completed_length_def Let_def)
  moreover have "dma_view (\<lambda>_. None) m = m" for m by (simp add: dma_view_def)
  ultimately show "transfer_done pointing_env pointing_host (mem pointing_world) 0 d 3"
    by (simp add: transfer_done_def Let_def c w pointing_env_def d_def)
  show "d ! 1 = 5" "d ! 2 = 0xFB" by (simp_all add: d_def mem_load_list_def pointing_world_def)
qed

lemma pointing_simps:
  "um_host (ks_usb (vars pointing_world)) = pointing_host" "uh_callback pointing_host = Some mouse_callback"
  "kernel_client (vars pointing_world) = Some (mouse_fresh\<lparr>ms_connected := 1\<rparr>, cursor_fresh)"
  "kernel_graphics (vars pointing_world) = i915_drawn" "cursor_shown (vars pointing_world)"
  by (simp_all add: pointing_world_def pointing_state_def pointing_host_def kernel_client_def kernel_graphics_def cursor_shown_def
      cleared_kernel_def kernel_zero_def mouse_zero_def Let_def usb_zero_def i915_drawn_def i915_blank_def cursor_usable_def vga_zero_def)

end
