(* ===== verification/Spec2Isabelle.thy ===== *)
theory Spec2Isabelle
  imports Runtime Keyboard_Concurrency Mouse_Path
begin

text \<open>
  A verification development for the C code of a 32-bit x86 operating system for one laptop family
  (ICH6 chipset, Intel 915 graphics). All paths below are relative to
  \<^verbatim>\<open>src/Development\<close>.

  \<^bold>\<open>The program.\<close> A boot loader (\<^verbatim>\<open>Boot/BootStorage.c\<close>) finds the disk it was started from, over EHCI
  mass storage or ATA, loads two images named by a manifest and checks their CRC. The kernel proper
  is split: an assembly half (\<^verbatim>\<open>Arch/x86/VirtualKernel.asm\<close>) owns paging, processes, descriptors
  and scheduling and offers a table of functions (\<^verbatim>\<open>Include/KernelApi.h\<close>); the C half, which is the
  subject here, is started by \<^verbatim>\<open>kernel_main\<close>. It loads the keyboard and mouse drivers into ring 2
  and the graphics and audio drivers into ring 1, where processes reach them through call gates;
  it keeps in ring 0 the interrupt handlers, the 8042 and UHCI drivers, the storage service
  and the panic screen. Drivers and interrupt handlers communicate by rings in shared pages: scan
  codes from the PS/2 interrupt to the keyboard driver; raw reports from the UHCI interrupt
  through the mouse callback both to the ring-2 decoder and to the kernel's cursor queue, which the idle
  task drains into the hardware cursor. A panic or a kernel exception takes the display back to VGA text.

  \<^bold>\<open>The machine.\<close> \<^verbatim>\<open>Prelude\<close> names the integer types and the theorem collections. \<^verbatim>\<open>Machine\<close> is the
  state-and-error monad of all code that touches hardware: a \<^verbatim>\<open>world\<close> is the memory (a function from 32-bit
  addresses to bytes), the processor flags the code uses, the variables of a component, and the
  history of all port, register, clock and kernel-API events. What a device or the assembly half answers is
  the parameter \<^verbatim>\<open>env\<close>, an arbitrary function of the history, so that theorems hold for all
  devices, faulty and hostile ones included; memory that a bus master may change is updated from the
  environment where the code synchronises with it. An outcome is \<open>Done\<close>, \<open>Panicked\<close> (the kernel stops with a
  message) or \<open>Unfinished\<close> (a loop is still waiting). The predicates \<^verbatim>\<open>keeps\<close>, \<^verbatim>\<open>emits\<close>, \<^verbatim>\<open>returns\<close> and
  \<^verbatim>\<open>ends\<close> have one rule per primitive and combinator, and carry the component proofs. \<^verbatim>\<open>Clock\<close>
  treats the waits on the time-stamp counter.

  \<^bold>\<open>Theories and sources.\<close>
  \<^item> \<^verbatim>\<open>Runtime\<close>: \<^verbatim>\<open>Runtime/Memory.c\<close>, \<^verbatim>\<open>Runtime/String.c\<close>. \<^verbatim>\<open>memmove\<close> for every overlap, the order
    decided by the comparisons, bounds and result of \<^verbatim>\<open>kstrlcpy\<close>.
  \<^item> \<^verbatim>\<open>Ring_Buffer\<close>: the contract \<^verbatim>\<open>spsc_queue\<close> of every single-producer single-consumer queue, with the
    conservation theorem of its clients, and \<^verbatim>\<open>masked_ring\<close>, a sublocale of it for rings whose indices are masked.
  \<^item> \<^verbatim>\<open>Keyboard\<close>: \<^verbatim>\<open>Drivers/Keyboard/KeyboardShared.h\<close>, \<^verbatim>\<open>KeyboardDriver.c\<close>. The decoder against a
    specification of set-1 key events, the answers of the service, recovery from loss.
    \<^verbatim>\<open>Keyboard_Concurrency\<close>: the same queue as a step relation in which the interrupt handler runs
    between any two accesses of the consumer. \<^verbatim>\<open>Ps2\<close>: \<^verbatim>\<open>Ps2Keyboard.c\<close>, bounded bring-up and the interrupt route.
  \<^item> \<^verbatim>\<open>Intel915\<close>, \<^verbatim>\<open>Intel915_Driver\<close>: the shared, ring-1 and kernel parts of \<^verbatim>\<open>Drivers/Intel915/Intel915.c\<close>.
    Cursor arithmetic against clamping on the integers, the GPU scene inside its framebuffer, the first fitting run
    of pages, no page leaked, the display not switched before the GPU has been seen to draw.
  \<^item> \<^verbatim>\<open>Mouse_Driver\<close>: \<^verbatim>\<open>Drivers/Usb/MouseDriver.c\<close>. Its report queue and its cursor queue are interpretations
    of \<^verbatim>\<open>masked_ring\<close>; events refine the oldest deliverable report, a disconnect cancels what is queued,
    a drain is all or nothing.
  \<^item> \<^verbatim>\<open>Boot_Image\<close>, \<^verbatim>\<open>Boot_Transport\<close>: \<^verbatim>\<open>Boot/BootStorage.c\<close>. The file is compiled twice, for the loader and, with
    \<^verbatim>\<open>KERNEL_STORAGE\<close>, for the kernel; what the second build replaces is the record \<^verbatim>\<open>hooks\<close>.
    \<^verbatim>\<open>Boot_Safety\<close>: the locale \<^verbatim>\<open>transport_invariant\<close> states what an invariant has to satisfy on the
    primitive accesses and derives that all operations keep it; it is extended by
    \<^verbatim>\<open>loader_invariant\<close> and \<^verbatim>\<open>whole_loader_invariant\<close> and interpreted for the ATA command history, for memory outside
    the loader's buffers and, in \<^verbatim>\<open>Boot_Clock\<close>, for liveness.
  \<^item> \<^verbatim>\<open>Storage\<close>, \<^verbatim>\<open>Storage_Safety\<close>: \<^verbatim>\<open>Drivers/Storage/Storage.c\<close>. \<^verbatim>\<open>service_invariant\<close> extends the transport's
    contract to the service and its system calls, with the same three interpretations: disks are only
    read, a call writes only to memory its caller may write, and every call returns. The last section
    shows that without a USB disk the companion ports are never handed over a second time.
  \<^item> \<^verbatim>\<open>Usb_Host\<close>, \<^verbatim>\<open>Usb_Safety\<close>, \<^verbatim>\<open>Usb_Queue\<close>: \<^verbatim>\<open>Drivers/Usb/UsbHost.c\<close>, with frame lists, queue heads and
    transfer descriptors as bytes of memory. One invariant for all entry points gives the
    typing of the state, the memory frame and liveness; \<^verbatim>\<open>Usb_Queue\<close> interprets \<^verbatim>\<open>spsc_queue\<close> on the report queue
    with its free-running counters.
  \<^item> \<^verbatim>\<open>Usb_Mouse\<close>, \<^verbatim>\<open>Usb_Mouse_Safety\<close>: \<^verbatim>\<open>Drivers/Usb/UsbMouse.c\<close>. The descriptor parser never reads outside its
    buffer, and what it accepts can be scheduled; the probes and the idle task are shown to come back in the locale
    \<^verbatim>\<open>mouse_bus\<close> over what the host driver promises, interpreted on that driver.
  \<^item> \<^verbatim>\<open>Vga\<close>: \<^verbatim>\<open>Drivers/Vga/VgaTextMode.c\<close>, against a model of the VGA register file (write protection
    of the CRTC, the flip-flop of the attribute controller, the auto-incremented palette, the planes
    of the font). \<^verbatim>\<open>Panic\<close>: \<^verbatim>\<open>Kernel/Panic.c\<close>, \<^verbatim>\<open>Arch/x86/Exceptions.c\<close>; what is on the screen
    after a panic, and which exceptions lead to one.
  \<^item> \<^verbatim>\<open>Azalia\<close>: \<^verbatim>\<open>Drivers/Audio/Azalia.c\<close>. Every command sent to a codec is a query.
  \<^item> \<^verbatim>\<open>Kernel\<close>: \<^verbatim>\<open>Kernel/KernelMain.c\<close>, \<^verbatim>\<open>Arch/x86/LapicInterrupts.c\<close>, \<^verbatim>\<open>KeyboardDriverHost.c\<close>, the kernel half of
    \<^verbatim>\<open>MouseDriver.c\<close>, \<^verbatim>\<open>Desktop/Desktop.c\<close>. The state is a record of the components' states, on which
    their programs run through \<^verbatim>\<open>zoom\<close>; the mouse driver is the client of the host driver.
  \<^item> \<^verbatim>\<open>Mouse_Path\<close>: no code of its own; one report on its way from a completed transfer through the host driver's service
    routine, the callback, the cursor queue and the idle service into the cursor registers. This theory and the handler's lemmas in
    \<^verbatim>\<open>Ps2\<close> carry the two properties at the end of this file, which follow input from the hardware to
    its effect: key presses to the answer of a driver call, mouse motion to the screen.

  \<^bold>\<open>Conventions.\<close> Machine integers keep their width and wrap. Pointers are addresses, null is 0 or \<open>None\<close>. A read
  outside a C array is \<open>None\<close> or a marked panic, and is proved not to happen. Early returns are
  branches; error codes are those of the headers.

  \<^bold>\<open>Loops, fuel and bounds.\<close> Counted loops are recursions on the count (the 1000000 polls of the 8042, the 65536 PCI
  functions, the 100000 polls of a codec). A loop that ends only through a
  clock or a device runs with the bound \<^verbatim>\<open>env_fuel\<close> of the environment, and is \<open>Unfinished\<close> when it is spent; the liveness
  theorems assume \<^verbatim>\<open>steady_clock\<close>: the counter advances at every access by one to a million ticks, and the bound
  is at least \<^verbatim>\<open>2^32\<close>, more than the longest wait of the code in ticks, so that running out of
  fuel is never what ends a wait. Safety theorems make no assumption on clock or fuel and include
  unfinished runs. Loops over a string without a terminator are \<^verbatim>\<open>partial_function (option)\<close>.

  \<^bold>\<open>Not modelled.\<close> The assembly half (paging, scheduler, process and descriptor management, interrupt stubs, call-gate
  entries, user stubs), which is not C: its functions answer through the environment or are
  arguments. The layout decided by linker and PowerShell scripts: link-time addresses are arguments.
  Caches and the order of memory accesses beyond the fences the code issues; ring 1 to 3 protection is seen only through
  the values the code reads (selectors, page-table entries, CR3). An interrupt between any two accesses is modelled for
  the keyboard queue; the other queues are interleaved operation by operation, and the contract shows that an item
  under the consumer's eyes is not touched by the producer (\<^verbatim>\<open>front_stable\<close>). The interrupt handler of the host driver otherwise
  runs between calls, which the code ensures by disabling interrupts. The test programs of the
  repository run on the build machine and are not part of the system.
\<close>

section \<open>Properties across components\<close>

text \<open>
  C1: from the keyboard to the answer of a driver call. Any number of keyboard interrupts, with any answers of the
  controller, are all handled and return; the bytes the handler took are those of its port reads with a good status.
  If these are the bytes of a sequence of set-1 key events (at most 255, into an empty queue), the next call of the ring-2 driver
  decodes them into exactly the held keys those events leave: \<^verbatim>\<open>KEYBOARD_QUERY_KEY\<close> answers 1 for a
  held key and 0 for any other, extended keys at +128, with Pause and the fake shifts of Print Screen leaving nothing
  held, and the queue is empty afterwards.
\<close>

theorem keyboard_interrupts_reach_query:
  assumes "keyboard_ok s" "lock s = 0" "between_keys s" "keyboard_pending s = []" "observed_dropped s = dropped s"
    and "s = kbd_queue (vars w)" "key < 256"
  shows "\<exists>w' new. keyboard_interrupts n e w = Done () w' \<and> io w' = rev new @ io w \<and>
    (\<forall>evs. list_all key_event_ok evs \<longrightarrow> scan_codes new = Some (concat (map key_bytes evs)) \<longrightarrow>
      length (concat (map key_bytes evs)) \<le> 255 \<longrightarrow>
      (\<exists>s'. keyboard_driver_service cs KEYBOARD_QUERY_KEY key (kbd_queue (vars w')) =
          Some (c_bool (unat key \<in> fold key_effect evs (keys_down s)), s') \<and>
        keys_down s' = fold key_effect evs (keys_down s) \<and> keyboard_pending s' = [] \<and> keyboard_ok s'))"
proof -
  obtain w' new where run: "keyboard_interrupts n e w = Done () w'" "io w' = rev new @ io w"
    "\<And>bs. scan_codes new = Some bs \<Longrightarrow> kbd_queue (vars w') = fold keyboard_enqueue bs s"
    using interrupts_deliver [of 0 n e w] assms(6) unfolding keyboard_interrupts_def by blast
  have "\<exists>s'. keyboard_driver_service cs KEYBOARD_QUERY_KEY key (kbd_queue (vars w')) =
        Some (c_bool (unat key \<in> fold key_effect evs (keys_down s)), s') \<and>
      keys_down s' = fold key_effect evs (keys_down s) \<and> keyboard_pending s' = [] \<and> keyboard_ok s'"
    if "list_all key_event_ok evs" "scan_codes new = Some (concat (map key_bytes evs))" "length (concat (map key_bytes evs)) \<le> 255" for evs
    using key_events_decoded [OF assms(1-5) that(1,3) assms(7), of cs] run(3) [OF that(2)] by simp
  with run(1,2) show ?thesis by blast
qed

text \<open>A controller with a key press (A down, cursor up down, A up) to deliver, one byte per interrupt.\<close>

definition typing_env :: env where
  "typing_env = \<lparr>env_in = (\<lambda>h r. if r = Req_in8 0x64 then 1 else [0x1E, 0xE0, 0x48, 0x9E] ! (length h div 2)),
     env_dma = (\<lambda>_ _. None), env_fuel = 0\<rparr>"

theorem keyboard_interrupts_reach_query_witness:
  "\<exists>w' s'. keyboard_interrupts 4 typing_env ps2_fresh = Done () w' \<and>
     keyboard_driver_service 0x1A KEYBOARD_QUERY_KEY 0xC8 (kbd_queue (vars w')) = Some (1, s') \<and>
     keys_down s' = {0xC8} \<and> keyboard_pending s' = []"
proof -
  let ?evs = "[Plain True 0x1E, Ext True 0x48, Plain False 0x1E]"
  have s: "kbd_queue (vars ps2_fresh) = keyboard_fresh" by (simp add: ps2_fresh_def)
  have fresh: "lock keyboard_fresh = 0" "between_keys keyboard_fresh" "observed_dropped keyboard_fresh = dropped keyboard_fresh"
    by (simp_all add: keyboard_fresh_def between_keys_def)
  have keys: "fold key_effect ?evs (keys_down keyboard_fresh) = {0xC8}"
    by (auto simp: keys_down_def keyboard_fresh_def)
  let ?irq = "ps2_keyboard_interrupt (Some 0x31)"
  have four: "keyboard_interrupts 4 = andthen ?irq (andthen ?irq (andthen ?irq (andthen ?irq (ret ()))))"
    by (simp add: keyboard_interrupts_def eval_nat_numeral)
  have key: "(0xC8 :: u32) < 256" by simp
  obtain w' new where w': "keyboard_interrupts 4 typing_env ps2_fresh = Done () w'" "io w' = rev new @ io ps2_fresh"
    and decoded: "\<forall>evs. list_all key_event_ok evs \<longrightarrow> scan_codes new = Some (concat (map key_bytes evs)) \<longrightarrow>
      length (concat (map key_bytes evs)) \<le> 255 \<longrightarrow>
      (\<exists>s'. keyboard_driver_service 0x1A KEYBOARD_QUERY_KEY 0xC8 (kbd_queue (vars w')) =
          Some (c_bool (unat (0xC8 :: u32) \<in> fold key_effect evs (keys_down keyboard_fresh)), s') \<and>
        keys_down s' = fold key_effect evs (keys_down keyboard_fresh) \<and> keyboard_pending s' = [] \<and> keyboard_ok s')"
    using keyboard_interrupts_reach_query [OF keyboard_fresh_ok(1) fresh(1,2) keyboard_fresh_ok(2) fresh(3) s [symmetric] key]
    by blast
  have "io w' = rev [In8 0x64 1, In8 0x60 0x1E, In8 0x64 1, In8 0x60 0xE0, In8 0x64 1, In8 0x60 0x48, In8 0x64 1, In8 0x60 0x9E]"
    using w'(1) unfolding four by (clarsimp simp: ps2_keyboard_interrupt_def prog_simps typing_env_def ps2_fresh_def)
  then have "new = [In8 0x64 1, In8 0x60 0x1E, In8 0x64 1, In8 0x60 0xE0, In8 0x64 1, In8 0x60 0x48, In8 0x64 1, In8 0x60 0x9E]"
    using w'(2) by (simp add: ps2_fresh_def rev_swap)
  then have "scan_codes new = Some (concat (map key_bytes ?evs))" by (simp add: break_bit_def)
  moreover have "list_all key_event_ok ?evs" "length (concat (map key_bytes ?evs)) \<le> 255" by simp_all
  ultimately obtain s' where "keyboard_driver_service 0x1A KEYBOARD_QUERY_KEY 0xC8 (kbd_queue (vars w')) =
      Some (c_bool (unat (0xC8 :: u32) \<in> {0xC8}), s')" "keys_down s' = {0xC8}" "keyboard_pending s' = []"
    using decoded unfolding keys [symmetric] by blast
  with w'(1) show ?thesis by (intro exI [of _ w'] exI [of _ s']) simp
qed

text \<open>
  C5: a mouse movement reaches the screen, through all components. When a controller has completed the transfer of a
  report (its registers report no error, its descriptor and the report are in memory), one run of the UHCI service
  routine followed by one run of the idle callback's cursor service leaves the hardware cursor where the signed deltas of all
  queued motions and of the new report take it, one after the other, each clamped to the
  screen; the position register of the active pipe and then its base register are written
  exactly if the cursor moves, the cursor queue is empty afterwards, and the ring-2 driver's queue has been offered the same report.
\<close>

theorem mouse_report_moves_cursor:
  fixes w :: "kernel_state world"
  assumes "host_ok (um_host (ks_usb (vars w)))" "i < 4"
    and "transfer_done e (um_host (ks_usb (vars w))) (mem w) i d len" "3 \<le> len" "d ! 1 \<noteq> 0 \<or> d ! 2 \<noteq> 0"
    and "uh_callback (um_host (ks_usb (vars w))) = Some mouse_callback" "kernel_client (vars w) = Some (s, q)"
    and "cursor_ok q" "length (cursor_ring.pending q) < 63" "is_connected (ms_connected s) i" "cursor_shown (vars w)"
  defines "g \<equiv> kernel_graphics (vars w)"
  defines "motions \<equiv> map packet_motion (filter (cursor_deliverable (ms_connected s)) (cursor_ring.pending q))
      @ [\<lparr>cm_dx = scast (d ! 1), cm_dy = scast (d ! 2)\<rparr>]"
  shows "\<exists>w' q' x y new earlier.
    andthen (in_usb (in_host (service_controller i irq))) mouse_cursor_service e w = Done () w' \<and>
    kernel_client (vars w') = Some (mouse_queue_report s (of_nat i) (Some d) (word_of_int len), q') \<and> cursor_ring.pending q' = [] \<and>
    io w' = new @ earlier @ io w \<and> cursor_trace g x y new \<and>
    g_cursor_x (kernel_graphics (vars w')) = x \<and> g_cursor_y (kernel_graphics (vars w')) = y \<and> x < g_width g \<and> y < g_height g \<and>
    uint x = fold (\<lambda>m v. clamp_axis (uint (g_width g)) (v + sint (cm_dx m))) motions (uint (g_cursor_x g)) \<and>
    uint y = fold (\<lambda>m v. clamp_axis (uint (g_height g)) (v + sint (cm_dy m))) motions (uint (g_cursor_y g))"
proof -
  obtain x y where walk: "cursor_walk motions (g_width g) (g_height g) (g_cursor_x g, g_cursor_y g) = (x, y)" by fastforce
  have path: "x < g_width g \<and> y < g_height g
    \<and> int (unat x) = fold (\<lambda>m v. clamp_axis (uint (g_width g)) (v + sint (cm_dx m))) motions (int (unat (g_cursor_x g)))
    \<and> int (unat y) = fold (\<lambda>m v. clamp_axis (uint (g_height g)) (v + sint (cm_dy m))) motions (int (unat (g_cursor_y g)))"
    using assms(11) by (intro cursor_walk_path [OF _ _ _ _ _ _ walk]) (auto simp: cursor_shown_def cursor_usable_def g_def word_neq_0_conv)
  obtain w1 q1 earlier where r: "in_usb (in_host (service_controller i irq)) e w = Done 1 w1"
    "kernel_client (vars w1) = Some (mouse_queue_report s (of_nat i) (Some d) (word_of_int len), q1)" "cursor_ok q1"
    "cursor_ring.pending q1 = cursor_ring.pending q @ [\<lparr>cp_dx = d ! 1, cp_dy = d ! 2, cp_controller = of_nat i\<rparr>]"
    "ks_panic (vars w1) = ks_panic (vars w)" "io w1 = earlier @ io w"
    using report_reaches_client [OF assms(1-3,6-9,5,4), of irq] by blast
  have "i = 0 \<or> i = 1 \<or> i = 2 \<or> i = 3" using assms(2) by auto
  then have "cursor_deliverable (ms_connected s) \<lparr>cp_dx = d ! 1, cp_dy = d ! 2, cp_controller = of_nat i\<rparr>"
    using assms(10) by (auto simp: cursor_deliverable_def)
  then have m: "motions = map packet_motion (filter (cursor_deliverable (ms_connected (mouse_queue_report s (of_nat i) (Some d) (word_of_int len))))
      (cursor_ring.pending q1))"
    by (simp add: motions_def r(4) packet_motion_def queue_report_connected)
  have g: "kernel_graphics (vars w1) = g" "cursor_shown (vars w1)"
    using r(5) assms(11) by (simp_all add: kernel_graphics_def g_def cursor_shown_def)
  obtain w' q' new where "mouse_cursor_service e w1 = Done () w'"
    "kernel_client (vars w') = Some (mouse_queue_report s (of_nat i) (Some d) (word_of_int len), q')" "cursor_ring.pending q' = []"
    "io w' = new @ earlier @ io w" "cursor_trace g x y new"
    "g_cursor_x (kernel_graphics (vars w')) = x" "g_cursor_y (kernel_graphics (vars w')) = y"
    using cursor_service_moves [OF g(2) r(2,3) m, of x y e] walk r(6) g(1) by (auto simp: motions_def)
  then show ?thesis
    using path r(1) by (intro exI [of _ w'] exI [of _ q'] exI [of _ x] exI [of _ y] exI [of _ new] exI [of _ earlier]) (simp add: run_andthen)
qed

theorem mouse_report_moves_cursor_witness:
  "\<exists>w' x y. andthen (in_usb (in_host (service_controller 0 True))) mouse_cursor_service pointing_env pointing_world = Done () w' \<and>
     g_cursor_x (kernel_graphics (vars w')) = x \<and> g_cursor_y (kernel_graphics (vars w')) = y \<and> uint x = 9 \<and> uint y = 2"
proof -
  let ?d = "mem_load_list (mem pointing_world) 0x30062100 64"
  have q: "cursor_ok cursor_fresh" "cursor_ring.pending cursor_fresh = []" "is_connected (ms_connected (mouse_fresh\<lparr>ms_connected := 1\<rparr>)) 0"
    by (rule mouse_fresh_ok(2)) (simp_all add: cursor_ring.pending_def cursor_fresh_def is_connected_def)
  have g: "g_width i915_drawn = 1024" "g_height i915_drawn = 768" "g_cursor_x i915_drawn = 4" "g_cursor_y i915_drawn = 7"
    by (simp_all add: i915_drawn_def)
  have f: "fold (\<lambda>m v. clamp_axis (uint (1024 :: u32)) (v + sint (cm_dx m))) [\<lparr>cm_dx = scast (5 :: u8), cm_dy = scast (0xFB :: u8)\<rparr>] (uint (4 :: u32)) = 9"
    "fold (\<lambda>m v. clamp_axis (uint (768 :: u32)) (v + sint (cm_dy m))) [\<lparr>cm_dx = scast (5 :: u8), cm_dy = scast (0xFB :: u8)\<rparr>] (uint (7 :: u32)) = 2"
    by (simp_all add: clamp_axis_def)
  show ?thesis
    using mouse_report_moves_cursor [of pointing_world 0 pointing_env ?d 3 "mouse_fresh\<lparr>ms_connected := 1\<rparr>" cursor_fresh True]
      pointing_host_ok pointing_report pointing_simps q g f by fastforce
qed

end
